(* ===== verification/Prelude.thy ===== *)
theory Prelude
  imports Main "HOL-Library.Word"
begin

text \<open>
  What every component of the development shares.

  \<^item> Types: a Go \<open>[]byte\<close> is a list of 8-bit words, a Go \<open>string\<close> is a list of characters
    (HOL characters are bytes, as Go's are); a fixed array \<open>[n]byte\<close> is a byte list whose
    length is \<open>n\<close>.
  \<^item> Errors: a Go function returning \<open>(T, error)\<close> is a function into \<open>err + 'a\<close>. The type
    \<open>err\<close> keeps what \<open>errors.Is\<close> can observe, the sentinels of the packages and the wrapping
    structure, plus a tag that says which branch failed; message texts are not kept. \<open>Panic\<close> is
    a run-time panic of the code (a slice or an array conversion out of range).
  \<^item> \<open>bindr\<close> is the idiom \<open>x, err := f(); if err != nil { return err }\<close>.
  \<^item> Go maps are association lists, read with \<open>map_of\<close>; \<open>sorted_keys\<close> is
    \<open>slices.Sorted(maps.Keys(m))\<close>.
  \<^item> The operations of the \<open>strings\<close> and \<open>encoding/hex\<close> packages the code calls.

  Lengths and offsets are natural numbers: Go's \<open>int\<close> is taken to be 64 bits wide, and every
  offset the code forms is bounded by the length of a slice in memory plus at most a few times
  \<open>2^32\<close>, which does not wrap.
\<close>

section \<open>Bytes and errors\<close>

type_synonym byte = "8 word"
type_synonym bytes = "8 word list"

datatype sentinel =
    ErrNoRegister | ErrUnknownPlatform | ErrRegisterDiverged | ErrMalformedEntry
  | ErrNoAnchor | ErrWrongFamily
  | ErrSignatureInvalid | ErrReportDataMismatch | ErrMeasurementNotAllowed
  | ErrInvalidLaunchDigest | ErrRegistersNotAllowed | ErrAnchorNotAllowed
  | ErrLaunchFileNotAllowed | ErrPlatformMismatch | ErrMinTcbNotAllowed
  | ErrPCRNotAllowed | ErrInitDataMismatch | ErrUnsupportedPlatform
  | ErrUnsupportedTEE | ErrInvalidReport | ErrNoAttestation
  | ErrCollateralUnavailable

datatype err =
    Errorf string
  | Sentinel sentinel
  | Wrap err err
  | Panic

text \<open>\<open>errors.Is\<close>: a wrapped error answers to each error it wraps.\<close>

fun errors_is :: "err \<Rightarrow> sentinel \<Rightarrow> bool" where
  "errors_is (Errorf m) s = False"
| "errors_is (Sentinel t) s = (t = s)"
| "errors_is (Wrap a b) s = (errors_is a s \<or> errors_is b s)"
| "errors_is Panic s = False"

text \<open>A run-time panic anywhere inside an error value.\<close>

fun panics :: "err \<Rightarrow> bool" where
  "panics (Errorf m) = False"
| "panics (Sentinel t) = False"
| "panics (Wrap a b) = (panics a \<or> panics b)"
| "panics Panic = True"

definition panics_result :: "err + 'a \<Rightarrow> bool" where
  "panics_result r = (case r of Inl e \<Rightarrow> panics e | Inr _ \<Rightarrow> False)"

lemma panics_result_simps [simp]:
  "panics_result (Inl e) = panics e"
  "panics_result (Inr x) = False"
  by (simp_all add: panics_result_def)

section \<open>Fallible computations\<close>

definition bindr :: "'e + 'a \<Rightarrow> ('a \<Rightarrow> 'e + 'b) \<Rightarrow> 'e + 'b" where
  "bindr m f = (case m of Inl e \<Rightarrow> Inl e | Inr x \<Rightarrow> f x)"

text \<open>\<open>if err != nil { return fmt.Errorf("%w: %w", w, err) }\<close>\<close>

definition wrap_err :: "err \<Rightarrow> err + 'a \<Rightarrow> err + 'a" where
  "wrap_err w m = (case m of Inl e \<Rightarrow> Inl (Wrap w e) | Inr x \<Rightarrow> Inr x)"

named_theorems result_simps "inversion of fallible computations"

lemma bindr_simps [simp]:
  "bindr (Inl e) f = Inl e"
  "bindr (Inr x) f = f x"
  by (simp_all add: bindr_def)

lemma wrap_err_simps [simp]:
  "wrap_err w (Inl e) = Inl (Wrap w e)"
  "wrap_err w (Inr x) = Inr x"
  by (simp_all add: wrap_err_def)

lemma bindr_eq_Inr [simp, result_simps]:
  "bindr m f = Inr y \<longleftrightarrow> (\<exists>x. m = Inr x \<and> f x = Inr y)"
  by (cases m) simp_all

lemma bindr_eq_Inl [result_simps]:
  "bindr m f = Inl e \<longleftrightarrow> m = Inl e \<or> (\<exists>x. m = Inr x \<and> f x = Inl e)"
  by (cases m) simp_all

lemma wrap_err_eq_Inr [simp, result_simps]:
  "wrap_err w m = Inr y \<longleftrightarrow> m = Inr y"
  by (cases m) simp_all

lemma wrap_err_eq_Inl [result_simps]:
  "wrap_err w m = Inl e \<longleftrightarrow> (\<exists>e'. m = Inl e' \<and> e = Wrap w e')"
  by (cases m) auto

lemma if_Inl_eq_Inr [simp, result_simps]:
  "(if b then Inl e else r) = Inr y \<longleftrightarrow> \<not> b \<and> r = Inr y"
  "(if b then r else Inl e) = Inr y \<longleftrightarrow> b \<and> r = Inr y"
  by simp_all

lemma bindr_cong [fundef_cong]:
  "m = m' \<Longrightarrow> (\<And>x. m' = Inr x \<Longrightarrow> f x = g x) \<Longrightarrow> bindr m f = bindr m' g"
  by (cases m') simp_all

lemma panics_bindr [simp]:
  "panics_result (bindr m f) \<longleftrightarrow> panics_result m \<or> (\<exists>x. m = Inr x \<and> panics_result (f x))"
  by (cases m) simp_all

lemma panics_wrap_err [simp]:
  "panics_result (wrap_err w m) \<longleftrightarrow> panics_result m \<or> (\<exists>e. m = Inl e \<and> panics w)"
  by (cases m) auto

text \<open>The loop \<open>for _, x := range xs { if err := f(x); err != nil { return err } }\<close>.\<close>

fun for_each :: "('a \<Rightarrow> 'e + unit) \<Rightarrow> 'a list \<Rightarrow> 'e + unit" where
  "for_each f [] = Inr ()"
| "for_each f (x # xs) = bindr (f x) (\<lambda>_. for_each f xs)"

lemma for_each_eq_Inr [simp, result_simps]:
  "for_each f xs = Inr u \<longleftrightarrow> (\<forall>x\<in>set xs. f x = Inr ())"
  by (induction xs) auto

lemma for_each_cong [fundef_cong]:
  "xs = ys \<Longrightarrow> (\<And>x. x \<in> set ys \<Longrightarrow> f x = g x) \<Longrightarrow> for_each f xs = for_each g ys"
  by (induction ys arbitrary: xs) auto

lemma panics_for_each:
  "(\<And>x. x \<in> set xs \<Longrightarrow> \<not> panics_result (f x)) \<Longrightarrow> \<not> panics_result (for_each f xs)"
  by (induction xs) auto

text \<open>The loop that appends each result to a slice.\<close>

fun map_each :: "('a \<Rightarrow> 'e + 'b) \<Rightarrow> 'a list \<Rightarrow> 'e + 'b list" where
  "map_each f [] = Inr []"
| "map_each f (x # xs) = bindr (f x) (\<lambda>y. bindr (map_each f xs) (\<lambda>ys. Inr (y # ys)))"

lemma map_each_Inr_length: "map_each f xs = Inr ys \<Longrightarrow> length ys = length xs"
  by (induction xs arbitrary: ys) auto

lemma map_each_eq_Inr:
  "map_each f xs = Inr ys \<longleftrightarrow> list_all2 (\<lambda>x y. f x = Inr y) xs ys"
  by (induction xs arbitrary: ys) (auto simp: list_all2_Cons1)

section \<open>Slices\<close>

text \<open>\<open>b[lo:hi]\<close>; out of range is a panic.\<close>

definition subslice :: "'a list \<Rightarrow> nat \<Rightarrow> nat \<Rightarrow> err + 'a list" where
  "subslice b lo hi =
     (if lo \<le> hi \<and> hi \<le> length b then Inr (take (hi - lo) (drop lo b)) else Inl Panic)"

text \<open>\<open>b[i]\<close>; out of range is a panic.\<close>

definition index_at :: "'a list \<Rightarrow> nat \<Rightarrow> err + 'a" where
  "index_at b i = (if i < length b then Inr (b ! i) else Inl Panic)"

text \<open>The conversion \<open>[n]byte(b)\<close> of a slice to an array panics on a shorter slice.\<close>

definition to_array :: "nat \<Rightarrow> bytes \<Rightarrow> err + bytes" where
  "to_array n b = (if length b < n then Inl Panic else Inr (take n b))"

lemma subslice_Inr [simp]:
  "subslice b lo hi = Inr c \<longleftrightarrow> lo \<le> hi \<and> hi \<le> length b \<and> c = take (hi - lo) (drop lo b)"
  by (auto simp: subslice_def)

lemma panics_subslice [simp]:
  "panics_result (subslice b lo hi) \<longleftrightarrow> \<not> (lo \<le> hi \<and> hi \<le> length b)"
  by (simp add: subslice_def)

lemma panics_index_at [simp]: "panics_result (index_at b i) \<longleftrightarrow> \<not> i < length b"
  by (simp add: index_at_def)

lemma index_at_Inr [simp]: "index_at b i = Inr x \<longleftrightarrow> i < length b \<and> x = b ! i"
  by (auto simp: index_at_def)

lemma to_array_exact [simp]: "length b = n \<Longrightarrow> to_array n b = Inr b"
  by (simp add: to_array_def)

text \<open>Dropping trailing elements: the loop \<open>for end > 0 && b[end-1] == 0 { end-- }\<close>.\<close>

definition strip_trailing :: "'a \<Rightarrow> 'a list \<Rightarrow> 'a list" where
  "strip_trailing z b = rev (dropWhile (\<lambda>x. x = z) (rev b))"

lemma strip_trailing_split:
  "\<exists>n. b = strip_trailing z b @ replicate n z"
proof -
  let ?r = "rev b"
  have "?r = takeWhile (\<lambda>x. x = z) ?r @ dropWhile (\<lambda>x. x = z) ?r" by simp
  moreover have "takeWhile (\<lambda>x. x = z) ?r = replicate (length (takeWhile (\<lambda>x. x = z) ?r)) z"
    by (metis (mono_tags, lifting) replicate_length_same set_takeWhileD)
  ultimately have "rev ?r = rev (dropWhile (\<lambda>x. x = z) ?r) @ rev (replicate (length (takeWhile (\<lambda>x. x = z) ?r)) z)"
    by (metis rev_append)
  then show ?thesis by (auto simp: strip_trailing_def)
qed

lemma strip_trailing_last:
  "strip_trailing z b \<noteq> [] \<Longrightarrow> last (strip_trailing z b) \<noteq> z"
  using hd_dropWhile [of "\<lambda>x. x = z" "rev b"] by (simp add: strip_trailing_def last_rev)

lemma strip_trailing_id: "b = [] \<or> last b \<noteq> z \<Longrightarrow> strip_trailing z b = b"
  by (cases b rule: rev_cases) (auto simp: strip_trailing_def)

lemma strip_trailing_pad: "strip_trailing z (b @ replicate n z) = strip_trailing z b"
  by (simp add: strip_trailing_def dropWhile_append)

lemma strip_trailing_inj:
  assumes "strip_trailing z a = strip_trailing z b" and "length a = length b"
  shows "a = b"
proof -
  obtain n where a: "a = strip_trailing z a @ replicate n z" using strip_trailing_split by metis
  obtain m where b: "b = strip_trailing z b @ replicate m z" using strip_trailing_split by metis
  have "length a = length (strip_trailing z a) + n" by (subst a) simp
  moreover have "length b = length (strip_trailing z b) + m" by (subst b) simp
  ultimately have "n = m" using assms by simp
  with a b assms(1) show ?thesis by metis
qed

section \<open>Go maps\<close>

definition sorted_keys :: "('k::linorder \<times> 'v) list \<Rightarrow> 'k list" where
  "sorted_keys m = sorted_list_of_set (set (map fst m))"

lemma set_sorted_keys [simp]: "set (sorted_keys m) = fst ` set m"
  by (simp add: sorted_keys_def)

lemma sorted_sorted_keys [simp]: "sorted (sorted_keys m)"
  by (simp add: sorted_keys_def)

lemma distinct_sorted_keys [simp]: "distinct (sorted_keys m)"
  by (simp add: sorted_keys_def)

lemma map_of_sorted_keys: "k \<in> set (sorted_keys m) \<longleftrightarrow> (\<exists>v. map_of m k = Some v)"
  by (auto simp: map_of_eq_None_iff[symmetric] not_None_eq[symmetric] simp del: not_None_eq
      dest: weak_map_of_SomeI map_of_SomeD) (metis fst_conv image_eqI map_of_SomeD)

section \<open>Byte order\<close>

text \<open>\<open>binary.BigEndian\<close> and \<open>binary.LittleEndian\<close> as numbers below \<open>256 ^ n\<close>, and their inverses.\<close>

definition be_nat :: "bytes \<Rightarrow> nat" where
  "be_nat b = foldl (\<lambda>a x. a * 256 + unat x) 0 b"

definition le_nat :: "bytes \<Rightarrow> nat" where
  "le_nat b = be_nat (rev b)"

fun be_bytes :: "nat \<Rightarrow> nat \<Rightarrow> bytes" where
  "be_bytes 0 v = []"
| "be_bytes (Suc n) v = be_bytes n (v div 256) @ [word_of_nat (v mod 256)]"

definition le_bytes :: "nat \<Rightarrow> nat \<Rightarrow> bytes" where
  "le_bytes n v = rev (be_bytes n v)"

lemma be_nat_simps [simp]:
  "be_nat [] = 0" "be_nat (b @ [x]) = be_nat b * 256 + unat x"
  by (simp_all add: be_nat_def)

lemma unat_byte_lt [simp]: "unat (x::8 word) < 256"
  using unsigned_less [of x, where ?'a = nat] by simp

lemma unat_of_byte [simp]: "n < 256 \<Longrightarrow> unat (word_of_nat n :: 8 word) = n"
  by (simp add: unat_of_nat)

lemma be_nat_lt: "be_nat b < 256 ^ length b"
proof (induction b rule: rev_induct)
  case (snoc x b)
  have "a * 256 + y < p * 256" if "a < p" "y < 256" for a p y :: nat
  proof -
    have "Suc a * 256 \<le> p * 256" using that(1) by (intro mult_le_mono1) simp
    with that(2) show ?thesis by simp
  qed
  from this [OF snoc, of "unat x"] show ?case by (simp add: mult.commute)
qed simp

lemma length_be_bytes [simp]: "length (be_bytes n v) = n"
  by (induction n arbitrary: v) simp_all

lemma length_le_bytes [simp]: "length (le_bytes n v) = n"
  by (simp add: le_bytes_def)

lemma be_nat_be_bytes: "be_nat (be_bytes n v) = v mod 256 ^ n"
proof (induction n arbitrary: v)
  case (Suc n)
  have "v mod (256 * 256 ^ n) = 256 * (v div 256 mod 256 ^ n) + v mod 256"
    by (rule mod_mult2_eq)
  with Suc show ?case by simp
qed simp

lemma be_nat_be_bytes_small [simp]: "v < 256 ^ n \<Longrightarrow> be_nat (be_bytes n v) = v"
  by (simp add: be_nat_be_bytes)

lemma be_bytes_be_nat [simp]: "n = length b \<Longrightarrow> be_bytes n (be_nat b) = b"
  by (induction b arbitrary: n rule: rev_induct) simp_all

lemma le_nat_lt: "le_nat b < 256 ^ length b"
  using be_nat_lt [of "rev b"] by (simp add: le_nat_def)

lemma le_nat_le_bytes [simp]: "v < 256 ^ n \<Longrightarrow> le_nat (le_bytes n v) = v"
  by (simp add: le_nat_def le_bytes_def)

lemma le_bytes_le_nat [simp]: "n = length b \<Longrightarrow> le_bytes n (le_nat b) = b"
  by (simp add: le_nat_def le_bytes_def)

text \<open>Reading the parts of a concatenation.\<close>

lemma subslice_mid:
  "lo = length a \<Longrightarrow> hi = length a + length b \<Longrightarrow> subslice (a @ b @ c) lo hi = Inr b"
  by (simp add: subslice_def)

lemma split_at: "n \<le> length b \<Longrightarrow> \<exists>x y. b = x @ y \<and> length x = n"
  by (rule exI [of _ "take n b"], rule exI [of _ "drop n b"]) simp

end
