(* ===== verification/GoStrings.thy ===== *)
theory GoStrings
  imports Prelude
begin

text \<open>
  The operations of Go's \<open>strings\<close>, \<open>strconv\<close>, \<open>fmt\<close> and \<open>encoding/hex\<close> packages that
  the code calls, on Go strings as lists of bytes (HOL characters).

  \<^item> \<open>trim_space\<close> is \<open>strings.TrimSpace\<close>: it strips the UTF-8 encodings of the Unicode white
    space characters from both ends (\<open>go_spaces\<close> lists all of them).
  \<^item> \<open>to_lower\<close> is \<open>strings.ToLower\<close> as far as an ASCII comparison can see: the ASCII capitals
    and the two non-ASCII letters whose lower case is ASCII (U+0130 and U+212A) are folded, every
    other non-ASCII byte is kept. Go folds the other non-ASCII letters too, to non-ASCII letters,
    so a comparison of the result with an ASCII constant has the same outcome.
  \<^item> \<open>split_on\<close>, \<open>cut_prefix\<close>, \<open>cut_first\<close>, \<open>cut_last\<close> are \<open>Split\<close> (and \<open>SplitSeq\<close>),
    \<open>CutPrefix\<close>, \<open>Cut\<close> and the idiom around \<open>LastIndex\<close>, for one-byte separators.
  \<^item> \<open>hex_encode\<close>, \<open>hex_decode\<close> are \<open>hex.EncodeToString\<close> and \<open>hex.DecodeString\<close>.
\<close>

section \<open>White space and case\<close>

definition go_spaces :: "string list" where
  "go_spaces =
     [[CHR 0x09], [CHR 0x0A], [CHR 0x0B], [CHR 0x0C], [CHR 0x0D], [CHR 0x20],
      [CHR 0xC2, CHR 0x85], [CHR 0xC2, CHR 0xA0], [CHR 0xE1, CHR 0x9A, CHR 0x80],
      [CHR 0xE2, CHR 0x80, CHR 0x80], [CHR 0xE2, CHR 0x80, CHR 0x81],
      [CHR 0xE2, CHR 0x80, CHR 0x82], [CHR 0xE2, CHR 0x80, CHR 0x83],
      [CHR 0xE2, CHR 0x80, CHR 0x84], [CHR 0xE2, CHR 0x80, CHR 0x85],
      [CHR 0xE2, CHR 0x80, CHR 0x86], [CHR 0xE2, CHR 0x80, CHR 0x87],
      [CHR 0xE2, CHR 0x80, CHR 0x88], [CHR 0xE2, CHR 0x80, CHR 0x89],
      [CHR 0xE2, CHR 0x80, CHR 0x8A], [CHR 0xE2, CHR 0x80, CHR 0xA8],
      [CHR 0xE2, CHR 0x80, CHR 0xA9], [CHR 0xE2, CHR 0x80, CHR 0xAF],
      [CHR 0xE2, CHR 0x81, CHR 0x9F], [CHR 0xE3, CHR 0x80, CHR 0x80]]"

definition has_prefix :: "'a list \<Rightarrow> 'a list \<Rightarrow> bool" where
  "has_prefix p s \<longleftrightarrow> take (length p) s = p"

function strip_front :: "string list \<Rightarrow> string \<Rightarrow> string" where
  "strip_front ps s =
     (case find (\<lambda>p. p \<noteq> [] \<and> has_prefix p s) ps of
        None \<Rightarrow> s
      | Some p \<Rightarrow> strip_front ps (drop (length p) s))"
  by pat_completeness auto
termination
proof (relation "measure (\<lambda>(ps, s). length s)", goal_cases)
  case 1
  show ?case by simp
next
  case (2 ps s p)
  then have "p \<noteq> []" and "has_prefix p s" by (auto simp: find_Some_iff)
  then have "s \<noteq> []" by (auto simp: has_prefix_def)
  with \<open>p \<noteq> []\<close> show ?case by simp
qed

declare strip_front.simps [simp del]

definition trim_left :: "string \<Rightarrow> string" where
  "trim_left s = strip_front go_spaces s"

definition trim_right :: "string \<Rightarrow> string" where
  "trim_right s = rev (strip_front (map rev go_spaces) (rev s))"

definition trim_space :: "string \<Rightarrow> string" where
  "trim_space s = trim_right (trim_left s)"

text \<open>A string that neither starts nor ends with a byte that occurs in a white space
  character is its own trimming.\<close>

definition space_bytes :: "string" where
  "space_bytes = concat go_spaces"

lemma strip_front_id:
  assumes "s = [] \<or> hd s \<notin> hd ` (set ps - {[]})"
  shows "strip_front ps s = s"
proof -
  have "\<not> has_prefix p s" if "p \<in> set ps" "p \<noteq> []" for p
  proof
    assume h: "has_prefix p s"
    with that have ne: "s \<noteq> []" by (auto simp: has_prefix_def)
    from h that ne have "hd p = hd s"
      by (metis has_prefix_def hd_take length_greater_0_conv)
    moreover from that have "hd p \<in> hd ` (set ps - {[]})" by blast
    ultimately show False using assms ne by simp
  qed
  then have "find (\<lambda>p. p \<noteq> [] \<and> has_prefix p s) ps = None"
    by (auto simp: find_None_iff)
  then show ?thesis by (simp add: strip_front.simps)
qed

lemma trim_space_id:
  assumes "s = [] \<or> hd s \<notin> set space_bytes \<and> last s \<notin> set space_bytes"
  shows "trim_space s = s"
proof -
  have a: "strip_front go_spaces s = s"
  proof (rule strip_front_id)
    have "hd ` (set go_spaces - {[]}) \<subseteq> set space_bytes"
      by (auto simp: space_bytes_def)
    with assms show "s = [] \<or> hd s \<notin> hd ` (set go_spaces - {[]})" by blast
  qed
  have "strip_front (map rev go_spaces) (rev s) = rev s"
  proof (rule strip_front_id)
    have "hd ` (set (map rev go_spaces) - {[]}) \<subseteq> set space_bytes"
      by (auto simp: space_bytes_def hd_rev)
    with assms show "rev s = [] \<or> hd (rev s) \<notin> hd ` (set (map rev go_spaces) - {[]})"
      by (auto simp: hd_rev)
  qed
  with a show ?thesis by (simp add: trim_space_def trim_left_def trim_right_def)
qed

text \<open>Trimming keeps a first byte that starts no white space character.\<close>

lemma strip_front_suffix: "\<exists>a. s = a @ strip_front ps s"
proof (induction ps s rule: strip_front.induct)
  case (1 ps s)
  show ?case
  proof (cases "find (\<lambda>p. p \<noteq> [] \<and> has_prefix p s) ps")
    case None
    then show ?thesis by (subst strip_front.simps) simp
  next
    case (Some p)
    with 1 obtain a where "drop (length p) s = a @ strip_front ps (drop (length p) s)" by blast
    then have "s = (take (length p) s @ a) @ strip_front ps (drop (length p) s)" by (metis append.assoc append_take_drop_id)
    moreover have "strip_front ps s = strip_front ps (drop (length p) s)" using Some by (subst strip_front.simps) simp
    ultimately show ?thesis by metis
  qed
qed

lemma trim_right_prefix: "\<exists>a. s = trim_right s @ a"
  using strip_front_suffix [of "rev s" "map rev go_spaces"] unfolding trim_right_def
  by (metis rev_append rev_rev_ident)

lemma trim_space_hd:
  assumes "s = [] \<or> hd s \<notin> set space_bytes" and "trim_space s \<noteq> []"
  shows "hd (trim_space s) = hd s"
proof -
  have "list_all (\<lambda>p. hd p \<in> set space_bytes) go_spaces" by code_simp
  then have "hd ` (set go_spaces - {[]}) \<subseteq> set space_bytes" by (auto simp: list_all_iff)
  with assms(1) have "s = [] \<or> hd s \<notin> hd ` (set go_spaces - {[]})" by blast
  then have "trim_left s = s" unfolding trim_left_def by (rule strip_front_id)
  then have t: "trim_space s = trim_right s" by (simp add: trim_space_def)
  obtain a where "s = trim_right s @ a" using trim_right_prefix by blast
  with assms(2) t show ?thesis by (metis hd_append2)
qed

lemma trim_space_Nil [simp]: "trim_space [] = []"
  by (rule trim_space_id) simp

definition ascii_upper :: string where
  "ascii_upper = ''ABCDEFGHIJKLMNOPQRSTUVWXYZ''"

definition ascii_lower :: "char \<Rightarrow> char" where
  "ascii_lower c =
     (if c \<in> set ascii_upper then char_of (of_char c + 32 :: nat) else c)"

text \<open>The UTF-8 encodings of U+0130 and U+212A.\<close>

definition dotted_I :: string where "dotted_I = [CHR 0xC4, CHR 0xB0]"
definition kelvin :: string where "kelvin = [CHR 0xE2, CHR 0x84, CHR 0xAA]"

fun to_lower :: "string \<Rightarrow> string" where
  "to_lower [] = []"
| "to_lower (c # s) =
     (if has_prefix dotted_I (c # s) then CHR ''i'' # to_lower (drop 1 s)
      else if has_prefix kelvin (c # s) then CHR ''k'' # to_lower (drop 2 s)
      else ascii_lower c # to_lower s)"

text \<open>Strings over the characters of a tag, a digest or a hex string are their own lower case.\<close>

definition plain_chars :: string where
  "plain_chars = ''abcdefghijklmnopqrstuvwxyz0123456789-:_''"

lemma plain_space_disjoint: "list_all (\<lambda>c. c \<notin> set space_bytes) plain_chars"
  by code_simp

lemma plain_not_space: "c \<in> set plain_chars \<Longrightarrow> c \<notin> set space_bytes"
  using plain_space_disjoint by (auto simp: list_all_iff)

lemma plain_lower:
  "list_all (\<lambda>c. c \<noteq> hd dotted_I \<and> c \<noteq> hd kelvin \<and> ascii_lower c = c) plain_chars"
  by code_simp

lemma has_prefix_hd: "has_prefix p (c # s) \<Longrightarrow> p \<noteq> [] \<Longrightarrow> hd p = c"
  by (cases p) (auto simp: has_prefix_def)

lemma to_lower_plain: "set s \<subseteq> set plain_chars \<Longrightarrow> to_lower s = s"
proof (induction s)
  case (Cons c s)
  then have "c \<in> set plain_chars" by simp
  with plain_lower have "c \<noteq> hd dotted_I" "c \<noteq> hd kelvin" "ascii_lower c = c"
    by (auto simp: list_all_iff)
  then have "\<not> has_prefix dotted_I (c # s)" "\<not> has_prefix kelvin (c # s)" "ascii_lower c = c"
    by (auto dest!: has_prefix_hd simp: dotted_I_def kelvin_def)
  with Cons show ?case by simp
qed simp

lemma trim_space_plain: "set s \<subseteq> set plain_chars \<Longrightarrow> trim_space s = s"
proof (rule trim_space_id, cases "s = []")
  case False
  moreover assume "set s \<subseteq> set plain_chars"
  ultimately have "hd s \<in> set plain_chars" "last s \<in> set plain_chars" by auto
  then show "s = [] \<or> hd s \<notin> set space_bytes \<and> last s \<notin> set space_bytes"
    by (simp add: plain_not_space)
qed simp

section \<open>Cutting and splitting\<close>

definition cut_prefix :: "string \<Rightarrow> string \<Rightarrow> string option" where
  "cut_prefix p s = (if has_prefix p s then Some (drop (length p) s) else None)"

lemma cut_prefix_eq_Some [simp]: "cut_prefix p s = Some r \<longleftrightarrow> s = p @ r"
  by (auto simp: cut_prefix_def has_prefix_def) (metis append_take_drop_id)+

lemma cut_prefix_eq_None: "cut_prefix p s = None \<longleftrightarrow> (\<forall>r. s \<noteq> p @ r)"
  by (auto simp: cut_prefix_def has_prefix_def) (metis append_take_drop_id)+

text \<open>\<open>strings.Cut(s, sep)\<close>, and the text before and after the last separator.\<close>

definition cut_first :: "char \<Rightarrow> string \<Rightarrow> (string \<times> string) option" where
  "cut_first c s =
     (if c \<in> set s then Some (takeWhile (\<lambda>x. x \<noteq> c) s, tl (dropWhile (\<lambda>x. x \<noteq> c) s))
      else None)"

definition cut_last :: "char \<Rightarrow> string \<Rightarrow> (string \<times> string) option" where
  "cut_last c s =
     (case cut_first c (rev s) of
        None \<Rightarrow> None
      | Some (b, a) \<Rightarrow> Some (rev a, rev b))"

lemma cut_first_eq_Some:
  "cut_first c s = Some (a, b) \<longleftrightarrow> s = a @ c # b \<and> c \<notin> set a"
proof
  assume "cut_first c s = Some (a, b)"
  then have m: "c \<in> set s" and a: "a = takeWhile (\<lambda>x. x \<noteq> c) s"
    and b: "b = tl (dropWhile (\<lambda>x. x \<noteq> c) s)" by (auto simp: cut_first_def split: if_splits)
  from m have ne: "dropWhile (\<lambda>x. x \<noteq> c) s \<noteq> []" by (auto simp: dropWhile_eq_Nil_conv)
  with hd_dropWhile [of "\<lambda>x. x \<noteq> c" s] have "hd (dropWhile (\<lambda>x. x \<noteq> c) s) = c" by simp
  with ne b have "dropWhile (\<lambda>x. x \<noteq> c) s = c # b" by (metis list.collapse)
  with a have "s = a @ c # b" by (metis takeWhile_dropWhile_id)
  moreover from a have "c \<notin> set a" by (auto dest: set_takeWhileD)
  ultimately show "s = a @ c # b \<and> c \<notin> set a" ..
next
  assume s: "s = a @ c # b \<and> c \<notin> set a"
  then have "takeWhile (\<lambda>x. x \<noteq> c) s = a" "dropWhile (\<lambda>x. x \<noteq> c) s = c # b"
    by (auto simp: takeWhile_append dropWhile_append)
  with s show "cut_first c s = Some (a, b)" by (simp add: cut_first_def)
qed

lemma cut_first_eq_None: "cut_first c s = None \<longleftrightarrow> c \<notin> set s"
  by (simp add: cut_first_def)

lemma cut_last_eq_Some:
  "cut_last c s = Some (a, b) \<longleftrightarrow> s = a @ c # b \<and> c \<notin> set b"
proof -
  have "cut_last c s = Some (a, b) \<longleftrightarrow> cut_first c (rev s) = Some (rev b, rev a)"
    by (cases "cut_first c (rev s)") (auto simp: cut_last_def)
  also have "\<dots> \<longleftrightarrow> rev s = rev b @ c # rev a \<and> c \<notin> set b"
    by (simp add: cut_first_eq_Some)
  also have "\<dots> \<longleftrightarrow> s = a @ c # b \<and> c \<notin> set b"
    by (metis append.assoc append_Cons append_Nil rev.simps(2) rev_append rev_rev_ident)
  finally show ?thesis .
qed

lemma cut_last_eq_None: "cut_last c s = None \<longleftrightarrow> c \<notin> set s"
  by (simp add: cut_last_def cut_first_def)

fun split_on :: "char \<Rightarrow> string \<Rightarrow> string list" where
  "split_on c [] = [[]]"
| "split_on c (x # s) =
     (if x = c then [] # split_on c s
      else (case split_on c s of [] \<Rightarrow> [[x]] | w # ws \<Rightarrow> (x # w) # ws))"

lemma split_on_nonempty [simp]: "split_on c s \<noteq> []"
  by (induction s) (auto split: list.splits)

lemma split_on_no_sep: "c \<notin> set s \<Longrightarrow> split_on c s = [s]"
  by (induction s) auto

lemma split_on_append: "c \<notin> set a \<Longrightarrow> split_on c (a @ c # b) = a # split_on c b"
  by (induction a) auto

definition join_lines :: "string list \<Rightarrow> string" where
  "join_lines ls = concat (map (\<lambda>l. l @ [CHR 0x0A]) ls)"

lemma join_lines_simps [simp]:
  "join_lines [] = []"
  "join_lines (l # ls) = l @ CHR 0x0A # join_lines ls"
  "join_lines (ls @ ls') = join_lines ls @ join_lines ls'"
  by (simp_all add: join_lines_def)

lemma split_join_lines:
  "\<forall>l\<in>set ls. CHR 0x0A \<notin> set l \<Longrightarrow> split_on (CHR 0x0A) (join_lines ls @ t) = ls @ split_on (CHR 0x0A) t"
  by (induction ls) (auto simp: split_on_append)

section \<open>Numbers\<close>

fun show_nat :: "nat \<Rightarrow> string" where
  "show_nat n =
     (if n < 10 then [''0123456789'' ! n]
      else show_nat (n div 10) @ [''0123456789'' ! (n mod 10)])"

declare show_nat.simps [simp del]

text \<open>\<open>%d\<close> and \<open>%02d\<close>.\<close>

definition show_int :: "int \<Rightarrow> string" where
  "show_int i = (if i < 0 then CHR ''-'' # show_nat (nat (- i)) else show_nat (nat i))"

definition show_02d :: "nat \<Rightarrow> string" where
  "show_02d n = (if n < 10 then CHR ''0'' # show_nat n else show_nat n)"

definition digit_value :: "char \<Rightarrow> nat" where
  "digit_value c = of_char c - 48"

definition value_of_digits :: "string \<Rightarrow> nat" where
  "value_of_digits s = foldl (\<lambda>a c. 10 * a + digit_value c) 0 s"

lemma digit_nth:
  assumes "n < 10"
  shows "digit_value (''0123456789'' ! n) = n" "''0123456789'' ! n \<in> set ''0123456789''"
proof -
  have "list_all (\<lambda>n. digit_value (''0123456789'' ! n) = n \<and> ''0123456789'' ! n \<in> set ''0123456789'') [0..<10]"
    by code_simp
  with assms show "digit_value (''0123456789'' ! n) = n" "''0123456789'' ! n \<in> set ''0123456789''"
    by (auto simp: list_all_iff)
qed

lemma value_of_show_nat: "value_of_digits (show_nat n) = n"
proof (induction n rule: show_nat.induct)
  case (1 n)
  show ?case
    by (cases "n < 10")
      (simp_all add: show_nat.simps [of n] value_of_digits_def digit_nth(1)
        "1.IH" [unfolded value_of_digits_def])
qed

lemma show_nat_digits: "set (show_nat n) \<subseteq> set ''0123456789''"
proof (induction n rule: show_nat.induct)
  case (1 n)
  show ?case
  proof (cases "n < 10")
    case True
    then show ?thesis using digit_nth(2) [of n] by (simp add: show_nat.simps [of n])
  next
    case False
    then show ?thesis using 1 digit_nth(2) [of "n mod 10"]
      by (simp add: show_nat.simps [of n])
  qed
qed

lemma show_nat_inj [simp]: "show_nat m = show_nat n \<longleftrightarrow> m = n"
  by (metis value_of_show_nat)

lemma show_nat_not_Nil [simp]: "show_nat n \<noteq> []"
  by (subst show_nat.simps) simp

lemma minus_not_digit: "CHR ''-'' \<notin> set (show_nat n)"
  using show_nat_digits [of n] by auto

lemma show_int_inj [simp]: "show_int i = show_int j \<longleftrightarrow> i = j"
proof
  assume eq: "show_int i = show_int j"
  show "i = j"
    using eq minus_not_digit [of "nat i"] minus_not_digit [of "nat j"]
    by (auto simp: show_int_def split: if_splits) (metis list.set_intros(1))+
qed simp

lemma show_02d_inj [simp]: "show_02d m = show_02d n \<longleftrightarrow> m = n"
proof
  assume eq: "show_02d m = show_02d n"
  have v: "value_of_digits (show_02d k) = k" for k
    using value_of_show_nat [of k]
    by (simp add: show_02d_def value_of_digits_def digit_value_def)
  from eq show "m = n" by (metis v)
qed simp

section \<open>Hexadecimal\<close>

definition hex_digits :: string where "hex_digits = ''0123456789abcdef''"

definition hex_char :: "nat \<Rightarrow> char" where "hex_char n = hex_digits ! n"

definition hex_encode :: "bytes \<Rightarrow> string" where
  "hex_encode b = concat (map (\<lambda>x. [hex_char (unat x div 16), hex_char (unat x mod 16)]) b)"

text \<open>The value of a hex digit; \<open>hex.DecodeString\<close> accepts both cases.\<close>

definition hex_value :: "char \<Rightarrow> nat option" where
  "hex_value c = map_of (zip hex_digits [0..<16] @ zip ''ABCDEF'' [10..<16]) c"

fun hex_decode :: "string \<Rightarrow> err + bytes" where
  "hex_decode [] = Inr []"
| "hex_decode [c] = Inl (Errorf ''hex length'')"
| "hex_decode (c # d # s) =
     (case (hex_value c, hex_value d) of
        (Some x, Some y) \<Rightarrow>
          bindr (hex_decode s) (\<lambda>b. Inr (word_of_nat (16 * x + y) # b))
      | _ \<Rightarrow> Inl (Errorf ''hex digit''))"

lemma hex_value_char:
  assumes "n < 16"
  shows "hex_value (hex_char n) = Some n" "hex_char n \<in> set hex_digits"
proof -
  have "list_all (\<lambda>n. hex_value (hex_char n) = Some n \<and> hex_char n \<in> set hex_digits) [0..<16]"
    by code_simp
  with assms show "hex_value (hex_char n) = Some n" "hex_char n \<in> set hex_digits"
    by (auto simp: list_all_iff)
qed

lemma length_hex_encode [simp]: "length (hex_encode b) = 2 * length b"
  by (induction b) (simp_all add: hex_encode_def)

lemma hex_encode_simps [simp]:
  "hex_encode [] = []"
  "hex_encode (x # b) = hex_char (unat x div 16) # hex_char (unat x mod 16) # hex_encode b"
  by (simp_all add: hex_encode_def)

lemma hex_encode_Nil_iff [simp]: "hex_encode b = [] \<longleftrightarrow> b = []"
  by (cases b) simp_all

lemma unat_byte_less: "unat (x :: 8 word) < 256"
  using unsigned_less [of x, where ?'a = nat] by simp

lemma unat_byte_of_nat: "n < 256 \<Longrightarrow> unat (word_of_nat n :: 8 word) = n"
  by (simp add: unat_of_nat)

lemma byte_div_16: "unat (x :: 8 word) div 16 < 16"
  using unat_byte_less [of x] by linarith

lemma hex_encode_digits: "set (hex_encode b) \<subseteq> set hex_digits"
  by (induction b) (auto simp: hex_value_char byte_div_16)

lemma hex_decode_encode [simp]: "hex_decode (hex_encode b) = Inr b"
proof (induction b)
  case (Cons x b)
  have "(word_of_nat (16 * (unat x div 16) + unat x mod 16) :: 8 word) = x"
    by (simp only: mult_div_mod_eq of_nat_unat ucast_id)
  with Cons show ?case by (simp add: hex_value_char byte_div_16)
qed simp

lemma hex_encode_inj [simp]: "hex_encode a = hex_encode b \<longleftrightarrow> a = b"
  by (metis hex_decode_encode sum.inject(2))

text \<open>Every lower-case hex digit is the digit of its value, so a lower-case hex string of even
  length decodes, and to the one byte string it encodes.\<close>

lemma hex_digit_value:
  assumes "c \<in> set hex_digits"
  obtains n where "hex_value c = Some n" "n < 16" "hex_char n = c"
proof -
  have "list_all (\<lambda>c. case hex_value c of None \<Rightarrow> False | Some n \<Rightarrow> n < 16 \<and> hex_char n = c) hex_digits"
    by code_simp
  with assms show ?thesis by (auto simp: list_all_iff split: option.splits intro: that)
qed

lemma hex_decode_lower:
  "set s \<subseteq> set hex_digits \<Longrightarrow> length s = 2 * n \<Longrightarrow> \<exists>b. hex_decode s = Inr b \<and> length b = n \<and> hex_encode b = s"
proof (induction s arbitrary: n rule: hex_decode.induct)
  case (3 c d s)
  obtain x where x: "hex_value c = Some x" "x < 16" "hex_char x = c"
    using 3(2) by (auto elim: hex_digit_value)
  obtain y where y: "hex_value d = Some y" "y < 16" "hex_char y = d"
    using 3(2) by (auto elim: hex_digit_value)
  obtain m where m: "n = Suc m" using 3(3) by (cases n) auto
  obtain b where b: "hex_decode s = Inr b" "length b = m" "hex_encode b = s"
    using 3(1) [OF refl x(1) y(1), of m] 3(2,3) m by auto
  from x(2) y(2) have lt: "16 * x + y < 256" by linarith
  then have "unat (word_of_nat (16 * x + y) :: 8 word) = 16 * x + y"
    by (rule unat_byte_of_nat)
  then show ?case using x y b m by (simp del: of_nat_add of_nat_mult)
qed auto

section \<open>Strings as bytes\<close>

text \<open>The conversions \<open>[]byte(s)\<close> and \<open>string(b)\<close>.\<close>

definition bytes_of_string :: "string \<Rightarrow> bytes" where
  "bytes_of_string s = map (\<lambda>c. word_of_nat (of_char c)) s"

definition string_of_bytes :: "bytes \<Rightarrow> string" where
  "string_of_bytes b = map (\<lambda>x. char_of (unat x)) b"

lemma length_bytes_of_string [simp]: "length (bytes_of_string s) = length s"
  by (simp add: bytes_of_string_def)

lemma string_of_bytes_of_string [simp]: "string_of_bytes (bytes_of_string s) = s"
proof -
  have "char_of (unat (word_of_nat (of_char c) :: 8 word)) = c" for c
    by (simp add: unat_of_nat)
  then show ?thesis by (simp add: string_of_bytes_def bytes_of_string_def o_def)
qed

lemma bytes_of_string_inj [simp]: "bytes_of_string s = bytes_of_string t \<longleftrightarrow> s = t"
  by (metis string_of_bytes_of_string)

lemma bytes_of_string_of_bytes [simp]: "bytes_of_string (string_of_bytes b) = b"
proof -
  have "word_of_nat (of_char (char_of (unat x) :: char)) = x" for x :: byte
    by (simp add: of_char_of unat_byte_less mod_less)
  then show ?thesis by (simp add: bytes_of_string_def string_of_bytes_def o_def map_idI)
qed

lemma string_of_bytes_hd: "b \<noteq> [] \<Longrightarrow> hd (string_of_bytes b) = char_of (unat (hd b))"
  by (simp add: string_of_bytes_def hd_map)

lemma string_of_bytes_last: "b \<noteq> [] \<Longrightarrow> last (string_of_bytes b) = char_of (unat (last b))"
  by (simp add: string_of_bytes_def last_map)

lemma string_of_bytes_Nil [simp]: "string_of_bytes b = [] \<longleftrightarrow> b = []"
  by (simp add: string_of_bytes_def)

end
