(* ===== verification/Sha2.thy ===== *)
theory Sha2
  imports Prelude
begin

unbundle bit_operations_syntax

text \<open>
  SHA-256 and SHA-384 as FIPS 180-4 defines them: the functions behind Go's \<open>crypto/sha256\<close>
  (\<open>Sum256\<close>, \<open>New\<close>) and \<open>crypto/sha512\<close> (\<open>Sum384\<close>, \<open>New384\<close>). A Go \<open>hash.Hash\<close> that is
  written several times and summed once is the hash of the concatenation of the writes.

  The definitions compute, so a digest can be evaluated. The proofs of the development
  never unfold them: they use the width of the digests, and state what rests on collision resistance as an
  explicit collision among the values the code hashes (\<open>collision_in\<close>).
\<close>

section \<open>Padding and words\<close>

definition be_word :: "bytes \<Rightarrow> 'a::len word" where
  "be_word b = foldl (\<lambda>a x. push_bit 8 a OR ucast x) 0 b"

definition word_be :: "nat \<Rightarrow> 'a::len word \<Rightarrow> bytes" where
  "word_be n w = map (\<lambda>i. ucast (drop_bit (8 * (n - 1 - i)) w)) [0..<n]"

lemma length_word_be [simp]: "length (word_be n w) = n"
  by (simp add: word_be_def)

fun chunks :: "nat \<Rightarrow> nat \<Rightarrow> 'a list \<Rightarrow> 'a list list" where
  "chunks 0 n b = []"
| "chunks (Suc k) n b = take n b # chunks k n (drop n b)"

text \<open>Padding to a multiple of \<open>blk\<close> bytes: a one bit, zeros, the bit length in \<open>lw\<close> bytes.\<close>

definition sha_pad :: "nat \<Rightarrow> nat \<Rightarrow> bytes \<Rightarrow> bytes" where
  "sha_pad blk lw m =
     m @ [0x80] @ replicate ((blk - (length m + 1 + lw) mod blk) mod blk) 0 @
     word_be lw (word_of_nat (8 * length m) :: 128 word)"

section \<open>SHA-256\<close>

definition rotr32 :: "nat \<Rightarrow> 32 word \<Rightarrow> 32 word" where
  "rotr32 n x = drop_bit n x OR push_bit (32 - n) x"

definition sha256_k :: "32 word list" where
  "sha256_k =
     [0x428A2F98, 0x71374491, 0xB5C0FBCF, 0xE9B5DBA5, 0x3956C25B, 0x59F111F1,
      0x923F82A4, 0xAB1C5ED5, 0xD807AA98, 0x12835B01, 0x243185BE, 0x550C7DC3,
      0x72BE5D74, 0x80DEB1FE, 0x9BDC06A7, 0xC19BF174, 0xE49B69C1, 0xEFBE4786,
      0x0FC19DC6, 0x240CA1CC, 0x2DE92C6F, 0x4A7484AA, 0x5CB0A9DC, 0x76F988DA,
      0x983E5152, 0xA831C66D, 0xB00327C8, 0xBF597FC7, 0xC6E00BF3, 0xD5A79147,
      0x06CA6351, 0x14292967, 0x27B70A85, 0x2E1B2138, 0x4D2C6DFC, 0x53380D13,
      0x650A7354, 0x766A0ABB, 0x81C2C92E, 0x92722C85, 0xA2BFE8A1, 0xA81A664B,
      0xC24B8B70, 0xC76C51A3, 0xD192E819, 0xD6990624, 0xF40E3585, 0x106AA070,
      0x19A4C116, 0x1E376C08, 0x2748774C, 0x34B0BCB5, 0x391C0CB3, 0x4ED8AA4A,
      0x5B9CCA4F, 0x682E6FF3, 0x748F82EE, 0x78A5636F, 0x84C87814, 0x8CC70208,
      0x90BEFFFA, 0xA4506CEB, 0xBEF9A3F7, 0xC67178F2]"

type_synonym 'w sha_state = "'w \<times> 'w \<times> 'w \<times> 'w \<times> 'w \<times> 'w \<times> 'w \<times> 'w"

definition sha256_init :: "32 word sha_state" where
  "sha256_init =
     (0x6A09E667, 0xBB67AE85, 0x3C6EF372, 0xA54FF53A,
      0x510E527F, 0x9B05688C, 0x1F83D9AB, 0x5BE0CD19)"

text \<open>The message schedule, kept newest word first.\<close>

definition sha256_next :: "32 word list \<Rightarrow> 32 word list" where
  "sha256_next w =
     (let s1 = w ! 1; s0 = w ! 14 in
      ((rotr32 17 s1 XOR rotr32 19 s1 XOR drop_bit 10 s1) + w ! 6 +
       (rotr32 7 s0 XOR rotr32 18 s0 XOR drop_bit 3 s0) + w ! 15) # w)"

definition sha256_schedule :: "bytes \<Rightarrow> 32 word list" where
  "sha256_schedule block = rev ((sha256_next ^^ 48) (rev (map be_word (chunks 16 4 block))))"

fun sha256_round :: "32 word sha_state \<Rightarrow> 32 word \<times> 32 word \<Rightarrow> 32 word sha_state" where
  "sha256_round (a, b, c, d, e, f, g, h) (k, w) =
     (let t1 = h + (rotr32 6 e XOR rotr32 11 e XOR rotr32 25 e) +
               ((e AND f) XOR (NOT e AND g)) + k + w;
          t2 = (rotr32 2 a XOR rotr32 13 a XOR rotr32 22 a) +
               ((a AND b) XOR (a AND c) XOR (b AND c))
      in (t1 + t2, a, b, c, d + t1, e, f, g))"

fun sha_add :: "'w::plus sha_state \<Rightarrow> 'w sha_state \<Rightarrow> 'w sha_state" where
  "sha_add (a, b, c, d, e, f, g, h) (a', b', c', d', e', f', g', h') =
     (a + a', b + b', c + c', d + d', e + e', f + f', g + g', h + h')"

definition sha256_block :: "32 word sha_state \<Rightarrow> bytes \<Rightarrow> 32 word sha_state" where
  "sha256_block st block =
     sha_add st (foldl sha256_round st (zip sha256_k (sha256_schedule block)))"

definition sha256 :: "bytes \<Rightarrow> bytes" where
  "sha256 m =
     (let p = sha_pad 64 8 m in
      case foldl sha256_block sha256_init (chunks (length p div 64) 64 p) of
        (a, b, c, d, e, f, g, h) \<Rightarrow> concat (map (word_be 4) [a, b, c, d, e, f, g, h]))"

lemma length_sha256 [simp]: "length (sha256 m) = 32"
  by (simp add: sha256_def Let_def split: prod.splits)

section \<open>SHA-384\<close>

definition rotr64 :: "nat \<Rightarrow> 64 word \<Rightarrow> 64 word" where
  "rotr64 n x = drop_bit n x OR push_bit (64 - n) x"

definition sha512_k :: "64 word list" where
  "sha512_k =
     [0x428A2F98D728AE22, 0x7137449123EF65CD, 0xB5C0FBCFEC4D3B2F, 0xE9B5DBA58189DBBC,
      0x3956C25BF348B538, 0x59F111F1B605D019, 0x923F82A4AF194F9B, 0xAB1C5ED5DA6D8118,
      0xD807AA98A3030242, 0x12835B0145706FBE, 0x243185BE4EE4B28C, 0x550C7DC3D5FFB4E2,
      0x72BE5D74F27B896F, 0x80DEB1FE3B1696B1, 0x9BDC06A725C71235, 0xC19BF174CF692694,
      0xE49B69C19EF14AD2, 0xEFBE4786384F25E3, 0x0FC19DC68B8CD5B5, 0x240CA1CC77AC9C65,
      0x2DE92C6F592B0275, 0x4A7484AA6EA6E483, 0x5CB0A9DCBD41FBD4, 0x76F988DA831153B5,
      0x983E5152EE66DFAB, 0xA831C66D2DB43210, 0xB00327C898FB213F, 0xBF597FC7BEEF0EE4,
      0xC6E00BF33DA88FC2, 0xD5A79147930AA725, 0x06CA6351E003826F, 0x142929670A0E6E70,
      0x27B70A8546D22FFC, 0x2E1B21385C26C926, 0x4D2C6DFC5AC42AED, 0x53380D139D95B3DF,
      0x650A73548BAF63DE, 0x766A0ABB3C77B2A8, 0x81C2C92E47EDAEE6, 0x92722C851482353B,
      0xA2BFE8A14CF10364, 0xA81A664BBC423001, 0xC24B8B70D0F89791, 0xC76C51A30654BE30,
      0xD192E819D6EF5218, 0xD69906245565A910, 0xF40E35855771202A, 0x106AA07032BBD1B8,
      0x19A4C116B8D2D0C8, 0x1E376C085141AB53, 0x2748774CDF8EEB99, 0x34B0BCB5E19B48A8,
      0x391C0CB3C5C95A63, 0x4ED8AA4AE3418ACB, 0x5B9CCA4F7763E373, 0x682E6FF3D6B2B8A3,
      0x748F82EE5DEFB2FC, 0x78A5636F43172F60, 0x84C87814A1F0AB72, 0x8CC702081A6439EC,
      0x90BEFFFA23631E28, 0xA4506CEBDE82BDE9, 0xBEF9A3F7B2C67915, 0xC67178F2E372532B,
      0xCA273ECEEA26619C, 0xD186B8C721C0C207, 0xEADA7DD6CDE0EB1E, 0xF57D4F7FEE6ED178,
      0x06F067AA72176FBA, 0x0A637DC5A2C898A6, 0x113F9804BEF90DAE, 0x1B710B35131C471B,
      0x28DB77F523047D84, 0x32CAAB7B40C72493, 0x3C9EBE0A15C9BEBC, 0x431D67C49C100D4C,
      0x4CC5D4BECB3E42B6, 0x597F299CFC657E2A, 0x5FCB6FAB3AD6FAEC, 0x6C44198C4A475817]"

definition sha384_init :: "64 word sha_state" where
  "sha384_init =
     (0xCBBB9D5DC1059ED8, 0x629A292A367CD507, 0x9159015A3070DD17, 0x152FECD8F70E5939,
      0x67332667FFC00B31, 0x8EB44A8768581511, 0xDB0C2E0D64F98FA7, 0x47B5481DBEFA4FA4)"

definition sha512_next :: "64 word list \<Rightarrow> 64 word list" where
  "sha512_next w =
     (let s1 = w ! 1; s0 = w ! 14 in
      ((rotr64 19 s1 XOR rotr64 61 s1 XOR drop_bit 6 s1) + w ! 6 +
       (rotr64 1 s0 XOR rotr64 8 s0 XOR drop_bit 7 s0) + w ! 15) # w)"

definition sha512_schedule :: "bytes \<Rightarrow> 64 word list" where
  "sha512_schedule block = rev ((sha512_next ^^ 64) (rev (map be_word (chunks 16 8 block))))"

fun sha512_round :: "64 word sha_state \<Rightarrow> 64 word \<times> 64 word \<Rightarrow> 64 word sha_state" where
  "sha512_round (a, b, c, d, e, f, g, h) (k, w) =
     (let t1 = h + (rotr64 14 e XOR rotr64 18 e XOR rotr64 41 e) +
               ((e AND f) XOR (NOT e AND g)) + k + w;
          t2 = (rotr64 28 a XOR rotr64 34 a XOR rotr64 39 a) +
               ((a AND b) XOR (a AND c) XOR (b AND c))
      in (t1 + t2, a, b, c, d + t1, e, f, g))"

definition sha512_block :: "64 word sha_state \<Rightarrow> bytes \<Rightarrow> 64 word sha_state" where
  "sha512_block st block =
     sha_add st (foldl sha512_round st (zip sha512_k (sha512_schedule block)))"

definition sha384 :: "bytes \<Rightarrow> bytes" where
  "sha384 m =
     (let p = sha_pad 128 16 m in
      case foldl sha512_block sha384_init (chunks (length p div 128) 128 p) of
        (a, b, c, d, e, f, g, h) \<Rightarrow> concat (map (word_be 8) [a, b, c, d, e, f]))"

lemma length_sha384 [simp]: "length (sha384 m) = 48"
  by (simp add: sha384_def Let_def split: prod.splits)

section \<open>Explicit collisions\<close>

text \<open>
  Two different byte strings of the set \<open>S\<close> with one digest. \<open>S\<close> is always a finite, explicit
  set of strings the code hashes, so the statement ``\<open>P\<close> or a collision in \<open>S\<close>'' is
  a reduction: whoever makes \<open>P\<close> fail holds a collision.
\<close>

definition collision_in :: "(bytes \<Rightarrow> bytes) \<Rightarrow> bytes list \<Rightarrow> bool" where
  "collision_in h S \<longleftrightarrow> (\<exists>x\<in>set S. \<exists>y\<in>set S. x \<noteq> y \<and> h x = h y)"

lemma collision_inI: "x \<in> set S \<Longrightarrow> y \<in> set S \<Longrightarrow> x \<noteq> y \<Longrightarrow> h x = h y \<Longrightarrow> collision_in h S"
  by (auto simp: collision_in_def)

lemma collision_in_mono: "collision_in h S \<Longrightarrow> set S \<subseteq> set T \<Longrightarrow> collision_in h T"
  by (auto simp: collision_in_def)

lemma no_collisionD: "\<not> collision_in h S \<Longrightarrow> x \<in> set S \<Longrightarrow> y \<in> set S \<Longrightarrow> h x = h y \<Longrightarrow> x = y"
  by (auto simp: collision_in_def)

end
