(* ===== verification/TeeTypes.thy ===== *)
theory TeeTypes
  imports GoStrings
begin

text \<open>
  The package \<open>attestation/teetypes\<close>: platform tags and hardware families (\<open>platform.go\<close>),
  the digest parser (\<open>digest.go\<close>), and the evidence, parameter, claim and result types with
  their accessors (\<open>teetypes.go\<close>).

  A platform tag is an attester-supplied string and stays a string. A family is one of the
  package's three constants. The untyped values of \<open>map[string]any\<close> are the datatype \<open>any\<close>;
  a pointer to a value is an \<open>option\<close>, as is a byte slice whose being nil the code tests.
\<close>

section \<open>Platforms and families\<close>

abbreviation PlatformSNP :: string where "PlatformSNP \<equiv> ''snp''"
abbreviation PlatformTDX :: string where "PlatformTDX \<equiv> ''tdx''"
abbreviation PlatformAzSNP :: string where "PlatformAzSNP \<equiv> ''az-snp''"
abbreviation PlatformAzTDX :: string where "PlatformAzTDX \<equiv> ''az-tdx''"
abbreviation PlatformGcpSNP :: string where "PlatformGcpSNP \<equiv> ''gcp-snp''"
abbreviation PlatformGcpTDX :: string where "PlatformGcpTDX \<equiv> ''gcp-tdx''"
abbreviation PlatformDstack :: string where "PlatformDstack \<equiv> ''dstack''"

datatype family = FamilyUnknown | FamilySNP | FamilyTDX

fun family_name :: "family \<Rightarrow> string" where
  "family_name FamilyUnknown = []"
| "family_name FamilySNP = ''sev-snp''"
| "family_name FamilyTDX = ''tdx''"

definition family_String :: "family \<Rightarrow> string" where
  "family_String f = (if f = FamilyUnknown then ''unknown'' else family_name f)"

fun DefaultPlatform :: "family \<Rightarrow> string" where
  "DefaultPlatform FamilySNP = PlatformSNP"
| "DefaultPlatform FamilyTDX = PlatformTDX"
| "DefaultPlatform FamilyUnknown = []"

definition NormalizePlatform :: "string \<Rightarrow> string" where
  "NormalizePlatform p = to_lower (trim_space p)"

definition Family :: "string \<Rightarrow> family" where
  "Family p =
     (let n = NormalizePlatform p in
      if n = PlatformSNP \<or> n = PlatformAzSNP \<or> n = PlatformGcpSNP then FamilySNP
      else if n = PlatformTDX \<or> n = PlatformAzTDX \<or> n = PlatformGcpTDX then FamilyTDX
      else FamilyUnknown)"

definition IsTDX :: "string \<Rightarrow> bool" where
  "IsTDX p \<longleftrightarrow> Family p = FamilyTDX"

definition IsSNP :: "string \<Rightarrow> bool" where
  "IsSNP p \<longleftrightarrow> Family p = FamilySNP"

definition HasVTPMQuote :: "string \<Rightarrow> bool" where
  "HasVTPMQuote p \<longleftrightarrow>
     NormalizePlatform p = PlatformAzSNP \<or> NormalizePlatform p = PlatformAzTDX"

definition HasRegisters :: "string \<Rightarrow> bool" where
  "HasRegisters p \<longleftrightarrow> Family p = FamilyTDX"

definition familySpellings :: "string list" where
  "familySpellings =
     [family_name FamilySNP, PlatformSNP, PlatformAzSNP, PlatformGcpSNP,
      family_name FamilyTDX, PlatformAzTDX, PlatformGcpTDX]"

definition ParseFamily :: "string \<Rightarrow> err + family" where
  "ParseFamily s =
     (let p = NormalizePlatform s in
      if p = family_name FamilySNP then Inr FamilySNP
      else if Family p \<noteq> FamilyUnknown then Inr (Family p)
      else Inl (Errorf ''unknown TEE platform or family''))"

lemma NormalizePlatform_plain: "set p \<subseteq> set plain_chars \<Longrightarrow> NormalizePlatform p = p"
  by (simp add: NormalizePlatform_def trim_space_plain to_lower_plain)

lemma NormalizePlatform_tags [simp]:
  "NormalizePlatform PlatformSNP = PlatformSNP"
  "NormalizePlatform PlatformTDX = PlatformTDX"
  "NormalizePlatform PlatformAzSNP = PlatformAzSNP"
  "NormalizePlatform PlatformAzTDX = PlatformAzTDX"
  "NormalizePlatform PlatformGcpSNP = PlatformGcpSNP"
  "NormalizePlatform PlatformGcpTDX = PlatformGcpTDX"
  "NormalizePlatform PlatformDstack = PlatformDstack"
  "NormalizePlatform ''sev-snp'' = ''sev-snp''"
  "NormalizePlatform [] = []"
  by (rule NormalizePlatform_plain, simp add: plain_chars_def)+

lemma Family_tags [simp]:
  "Family PlatformSNP = FamilySNP" "Family PlatformAzSNP = FamilySNP"
  "Family PlatformGcpSNP = FamilySNP" "Family PlatformTDX = FamilyTDX"
  "Family PlatformAzTDX = FamilyTDX" "Family PlatformGcpTDX = FamilyTDX"
  "Family PlatformDstack = FamilyUnknown" "Family ''sev-snp'' = FamilyUnknown"
  "Family [] = FamilyUnknown"
  by (simp_all add: Family_def)

lemma Family_SNP_iff:
  "Family p = FamilySNP \<longleftrightarrow> NormalizePlatform p \<in> {PlatformSNP, PlatformAzSNP, PlatformGcpSNP}"
  by (auto simp: Family_def Let_def)

lemma Family_TDX_iff:
  "Family p = FamilyTDX \<longleftrightarrow> NormalizePlatform p \<in> {PlatformTDX, PlatformAzTDX, PlatformGcpTDX}"
  by (auto simp: Family_def Let_def)

lemma Family_normalized: "Family p \<noteq> FamilyUnknown \<Longrightarrow> Family (NormalizePlatform p) = Family p"
  by (auto simp: Family_def Let_def split: if_splits)

lemma Normalize_known: "Family p \<noteq> FamilyUnknown \<Longrightarrow> NormalizePlatform (NormalizePlatform p) = NormalizePlatform p"
  by (auto simp: Family_def Let_def split: if_splits)

lemma HasVTPMQuote_Family: "HasVTPMQuote p \<Longrightarrow> Family p \<noteq> FamilyUnknown"
  by (auto simp: HasVTPMQuote_def Family_def)

section \<open>Digests\<close>

definition ParseDigest :: "string \<Rightarrow> int \<Rightarrow> err + bytes" where
  "ParseDigest s width =
     (if width \<le> 0 then Inl (Errorf ''digest width is not positive'')
      else if int (length s) \<noteq> 2 * width then Inl (Errorf ''digest length'')
      else if \<not> list_all (\<lambda>c. c \<in> set hex_digits) s then Inl (Errorf ''digest is not lowercase hex'')
      else hex_decode s)"

text \<open>The parser is the inverse of lower-case hex encoding and accepts nothing else.\<close>

lemma ParseDigest_Inr:
  "ParseDigest s w = Inr b \<longleftrightarrow> 0 < w \<and> int (length b) = w \<and> s = hex_encode b"
proof
  assume p: "ParseDigest s w = Inr b"
  then have w: "0 < w" and l: "int (length s) = 2 * w" and h: "set s \<subseteq> set hex_digits"
    and d: "hex_decode s = Inr b"
    by (auto simp: ParseDigest_def list_all_iff split: if_splits)
  from l w have "length s = 2 * nat w" by linarith
  from hex_decode_lower [OF h this] d w show "0 < w \<and> int (length b) = w \<and> s = hex_encode b"
    by auto
next
  assume "0 < w \<and> int (length b) = w \<and> s = hex_encode b"
  then show "ParseDigest s w = Inr b"
    using hex_encode_digits [of b] by (auto simp: ParseDigest_def list_all_iff)
qed

lemma ParseDigest_48 [simp]: "ParseDigest s 48 = Inr b \<longleftrightarrow> length b = 48 \<and> s = hex_encode b"
  by (auto simp: ParseDigest_Inr)

lemma ParseDigest_32 [simp]: "ParseDigest s 32 = Inr b \<longleftrightarrow> length b = 32 \<and> s = hex_encode b"
  by (auto simp: ParseDigest_Inr)

lemma ParseDigest_no_panic [simp]: "\<not> panics_result (ParseDigest s w)"
proof (cases "ParseDigest s w")
  case (Inl e)
  have "hex_decode s = Inl e \<Longrightarrow> \<not> panics e" for s e
    by (induction s arbitrary: e rule: hex_decode.induct)
      (auto simp: bindr_eq_Inl split: option.splits)
  with Inl show ?thesis by (auto simp: ParseDigest_def split: if_splits)
qed simp

lemma hex_encode_plain: "set (hex_encode b) \<subseteq> set plain_chars"
proof -
  have "list_all (\<lambda>c. c \<in> set plain_chars) hex_digits" by code_simp
  then show ?thesis using hex_encode_digits [of b] by (auto simp: list_all_iff)
qed

section \<open>Claims\<close>

datatype any =
    AStr string
  | ABool bool
  | ANum int
  | AMap "(string \<times> any) list"

record tcb_info =
  TcbType :: string
  TcbBootloader :: "byte option"
  TcbTee :: "byte option"
  TcbSnp :: "byte option"
  TcbMicrocode :: "byte option"
  TcbFMC :: "byte option"
  TCBSvn :: bytes

record snp_tcb =
  Bootloader :: byte
  Tee :: byte
  Snp :: byte
  Microcode :: byte
  FMC :: "byte option"

record claims =
  LaunchDigest :: string
  ReportData :: bytes
  SignedData :: bytes
  InitData :: bytes
  TCB :: tcb_info
  PlatformData :: "(string \<times> any) list"

text \<open>A register pin map \<open>map[int][]byte\<close>.\<close>

type_synonym pins = "(int \<times> bytes) list"

definition RTMR :: "claims \<Rightarrow> int \<Rightarrow> err + bytes" where
  "RTMR c i =
     (if i < 0 \<or> 3 < i then Inl (Errorf ''RTMR index out of range'')
      else case map_of (PlatformData c) (''rtmr_'' @ show_int i) of
          Some (AStr v) \<Rightarrow>
            (if v = [] then Inl (Errorf ''claims carry no rtmr'')
             else wrap_err (Errorf ''rtmr'') (ParseDigest v 48))
        | _ \<Rightarrow> Inl (Errorf ''claims carry no rtmr''))"

definition LaunchMeasurement :: "claims \<Rightarrow> err + bytes" where
  "LaunchMeasurement c =
     wrap_err (Errorf ''launch digest'') (ParseDigest (to_lower (trim_space (LaunchDigest c))) 48)"

definition CheckRTMRs :: "claims \<Rightarrow> pins \<Rightarrow> err + unit" where
  "CheckRTMRs c pinned =
     for_each
       (\<lambda>idx. bindr (RTMR c idx) (\<lambda>got.
          if Some got \<noteq> map_of pinned idx then Inl (Errorf ''RTMR does not match'') else Inr ()))
       (sorted_keys pinned)"

abbreviation PCRCount :: int where "PCRCount \<equiv> 24"

definition PCR :: "claims \<Rightarrow> int \<Rightarrow> err + bytes" where
  "PCR c i =
     (if i < 0 \<or> PCRCount \<le> i then Inl (Errorf ''PCR index out of range'')
      else case map_of (PlatformData c) ''tpm'' of
          Some (AMap tpm) \<Rightarrow>
            (case map_of tpm (''pcr'' @ show_02d (nat i)) of
               Some (AStr v) \<Rightarrow>
                 (if v = [] then Inl (Errorf ''claims carry no pcr'')
                  else wrap_err (Errorf ''pcr'') (ParseDigest v 32))
             | _ \<Rightarrow> Inl (Errorf ''claims carry no pcr''))
        | _ \<Rightarrow> Inl (Errorf ''claims carry no vTPM data''))"

text \<open>The lookup of a boolean one map down.\<close>

definition nested_bool :: "claims \<Rightarrow> string \<Rightarrow> string \<Rightarrow> bool option" where
  "nested_bool c k1 k2 =
     (case map_of (PlatformData c) k1 of
        Some (AMap m) \<Rightarrow> (case map_of m k2 of Some (ABool v) \<Rightarrow> Some v | _ \<Rightarrow> None)
      | _ \<Rightarrow> None)"

definition DebugEnabled :: "claims \<Rightarrow> err + bool" where
  "DebugEnabled c =
     (case nested_bool c ''policy'' ''debug_allowed'' of
        Some v \<Rightarrow> Inr v
      | None \<Rightarrow>
          (case nested_bool c ''td_attributes_parsed'' ''debug'' of
             Some v \<Rightarrow> Inr v
           | None \<Rightarrow> Inl (Errorf ''claims carry no debug flag'')))"

definition SMTEnabled :: "claims \<Rightarrow> err + bool" where
  "SMTEnabled c =
     (case nested_bool c ''platform_info'' ''smt_enabled'' of
        Some v \<Rightarrow> Inr v
      | None \<Rightarrow> Inl (Errorf ''claims carry no platform_info.smt_enabled''))"

lemma RTMR_Inr:
  "RTMR c i = Inr b \<longleftrightarrow>
     0 \<le> i \<and> i \<le> 3 \<and> length b = 48 \<and>
     map_of (PlatformData c) (''rtmr_'' @ show_int i) = Some (AStr (hex_encode b))"
  by (auto simp: RTMR_def split: option.splits any.splits)

lemma LaunchMeasurement_Inr:
  "LaunchMeasurement c = Inr b \<longleftrightarrow>
     length b = 48 \<and> to_lower (trim_space (LaunchDigest c)) = hex_encode b"
  by (simp add: LaunchMeasurement_def)

lemma LaunchMeasurement_length: "LaunchMeasurement c = Inr b \<Longrightarrow> length b = 48"
  by (simp add: LaunchMeasurement_Inr)

lemma LaunchMeasurement_hex [simp]:
  "length b = 48 \<Longrightarrow> LaunchDigest c = hex_encode b \<Longrightarrow> LaunchMeasurement c = Inr b"
  by (simp add: LaunchMeasurement_Inr trim_space_plain to_lower_plain hex_encode_plain)

lemma PCR_Inr:
  "PCR c i = Inr b \<longleftrightarrow>
     0 \<le> i \<and> i < PCRCount \<and> length b = 32 \<and>
     (\<exists>tpm. map_of (PlatformData c) ''tpm'' = Some (AMap tpm) \<and>
            map_of tpm (''pcr'' @ show_02d (nat i)) = Some (AStr (hex_encode b)))"
  by (auto simp: PCR_def split: option.splits any.splits)

text \<open>Checking pins is agreement with the claims on every pinned register.\<close>

definition pins_hold :: "claims \<Rightarrow> pins \<Rightarrow> bool" where
  "pins_hold c pinned \<longleftrightarrow> (\<forall>i b. map_of pinned i = Some b \<longrightarrow> RTMR c i = Inr b)"

lemma pins_hold_Nil [simp]: "pins_hold c []"
  by (simp add: pins_hold_def)

lemma CheckRTMRs_Inr [simp]: "CheckRTMRs c pinned = Inr u \<longleftrightarrow> pins_hold c pinned"
proof -
  have "CheckRTMRs c pinned = Inr u \<longleftrightarrow>
      (\<forall>i\<in>set (sorted_keys pinned). \<exists>got. RTMR c i = Inr got \<and> map_of pinned i = Some got)"
    by (auto simp: CheckRTMRs_def simp del: set_sorted_keys)
  also have "\<dots> \<longleftrightarrow> (\<forall>i v. map_of pinned i = Some v \<longrightarrow> RTMR c i = Inr v)"
    by (metis map_of_sorted_keys option.inject)
  finally show ?thesis by (simp add: pins_hold_def)
qed

section \<open>Evidence, parameters and results\<close>

abbreviation MaxEvidenceFieldSize :: nat where "MaxEvidenceFieldSize \<equiv> 1048576"

definition CheckFieldSize :: "nat \<Rightarrow> err + unit" where
  "CheckFieldSize n =
     (if MaxEvidenceFieldSize < n then Inl (Errorf ''evidence field too large'') else Inr ())"

lemma CheckFieldSize_Inr [simp]: "CheckFieldSize n = Inr u \<longleftrightarrow> n \<le> MaxEvidenceFieldSize"
  by (auto simp: CheckFieldSize_def)

record verify_params =
  ExpectedReportData :: "bytes option"
  ExpectedInitDataHash :: "bytes option"
  AllowDebug :: bool
  MinTCB :: "snp_tcb option"
  ExpectedLaunchDigest :: "bytes option"
  ExpectedRTMRs :: "bytes option list option"

record dcap_status =
  TCBStatus :: string
  FMSPC :: string
  AdvisoryIDs :: "string list"
  CollateralExpired :: bool

record verification_result =
  SignatureValid :: bool
  ResPlatform :: string
  Claims :: claims
  ReportDataMatch :: "bool option"
  InitDataMatch :: "bool option"
  LaunchDigestMatch :: "bool option"
  MRTDMatch :: "bool option"
  RTMR0Match :: "bool option"
  RTMR1Match :: "bool option"
  RTMR2Match :: "bool option"
  RTMR3Match :: "bool option"
  CollateralVerified :: bool
  EventlogVerified :: "bool option"
  RTMR3ReplayMatch :: "bool option"
  ResTCBStatus :: "dcap_status option"

text \<open>\<open>(*VerificationResult).Check\<close>: the receiver is a pointer, \<open>None\<close> is nil.\<close>

definition Check :: "verification_result option \<Rightarrow> err + unit" where
  "Check r =
     (case r of
        None \<Rightarrow> Inl (Errorf ''no verification result'')
      | Some v \<Rightarrow>
          (if \<not> SignatureValid v then Inl (Errorf ''result does not carry a valid signature'')
           else Inr ()))"

lemma Check_Inr [simp]: "Check r = Inr u \<longleftrightarrow> (\<exists>v. r = Some v \<and> SignatureValid v)"
  by (auto simp: Check_def split: option.splits)

text \<open>The zero values of the structs: what Go's composite literals leave unset.\<close>

definition zero_tcb :: tcb_info where
  "zero_tcb = \<lparr>TcbType = [], TcbBootloader = None, TcbTee = None, TcbSnp = None, TcbMicrocode = None,
     TcbFMC = None, TCBSvn = []\<rparr>"

definition zero_claims :: claims where
  "zero_claims = \<lparr>LaunchDigest = [], ReportData = [], SignedData = [], InitData = [], TCB = zero_tcb,
     PlatformData = []\<rparr>"

definition zero_result :: verification_result where
  "zero_result = \<lparr>SignatureValid = False, ResPlatform = [], Claims = zero_claims, ReportDataMatch = None,
     InitDataMatch = None, LaunchDigestMatch = None, MRTDMatch = None, RTMR0Match = None,
     RTMR1Match = None, RTMR2Match = None, RTMR3Match = None, CollateralVerified = False,
     EventlogVerified = None, RTMR3ReplayMatch = None, ResTCBStatus = None\<rparr>"

lemma zero_claims_sel [simp]:
  "LaunchDigest zero_claims = []" "ReportData zero_claims = []" "SignedData zero_claims = []"
  "InitData zero_claims = []" "TCB zero_claims = zero_tcb" "PlatformData zero_claims = []"
  by (simp_all add: zero_claims_def)

lemma zero_result_sel [simp]:
  "\<not> SignatureValid zero_result" "ResPlatform zero_result = []" "Claims zero_result = zero_claims"
  "ReportDataMatch zero_result = None" "InitDataMatch zero_result = None"
  "LaunchDigestMatch zero_result = None" "MRTDMatch zero_result = None" "RTMR0Match zero_result = None"
  "RTMR1Match zero_result = None" "RTMR2Match zero_result = None" "RTMR3Match zero_result = None"
  "\<not> CollateralVerified zero_result" "EventlogVerified zero_result = None"
  "RTMR3ReplayMatch zero_result = None" "ResTCBStatus zero_result = None"
  by (simp_all add: zero_result_def)

end
