(* ===== verification/Measure.thy ===== *)
theory Measure
  imports TeeTypes Sha2
begin

text \<open>
  The package \<open>runtimemeasure\<close>: measurement conventions (\<open>runtimemeasure.go\<close>), the local
  register (\<open>register.go\<close>) and launch file digests (\<open>launchfile.go\<close>).

  The Go interface \<open>Register\<close> is the record \<open>register_ops\<close> of its two methods over a device
  state. What its clients rely on is the locale \<open>register\<close>; the TDX device model at the end
  interprets it.
\<close>

section \<open>Events and register values\<close>

abbreviation Size :: nat where "Size \<equiv> 48"
abbreviation HostDataSize :: nat where "HostDataSize \<equiv> 32"

definition Zero :: bytes where
  "Zero = replicate 48 0"

definition Event :: "string \<Rightarrow> bytes" where
  "Event canonicalDigest = sha384 (bytes_of_string canonicalDigest)"

definition Extend :: "bytes \<Rightarrow> bytes \<Rightarrow> bytes" where
  "Extend reg event = sha384 (reg @ event)"

definition FromDigestsSeeded :: "bytes \<Rightarrow> string list \<Rightarrow> bytes" where
  "FromDigestsSeeded seed canonicalDigests =
     foldl (\<lambda>reg d. Extend reg (Event d)) seed canonicalDigests"

definition FromDigests :: "string list \<Rightarrow> bytes" where
  "FromDigests canonicalDigests = FromDigestsSeeded Zero canonicalDigests"

definition Seed :: "bytes \<Rightarrow> bytes" where
  "Seed anchor = Extend Zero (sha384 anchor)"

definition HostData :: "bytes \<Rightarrow> bytes" where
  "HostData anchor = sha256 anchor"

lemma length_Zero [simp]: "length Zero = 48" by (simp add: Zero_def)
lemma length_Event [simp]: "length (Event d) = 48" by (simp add: Event_def)
lemma length_Extend [simp]: "length (Extend r e) = 48" by (simp add: Extend_def)
lemma length_Seed [simp]: "length (Seed a) = 48" by (simp add: Seed_def)

lemma FromDigestsSeeded_simps [simp]:
  "FromDigestsSeeded seed [] = seed"
  "FromDigestsSeeded seed (d # ds) = FromDigestsSeeded (Extend seed (Event d)) ds"
  "FromDigestsSeeded seed (ds @ es) = FromDigestsSeeded (FromDigestsSeeded seed ds) es"
  by (simp_all add: FromDigestsSeeded_def)

lemma length_FromDigestsSeeded: "length seed = 48 \<Longrightarrow> length (FromDigestsSeeded seed ds) = 48"
  by (induction ds arbitrary: seed) simp_all

section \<open>What a replay hashes\<close>

text \<open>
  Every string that folding a list of digests into a register hashes: the digest strings and the
  register extensions. A fold determines its list unless these strings collide or one of them is
  a preimage of the seed (\<open>fold_break\<close>).
\<close>

fun replay_inputs :: "bytes \<Rightarrow> string list \<Rightarrow> bytes list" where
  "replay_inputs reg [] = []"
| "replay_inputs reg (d # ds) =
     bytes_of_string d # (reg @ Event d) # replay_inputs (Extend reg (Event d)) ds"

definition fold_break :: "bytes \<Rightarrow> bytes list \<Rightarrow> bool" where
  "fold_break seed S \<longleftrightarrow> collision_in sha384 S \<or> (\<exists>x\<in>set S. sha384 x = seed)"

lemma fold_break_mono: "fold_break seed S \<Longrightarrow> set S \<subseteq> set T \<Longrightarrow> fold_break seed T"
  by (auto simp: fold_break_def intro: collision_in_mono)

lemma replay_inputs_append:
  "replay_inputs reg (ds @ es) = replay_inputs reg ds @ replay_inputs (FromDigestsSeeded reg ds) es"
  by (induction ds arbitrary: reg) simp_all

lemma set_replay_snoc:
  "set (replay_inputs reg (ds @ [d])) =
     {bytes_of_string d, FromDigestsSeeded reg ds @ Event d} \<union> set (replay_inputs reg ds)"
  by (auto simp: replay_inputs_append)

lemma set_replay_butlast: "set (replay_inputs reg (butlast ds)) \<subseteq> set (replay_inputs reg ds)"
  by (cases ds rule: rev_cases) (auto simp: set_replay_snoc)

lemma fold_not_seed:
  assumes "\<not> fold_break seed S" and "set (replay_inputs seed (ds @ [d])) \<subseteq> set S"
  shows "FromDigestsSeeded seed (ds @ [d]) \<noteq> seed"
  using assms by (auto simp: fold_break_def set_replay_snoc Extend_def)

lemma fold_inj:
  assumes nb: "\<not> fold_break seed S"
    and "set (replay_inputs seed ds) \<subseteq> set S" "set (replay_inputs seed es) \<subseteq> set S"
    and "FromDigestsSeeded seed ds = FromDigestsSeeded seed es"
  shows "ds = es"
  using assms(2,3,4)
proof (induction ds arbitrary: es rule: rev_induct)
  case Nil
  with fold_not_seed [OF nb] show ?case by (cases es rule: rev_cases) fastforce+
next
  case (snoc d ds)
  show ?case
  proof (cases es rule: rev_cases)
    case Nil
    with fold_not_seed [OF nb snoc.prems(1)] snoc.prems(3) show ?thesis by simp
  next
    case es: (snoc es' e)
    let ?r = "FromDigestsSeeded seed ds" and ?r' = "FromDigestsSeeded seed es'"
    from snoc.prems es have S: "?r @ Event d \<in> set S" "?r' @ Event e \<in> set S"
      "bytes_of_string d \<in> set S" "bytes_of_string e \<in> set S"
      and h: "sha384 (?r @ Event d) = sha384 (?r' @ Event e)"
      by (auto simp: set_replay_snoc Extend_def)
    have inj: "x = y" if "x \<in> set S" "y \<in> set S" "sha384 x = sha384 y" for x y
      using nb that by (auto simp: fold_break_def dest: no_collisionD)
    from inj [OF S(1,2) h] have "?r = ?r'" "Event d = Event e" by auto
    moreover from this(2) inj [OF S(3,4)] have "d = e" by (simp add: Event_def)
    moreover have "ds = es'"
      using snoc.prems es \<open>?r = ?r'\<close> by (intro snoc.IH) (auto simp: set_replay_snoc)
    ultimately show ?thesis using es by simp
  qed
qed

section \<open>Canonical digests\<close>

text \<open>The part of \<open>CanonicalDigest\<close> after the image name has been cut off.\<close>

definition canonicalize :: "string \<Rightarrow> err + string" where
  "canonicalize digest =
     (case cut_prefix ''sha256:'' digest of
        None \<Rightarrow> Inl (Errorf ''not digest-pinned'')
      | Some hexPart \<Rightarrow>
          (if length hexPart \<noteq> 64 then Inl (Errorf ''digest length'')
           else if \<not> list_all (\<lambda>c. c \<in> set hex_digits) hexPart
           then Inl (Errorf ''digest is not lowercase hex'')
           else Inr (''sha256:'' @ hexPart)))"

definition CanonicalDigest :: "string \<Rightarrow> err + string" where
  "CanonicalDigest ref =
     (case cut_last CHR ''@'' ref of
        None \<Rightarrow> canonicalize ref
      | Some (name, digest) \<Rightarrow>
          (if name = [] then Inl (Errorf ''image ref has an empty name'')
           else canonicalize digest))"

text \<open>The strings \<open>Event\<close> is meant for.\<close>

definition canonical :: "string \<Rightarrow> bool" where
  "canonical d \<longleftrightarrow> length d = 71 \<and> take 7 d = ''sha256:'' \<and> set (drop 7 d) \<subseteq> set hex_digits"

lemma canonical_split:
  "canonical d \<longleftrightarrow> (\<exists>h. d = ''sha256:'' @ h \<and> length h = 64 \<and> set h \<subseteq> set hex_digits)"
proof
  assume c: "canonical d"
  then have "d = ''sha256:'' @ drop 7 d" by (metis append_take_drop_id canonical_def)
  with c show "\<exists>h. d = ''sha256:'' @ h \<and> length h = 64 \<and> set h \<subseteq> set hex_digits"
    by (intro exI [of _ "drop 7 d"]) (simp add: canonical_def)
qed (auto simp: canonical_def)

lemma canonical_plain: "canonical d \<Longrightarrow> set d \<subseteq> set plain_chars"
proof -
  have "list_all (\<lambda>c. c \<in> set plain_chars) (hex_digits @ ''sha256:'')" by code_simp
  then show "canonical d \<Longrightarrow> set d \<subseteq> set plain_chars"
    by (auto simp: canonical_split list_all_iff)
qed

lemma not_canonical_Nil [simp]: "\<not> canonical []"
  by (simp add: canonical_def)

lemma canonical_not_in:
  assumes "canonical d" shows "CHR 0x0A \<notin> set d" "CHR ''@'' \<notin> set d"
proof -
  have "CHR 0x0A \<notin> set plain_chars" "CHR ''@'' \<notin> set plain_chars"
    by (simp_all add: plain_chars_def)
  with canonical_plain [OF assms] show "CHR 0x0A \<notin> set d" "CHR ''@'' \<notin> set d" by auto
qed

lemma canonical_trim [simp]: "canonical d \<Longrightarrow> trim_space d = d"
  by (simp add: canonical_plain trim_space_plain)

lemma canonicalize_Inr: "canonicalize x = Inr d \<longleftrightarrow> canonical d \<and> x = d"
  by (auto simp: canonicalize_def canonical_split list_all_iff cut_prefix_eq_None
      split: option.splits)

lemma CanonicalDigest_Inr:
  "CanonicalDigest ref = Inr d \<longleftrightarrow>
     canonical d \<and> (ref = d \<or> (\<exists>name. name \<noteq> [] \<and> ref = name @ CHR ''@'' # d))"
proof (cases "canonical d")
  case True
  note at = canonical_not_in(2) [OF True]
  show ?thesis
  proof (cases "cut_last CHR ''@'' ref")
    case None
    then have "CHR ''@'' \<notin> set ref" by (simp add: cut_last_eq_None)
    with None True show ?thesis by (auto simp: CanonicalDigest_def canonicalize_Inr)
  next
    case (Some p)
    then obtain name rest where p: "p = (name, rest)" and r: "ref = name @ CHR ''@'' # rest"
      by (cases p) (auto simp: cut_last_eq_Some)
    have "ref = nm @ CHR ''@'' # d \<longleftrightarrow> nm = name \<and> d = rest" for nm
    proof
      assume "ref = nm @ CHR ''@'' # d"
      with at have "cut_last CHR ''@'' ref = Some (nm, d)" by (simp add: cut_last_eq_Some)
      with Some p show "nm = name \<and> d = rest" by simp
    qed (use r in simp)
    moreover have "ref \<noteq> d" using at r by auto
    ultimately show ?thesis
      using Some p True by (auto simp: CanonicalDigest_def canonicalize_Inr)
  qed
next
  case False
  then show ?thesis
    by (auto simp: CanonicalDigest_def canonicalize_Inr split: option.splits)
qed

lemma CanonicalDigest_canonical [simp]: "canonical d \<Longrightarrow> CanonicalDigest d = Inr d"
  by (simp add: CanonicalDigest_Inr)

text \<open>The check the code writes as \<open>c, err := CanonicalDigest(d); err != nil || c != d\<close>.\<close>

lemma CanonicalDigest_self [simp]: "CanonicalDigest d = Inr d \<longleftrightarrow> canonical d"
  by (auto simp: CanonicalDigest_Inr)

section \<open>The register interface\<close>

record 'r register_ops =
  OpExtend :: "bytes \<Rightarrow> 'r \<Rightarrow> err option \<times> 'r"
  OpExtension :: "'r \<Rightarrow> (err + bytes) \<times> 'r"

text \<open>
  What the interface promises on a well-formed device: an extend that reports success folded the
  event into the register, one that reports an error changed nothing, a read that succeeds
  returns the value, and no call breaks the device.
\<close>

locale register =
  fixes ops :: "'r register_ops" and reg_value :: "'r \<Rightarrow> bytes" and reg_ok :: "'r \<Rightarrow> bool"
  assumes value_width: "reg_ok r \<Longrightarrow> length (reg_value r) = Size"
    and extend_ok:
      "reg_ok r \<Longrightarrow> OpExtend ops event r = (None, r') \<Longrightarrow>
         reg_ok r' \<and> reg_value r' = Extend (reg_value r) event"
    and extend_failed:
      "reg_ok r \<Longrightarrow> OpExtend ops event r = (Some e, r') \<Longrightarrow>
         reg_ok r' \<and> reg_value r' = reg_value r"
    and extension_value:
      "reg_ok r \<Longrightarrow> OpExtension ops r = (Inr b, r') \<Longrightarrow> b = reg_value r"
    and extension_keeps:
      "reg_ok r \<Longrightarrow> OpExtension ops r = (x, r') \<Longrightarrow> reg_ok r' \<and> reg_value r' = reg_value r"

text \<open>
  The TDX register: the kernel TSM node of RTMR[3]. \<open>DevScript\<close> holds the outcomes the
  environment has chosen for the coming calls (all succeed once it is empty); \<open>DevValue\<close> is the
  hardware register, which a whole event written to the node extends.
\<close>

datatype dev_outcome = DevOk | DevOpenFails | DevWriteFails | DevCloseFails | DevShort nat

record tdx_dev =
  DevValue :: bytes
  DevScript :: "dev_outcome list"

definition dev_next :: "tdx_dev \<Rightarrow> dev_outcome \<times> tdx_dev" where
  "dev_next r =
     (case DevScript r of
        [] \<Rightarrow> (DevOk, r)
      | x # xs \<Rightarrow> (x, r\<lparr>DevScript := xs\<rparr>))"

definition tdxRegister_Extend :: "bytes \<Rightarrow> tdx_dev \<Rightarrow> err option \<times> tdx_dev" where
  "tdxRegister_Extend event r =
     (if length event \<noteq> Size then (Some (Errorf ''extend event size''), r)
      else case dev_next r of
          (DevOpenFails, r') \<Rightarrow> (Some (Errorf ''open''), r')
        | (DevWriteFails, r') \<Rightarrow> (Some (Errorf ''write''), r')
        | (DevShort n, r') \<Rightarrow> (Some (Errorf ''write''), r')
        | (DevCloseFails, r') \<Rightarrow> (Some (Errorf ''close''), r')
        | (DevOk, r') \<Rightarrow> (None, r'\<lparr>DevValue := Extend (DevValue r') event\<rparr>))"

definition tdxRegister_Extension :: "tdx_dev \<Rightarrow> (err + bytes) \<times> tdx_dev" where
  "tdxRegister_Extension r =
     (case dev_next r of
        (DevOk, r') \<Rightarrow>
          (if length (DevValue r') \<noteq> Size then (Inl (Errorf ''read size''), r')
           else (Inr (DevValue r'), r'))
      | (DevShort n, r') \<Rightarrow>
          (if length (take n (DevValue r')) \<noteq> Size then (Inl (Errorf ''read size''), r')
           else (Inr (take n (DevValue r')), r'))
      | (_, r') \<Rightarrow> (Inl (Errorf ''read''), r'))"

definition TDXRegister :: "tdx_dev register_ops" where
  "TDXRegister = \<lparr>OpExtend = tdxRegister_Extend, OpExtension = tdxRegister_Extension\<rparr>"

abbreviation defaultTDXRegisterPath :: string where
  "defaultTDXRegisterPath \<equiv> ''/sys/devices/virtual/misc/tdx_guest/measurements/rtmr3:sha384''"

text \<open>\<open>Open\<close>: the path of the register to drive, or why there is none.\<close>

definition Open :: "string \<Rightarrow> err + string" where
  "Open p =
     (if HasRegisters p then Inr defaultTDXRegisterPath
      else if IsSNP p then Inl (Sentinel ErrNoRegister)
      else Inl (Sentinel ErrUnknownPlatform))"

text \<open>An invariant of the device model: the hardware register is as wide as an event.\<close>

definition dev_ok :: "tdx_dev \<Rightarrow> bool" where
  "dev_ok r \<longleftrightarrow> length (DevValue r) = Size"

lemma dev_next_value: "dev_next r = (x, r') \<Longrightarrow> DevValue r' = DevValue r"
  by (auto simp: dev_next_def split: list.splits)

interpretation tdx_register: register TDXRegister DevValue dev_ok
proof
  show "length (DevValue r) = Size" if "dev_ok r" for r
    using that by (simp add: dev_ok_def)
  show "dev_ok r' \<and> DevValue r' = Extend (DevValue r) event"
    if "dev_ok r" "OpExtend TDXRegister event r = (None, r')" for r r' event
    using that by (auto simp: TDXRegister_def tdxRegister_Extend_def dev_ok_def dev_next_value
        split: if_splits prod.splits dev_outcome.splits)
  show "dev_ok r' \<and> DevValue r' = DevValue r"
    if "dev_ok r" "OpExtend TDXRegister event r = (Some e, r')" for r r' event e
    using that by (auto simp: TDXRegister_def tdxRegister_Extend_def dev_ok_def dev_next_value
        split: if_splits prod.splits dev_outcome.splits)
  show "b = DevValue r"
    if "dev_ok r" "OpExtension TDXRegister r = (Inr b, r')" for r r' b
    using that by (auto simp: TDXRegister_def tdxRegister_Extension_def dev_ok_def dev_next_value
        split: if_splits prod.splits dev_outcome.splits)
  show "dev_ok r' \<and> DevValue r' = DevValue r"
    if "dev_ok r" "OpExtension TDXRegister r = (x, r')" for r r' x
    using that by (auto simp: TDXRegister_def tdxRegister_Extension_def dev_ok_def dev_next_value
        split: if_splits prod.splits dev_outcome.splits)
qed

end
