(* ===== verification/Binding.thy ===== *)
theory Binding
  imports Measure
begin

text \<open>
  The package \<open>runtimemeasure\<close>, verifier side: launch file digests (\<open>launchfile.go\<close>), the
  post-launch binding of a verified result (\<open>binding.go\<close>) and the init-data anchor
  (\<open>anchor.go\<close>).

  A \<open>*VerificationResult\<close> argument is a \<open>verification_result option\<close>; reading a field of a nil
  pointer is \<open>Panic\<close>, and the lemmas show that no call does it. Uniqueness of what a binding
  proves rests on SHA-384, so it is stated as a reduction: either the conclusion holds or the
  strings hashed on the way hold a collision or a preimage of the zero register (\<open>hash_break\<close>).
\<close>

section \<open>Launch file digests\<close>

definition launchFileHash :: "family \<Rightarrow> err + ((bytes \<Rightarrow> bytes) \<times> nat)" where
  "launchFileHash f =
     (case f of
        FamilyTDX \<Rightarrow> Inr (sha384, 48)
      | FamilySNP \<Rightarrow> Inr (sha256, 32)
      | FamilyUnknown \<Rightarrow> Inl (Sentinel ErrUnknownPlatform))"

definition LaunchFileDigest :: "family \<Rightarrow> bytes \<Rightarrow> err + bytes" where
  "LaunchFileDigest f file =
     bindr (launchFileHash f) (\<lambda>(h, _).
       if file = [] then Inl (Errorf ''launch file is empty'') else Inr (h file))"

definition CheckLaunchFileDigest :: "family \<Rightarrow> bytes \<Rightarrow> err + unit" where
  "CheckLaunchFileDigest f digest =
     bindr (launchFileHash f) (\<lambda>(h, width).
       if length digest \<noteq> width then Inl (Errorf ''launch file digest width'')
       else if count_list digest 0 = width then Inl (Errorf ''is all zero'')
       else if digest = h [] then Inl (Errorf ''is the digest of the empty file'')
       else Inr ())"

definition ParseLaunchFileDigest :: "family \<Rightarrow> string \<Rightarrow> err + bytes" where
  "ParseLaunchFileDigest f s =
     bindr (launchFileHash f) (\<lambda>(_, width).
     bindr (ParseDigest s (int width)) (\<lambda>digest.
     bindr (CheckLaunchFileDigest f digest) (\<lambda>_. Inr digest)))"

lemma launchFileHash_Inr [simp]:
  "launchFileHash f = Inr hw \<longleftrightarrow>
     f = FamilyTDX \<and> hw = (sha384, 48) \<or> f = FamilySNP \<and> hw = (sha256, 32)"
  by (cases f) (auto simp: launchFileHash_def)

lemma count_list_all: "count_list xs z = length xs \<longleftrightarrow> xs = replicate (length xs) z"
proof
  show "count_list xs z = length xs \<Longrightarrow> xs = replicate (length xs) z"
  proof (induction xs)
    case (Cons x xs)
    then show ?case using count_le_length [of xs z] by (auto split: if_splits)
  qed simp
  have "count_list (replicate n z) z = n" for n by (induction n) simp_all
  then show "xs = replicate (length xs) z \<Longrightarrow> count_list xs z = length xs" by metis
qed

text \<open>A digest some file other than the empty one can have, as far as the check can tell.\<close>

definition launch_digest_ok :: "family \<Rightarrow> bytes \<Rightarrow> bool" where
  "launch_digest_ok f d \<longleftrightarrow>
     f = FamilyTDX \<and> length d = 48 \<and> d \<noteq> replicate 48 0 \<and> d \<noteq> sha384 []
   \<or> f = FamilySNP \<and> length d = 32 \<and> d \<noteq> replicate 32 0 \<and> d \<noteq> sha256 []"

lemma CheckLaunchFileDigest_Inr [simp]:
  "CheckLaunchFileDigest f d = Inr u \<longleftrightarrow> launch_digest_ok f d"
  using count_list_all [of d 0]
  by (cases f) (auto simp: CheckLaunchFileDigest_def launch_digest_ok_def)

section \<open>The binding of a result\<close>

definition checkBindingPlatform :: "string \<Rightarrow> err + unit" where
  "checkBindingPlatform p =
     (if Family p = FamilyUnknown then Inl (Sentinel ErrUnknownPlatform)
      else if NormalizePlatform p = PlatformAzSNP then Inl (Sentinel ErrNoRegister)
      else Inr ())"

definition Binding :: "verification_result option \<Rightarrow> err + bytes" where
  "Binding r =
     bindr (Check r) (\<lambda>_.
     case r of
       None \<Rightarrow> Inl Panic
     | Some v \<Rightarrow>
         bindr (checkBindingPlatform (ResPlatform v)) (\<lambda>_.
         if HasRegisters (ResPlatform v) then RTMR (Claims v) 3
         else if length (InitData (Claims v)) \<noteq> HostDataSize
           then Inl (Errorf ''HOSTDATA claim size'')
           else Inr (InitData (Claims v))))"

definition bindingFromDigest :: "string \<Rightarrow> bytes \<Rightarrow> string list \<Rightarrow> err + bytes" where
  "bindingFromDigest p digest workloadDigests =
     bindr (checkBindingPlatform p) (\<lambda>_.
     bindr (wrap_err (Errorf ''launch file digest'') (CheckLaunchFileDigest (Family p) digest)) (\<lambda>_.
     case Family p of
       FamilyTDX \<Rightarrow>
         (if length digest \<noteq> Size then Inl (Errorf ''launch file digest size'')
          else bindr (to_array Size digest) (\<lambda>d.
            Inr (FromDigestsSeeded (Extend Zero d) workloadDigests)))
     | FamilySNP \<Rightarrow>
         (if workloadDigests \<noteq> [] then Inl (Sentinel ErrNoRegister) else Inr digest)
     | FamilyUnknown \<Rightarrow> Inl (Sentinel ErrUnknownPlatform)))"

definition expectedBinding :: "string \<Rightarrow> bytes \<Rightarrow> string list \<Rightarrow> err + bytes" where
  "expectedBinding p anchor workloadDigests =
     (if anchor = [] then Inl (Errorf ''anchor is empty'')
      else bindr (LaunchFileDigest (Family p) anchor) (\<lambda>digest.
        bindingFromDigest p digest workloadDigests))"

definition bindingName :: "string \<Rightarrow> string" where
  "bindingName p = (if HasRegisters p then ''RTMR[3]'' else ''HOSTDATA'')"

definition bindingMismatch :: "string \<Rightarrow> err" where
  "bindingMismatch p = Errorf (''guest is not bound: '' @ bindingName p)"

definition VerifyBinding :: "verification_result option \<Rightarrow> bytes \<Rightarrow> string list \<Rightarrow> err + unit" where
  "VerifyBinding r anchor workloadDigests =
     bindr (Binding r) (\<lambda>got.
     case r of
       None \<Rightarrow> Inl Panic
     | Some v \<Rightarrow>
         bindr (expectedBinding (ResPlatform v) anchor workloadDigests) (\<lambda>want.
         if got \<noteq> want then Inl (bindingMismatch (ResPlatform v)) else Inr ()))"

text \<open>The replay loop of \<open>matchBindingPrefix\<close>; \<open>i\<close> counts the entries already folded.\<close>

fun replay_loop :: "bytes \<Rightarrow> bytes \<Rightarrow> nat \<Rightarrow> string list \<Rightarrow> nat option" where
  "replay_loop got reg i [] = None"
| "replay_loop got reg i (d # ds) =
     (let reg' = Extend reg (Event d) in
      if got = reg' then Some (i + 1) else replay_loop got reg' (i + 1) ds)"

definition matchBindingPrefix ::
  "verification_result option \<Rightarrow> string list \<Rightarrow> (string \<Rightarrow> err + bytes) \<Rightarrow> err + nat" where
  "matchBindingPrefix r claimed expected =
     bindr (for_each (\<lambda>d. if CanonicalDigest d \<noteq> Inr d
                          then Inl (Errorf ''claimed extension is not canonical'') else Inr ())
              claimed) (\<lambda>_.
     bindr (Binding r) (\<lambda>got.
     case r of
       None \<Rightarrow> Inl Panic
     | Some v \<Rightarrow>
         bindr (expected (ResPlatform v)) (\<lambda>want.
         if got = want then Inr 0
         else if \<not> HasRegisters (ResPlatform v) \<or> claimed = []
         then Inl (bindingMismatch (ResPlatform v))
         else bindr (to_array Size want) (\<lambda>reg.
           case replay_loop got reg 0 claimed of
             Some k \<Rightarrow> Inr k
           | None \<Rightarrow> Inl (bindingMismatch (ResPlatform v))))))"

definition MatchBindingPrefix :: "verification_result option \<Rightarrow> bytes \<Rightarrow> string list \<Rightarrow> err + nat" where
  "MatchBindingPrefix r anchor claimed =
     matchBindingPrefix r claimed (\<lambda>p. expectedBinding p anchor [])"

definition MatchLaunchFileDigestPrefix ::
  "verification_result option \<Rightarrow> bytes \<Rightarrow> string list \<Rightarrow> err + nat" where
  "MatchLaunchFileDigestPrefix r digest claimed =
     matchBindingPrefix r claimed (\<lambda>p. bindingFromDigest p digest [])"

definition InitDataAnchor :: "verification_result option \<Rightarrow> err + bytes" where
  "InitDataAnchor r =
     bindr (Check r) (\<lambda>_.
     case r of
       None \<Rightarrow> Inl Panic
     | Some v \<Rightarrow>
         bindr (checkBindingPlatform (ResPlatform v)) (\<lambda>_.
         let claim = InitData (Claims v) in
         if Family (ResPlatform v) = FamilySNP then
           (if length claim \<noteq> HostDataSize then Inl (Wrap (Sentinel ErrNoAnchor) (Errorf ''HOST_DATA''))
            else Inr claim)
         else if length claim \<noteq> Size then Inl (Wrap (Sentinel ErrNoAnchor) (Errorf ''MRCONFIGID''))
         else if \<not> list_all (\<lambda>b. b = 0) (drop HostDataSize claim)
         then Inl (Wrap (Sentinel ErrNoAnchor) (Errorf ''padding''))
         else Inr (take HostDataSize claim)))"

section \<open>What the functions decide\<close>

text \<open>Platforms whose evidence carries a launcher-chosen binding.\<close>

definition bindable :: "string \<Rightarrow> bool" where
  "bindable p \<longleftrightarrow> Family p \<noteq> FamilyUnknown \<and> NormalizePlatform p \<noteq> PlatformAzSNP"

lemma checkBindingPlatform_Inr [simp]: "checkBindingPlatform p = Inr u \<longleftrightarrow> bindable p"
  by (auto simp: checkBindingPlatform_def bindable_def)

lemma bindable_TDX [simp]: "Family p = FamilyTDX \<Longrightarrow> bindable p"
  using Family_TDX_iff [of p] by (auto simp: bindable_def)

text \<open>
  The specification: \<open>bound_to v d ws\<close> says that the verified result \<open>v\<close> comes from a guest
  launched with a file of digest \<open>d\<close> which has measured exactly the workloads \<open>ws\<close> since.
\<close>

definition bound_to :: "verification_result \<Rightarrow> bytes \<Rightarrow> string list \<Rightarrow> bool" where
  "bound_to v d ws \<longleftrightarrow>
     SignatureValid v \<and> bindable (ResPlatform v) \<and> launch_digest_ok (Family (ResPlatform v)) d \<and>
     (if Family (ResPlatform v) = FamilyTDX
      then RTMR (Claims v) 3 = Inr (FromDigestsSeeded (Extend Zero d) ws)
      else ws = [] \<and> InitData (Claims v) = d)"

text \<open>The digest of a launch file under a family's hash.\<close>

definition launch_hash :: "family \<Rightarrow> bytes \<Rightarrow> bytes" where
  "launch_hash f = (if f = FamilyTDX then sha384 else sha256)"

lemma launch_digest_ok_family:
  "launch_digest_ok f d \<Longrightarrow> f = FamilyTDX \<or> f = FamilySNP"
  by (auto simp: launch_digest_ok_def)

lemma launch_digest_ok_length:
  "launch_digest_ok FamilyTDX d \<Longrightarrow> length d = 48"
  "launch_digest_ok FamilySNP d \<Longrightarrow> length d = 32"
  by (auto simp: launch_digest_ok_def)

lemma Binding_Inr:
  "Binding r = Inr b \<longleftrightarrow>
     (\<exists>v. r = Some v \<and> SignatureValid v \<and> bindable (ResPlatform v) \<and>
        (if Family (ResPlatform v) = FamilyTDX then RTMR (Claims v) 3 = Inr b
         else InitData (Claims v) = b \<and> length b = 32))"
  by (auto simp: Binding_def HasRegisters_def)

lemma bindingFromDigest_Inr:
  "bindingFromDigest p d ws = Inr b \<longleftrightarrow>
     bindable p \<and> launch_digest_ok (Family p) d \<and>
     (if Family p = FamilyTDX then b = FromDigestsSeeded (Extend Zero d) ws
      else ws = [] \<and> b = d)"
  by (cases "Family p")
    (auto simp: bindingFromDigest_def bindable_def launch_digest_ok_length
      dest: launch_digest_ok_family)

lemma expectedBinding_Inr:
  "expectedBinding p a ws = Inr b \<longleftrightarrow>
     a \<noteq> [] \<and> bindingFromDigest p (launch_hash (Family p) a) ws = Inr b"
  by (cases "Family p")
    (auto simp: expectedBinding_def LaunchFileDigest_def launch_hash_def bindingFromDigest_Inr
      dest: launch_digest_ok_family)

lemma VerifyBinding_Inr:
  "VerifyBinding r a ws = Inr u \<longleftrightarrow>
     (\<exists>v. r = Some v \<and> a \<noteq> [] \<and> bound_to v (launch_hash (Family (ResPlatform v)) a) ws)"
proof (cases r)
  case (Some v)
  show ?thesis
    by (cases "Family (ResPlatform v)")
      (auto simp: Some VerifyBinding_def Binding_Inr expectedBinding_Inr bindingFromDigest_Inr
        bound_to_def launch_digest_ok_length dest: launch_digest_ok_family)
qed (simp add: VerifyBinding_def Binding_Inr)

section \<open>Prefix replay\<close>

lemma replay_loop_Some:
  "replay_loop got reg i ds = Some k \<longleftrightarrow>
     (\<exists>j<length ds. k = i + j + 1 \<and> got = FromDigestsSeeded reg (take (j + 1) ds) \<and>
        (\<forall>j'<j. got \<noteq> FromDigestsSeeded reg (take (j' + 1) ds)))"
proof (induction ds arbitrary: reg i)
  case (Cons d ds)
  have "(\<exists>j<Suc n. P j) \<longleftrightarrow> P 0 \<or> (\<exists>j<n. P (Suc j))" for n and P :: "nat \<Rightarrow> bool"
    by (metis less_Suc_eq_0_disj)
  moreover have "(\<forall>j<Suc n. P j) \<longleftrightarrow> P 0 \<and> (\<forall>j<n. P (Suc j))" for n and P :: "nat \<Rightarrow> bool"
    by (metis less_Suc_eq_0_disj)
  ultimately show ?case using Cons [of "Extend reg (Event d)" "Suc i"]
    by (auto simp: Let_def)
qed simp

lemma match_bound:
  assumes exp: "\<And>w. expected (ResPlatform v) = Inr w \<longleftrightarrow> P \<and> bindingFromDigest (ResPlatform v) d [] = Inr w"
  shows "matchBindingPrefix (Some v) claimed expected = Inr k \<longleftrightarrow>
    P \<and> (\<forall>c\<in>set claimed. canonical c) \<and> k \<le> length claimed \<and>
    bound_to v d (take k claimed) \<and> (\<forall>j<k. \<not> bound_to v d (take j claimed))"
    (is "?match \<longleftrightarrow> ?spec")
proof (cases "P \<and> (\<forall>c\<in>set claimed. canonical c) \<and> SignatureValid v \<and> bindable (ResPlatform v)
              \<and> launch_digest_ok (Family (ResPlatform v)) d")
  case False
  have "P \<and> (\<forall>c\<in>set claimed. canonical c) \<and> SignatureValid v \<and> bindable (ResPlatform v)
      \<and> launch_digest_ok (Family (ResPlatform v)) d" if ?match
    using that by (auto simp: matchBindingPrefix_def exp Binding_Inr bindingFromDigest_Inr)
  moreover have "SignatureValid v \<and> bindable (ResPlatform v) \<and> launch_digest_ok (Family (ResPlatform v)) d" if ?spec
    using that by (simp add: bound_to_def)
  ultimately show ?thesis using False by blast
next
  case True
  let ?p = "ResPlatform v" and ?s = "Extend Zero d"
  from True have fam: "Family ?p = FamilyTDX \<or> Family ?p = FamilySNP"
    by (auto dest: launch_digest_ok_family)
  show ?thesis
  proof (cases "Family ?p = FamilyTDX")
    case tdx: True
    show ?thesis
    proof (cases "RTMR (Claims v) 3")
      case (Inl e)
      with True tdx show ?thesis
        by (simp add: matchBindingPrefix_def exp Binding_Inr bindingFromDigest_Inr bound_to_def)
    next
      case (Inr got)
      from Inr True tdx have "?match \<longleftrightarrow>
          (if got = ?s then k = 0 else replay_loop got ?s 0 claimed = Some k)"
        by (cases claimed) (auto simp: matchBindingPrefix_def exp Binding_Inr bindingFromDigest_Inr
            HasRegisters_def split: option.splits)
      also have "\<dots> \<longleftrightarrow> k \<le> length claimed \<and> got = FromDigestsSeeded ?s (take k claimed) \<and>
          (\<forall>j<k. got \<noteq> FromDigestsSeeded ?s (take j claimed))"
      proof (cases "got = ?s")
        case eq: True
        then show ?thesis by auto
      next
        case ne: False
        show ?thesis
        proof (cases k)
          case 0
          with ne show ?thesis by (simp add: replay_loop_Some)
        next
          case (Suc m)
          have "(\<forall>j<Suc m. got \<noteq> FromDigestsSeeded ?s (take j claimed)) \<longleftrightarrow>
                (\<forall>j<m. got \<noteq> FromDigestsSeeded ?s (take (j + 1) claimed))"
            using ne by (auto simp: less_Suc_eq_0_disj)
          with Suc ne show ?thesis by (auto simp: replay_loop_Some Suc_le_eq)
        qed
      qed
      finally show ?thesis using True tdx Inr by (simp add: bound_to_def)
    qed
  next
    case False
    with fam have snp: "Family ?p = FamilySNP" by simp
    with True have "length d = 32" by (auto simp: launch_digest_ok_length)
    with True snp show ?thesis
      by (auto simp: matchBindingPrefix_def exp Binding_Inr bindingFromDigest_Inr HasRegisters_def
          bound_to_def)
  qed
qed

lemma matchBindingPrefix_None [simp]: "matchBindingPrefix None claimed expected \<noteq> Inr k"
  by (auto simp: matchBindingPrefix_def Binding_Inr)

lemma MatchBindingPrefix_Inr:
  "MatchBindingPrefix r a claimed = Inr k \<longleftrightarrow>
     (\<exists>v. r = Some v \<and> a \<noteq> [] \<and> (\<forall>c\<in>set claimed. canonical c) \<and> k \<le> length claimed \<and>
        (let d = launch_hash (Family (ResPlatform v)) a in
         bound_to v d (take k claimed) \<and> (\<forall>j<k. \<not> bound_to v d (take j claimed))))"
proof (cases r)
  case (Some v)
  show ?thesis
    unfolding MatchBindingPrefix_def Some
    by (subst match_bound [where P = "a \<noteq> []" and d = "launch_hash (Family (ResPlatform v)) a"])
      (auto simp: expectedBinding_Inr Let_def)
qed (simp add: MatchBindingPrefix_def)

lemma MatchLaunchFileDigestPrefix_Inr:
  "MatchLaunchFileDigestPrefix r d claimed = Inr k \<longleftrightarrow>
     (\<exists>v. r = Some v \<and> (\<forall>c\<in>set claimed. canonical c) \<and> k \<le> length claimed \<and>
        bound_to v d (take k claimed) \<and> (\<forall>j<k. \<not> bound_to v d (take j claimed)))"
proof (cases r)
  case (Some v)
  show ?thesis
    unfolding MatchLaunchFileDigestPrefix_def Some
    by (subst match_bound [where P = True and d = d]) auto
qed (simp add: MatchLaunchFileDigestPrefix_def)

section \<open>Uniqueness of what a binding proves\<close>

text \<open>
  The strings of \<open>replay_inputs\<close>, and for a whole binding the extension of the launch digest into
  the zero register.
\<close>

definition binding_inputs :: "bytes \<Rightarrow> string list \<Rightarrow> bytes list" where
  "binding_inputs d ws = (Zero @ d) # replay_inputs (Extend Zero d) ws"

definition hash_break :: "bytes list \<Rightarrow> bool" where
  "hash_break S \<longleftrightarrow> collision_in sha384 S \<or> (\<exists>x\<in>set S. sha384 x = Zero)"

lemma hash_break_mono: "hash_break S \<Longrightarrow> set S \<subseteq> set T \<Longrightarrow> hash_break T"
  by (auto simp: hash_break_def intro: collision_in_mono)

lemma binding_is_hash:
  "\<exists>x\<in>set (binding_inputs d ws). FromDigestsSeeded (Extend Zero d) ws = sha384 x"
  by (cases ws rule: rev_cases) (auto simp: binding_inputs_def replay_inputs_append Extend_def)

lemma binding_inputs_snoc:
  "set (binding_inputs d (ws @ [w])) =
     {bytes_of_string w, FromDigestsSeeded (Extend Zero d) ws @ Event w} \<union> set (binding_inputs d ws)"
  by (auto simp: binding_inputs_def replay_inputs_append)

text \<open>Two register histories ending in one value have one last step, or \<open>S\<close> breaks the hash.\<close>

lemma extend_inj:
  assumes "\<not> hash_break S" and "r @ e \<in> set S" and "r' @ e' \<in> set S"
    and "Extend r e = Extend r' e'" and "length e = length e'"
  shows "r = r' \<and> e = e'"
proof -
  from assms have "r @ e = r' @ e'"
    by (auto simp: hash_break_def Extend_def dest: no_collisionD)
  with \<open>length e = length e'\<close> show ?thesis by simp
qed

lemma seed_not_extended:
  assumes nb: "\<not> hash_break S" and S: "set (binding_inputs d []) \<subseteq> set S"
      "set (binding_inputs d' (ws @ [w])) \<subseteq> set S"
    and len: "length d = 48"
  shows "Extend Zero d \<noteq> FromDigestsSeeded (Extend Zero d') (ws @ [w])"
proof
  let ?r = "FromDigestsSeeded (Extend Zero d') ws"
  assume "Extend Zero d = FromDigestsSeeded (Extend Zero d') (ws @ [w])"
  then have "Extend Zero d = Extend ?r (Event w)" by simp
  moreover have "Zero @ d \<in> set S" "?r @ Event w \<in> set S"
    using S by (auto simp: binding_inputs_def replay_inputs_append)
  ultimately have "Zero = ?r" using extend_inj [OF nb] len by fastforce
  moreover obtain x where "x \<in> set (binding_inputs d' ws)" "?r = sha384 x"
    using binding_is_hash by blast
  moreover have "set (binding_inputs d' ws) \<subseteq> set S" using S by (simp add: binding_inputs_snoc)
  ultimately show False using nb unfolding hash_break_def by (metis subsetD)
qed

lemma binding_inj:
  assumes nb: "\<not> hash_break S"
    and "set (binding_inputs d ws) \<subseteq> set S" "set (binding_inputs d' ws') \<subseteq> set S"
    and len: "length d = 48" "length d' = 48"
    and "FromDigestsSeeded (Extend Zero d) ws = FromDigestsSeeded (Extend Zero d') ws'"
  shows "d = d' \<and> ws = ws'"
  using assms(2,3,6)
proof (induction ws arbitrary: ws' rule: rev_induct)
  case Nil
  show ?case
  proof (cases ws' rule: rev_cases)
    case Nil': Nil
    with Nil have "Extend Zero d = Extend Zero d'" "Zero @ d \<in> set S" "Zero @ d' \<in> set S"
      by (auto simp: binding_inputs_def)
    with extend_inj [OF nb, of Zero d Zero d'] len Nil' show ?thesis by simp
  next
    case (snoc us u)
    with Nil seed_not_extended [OF nb, of d d' us u] len show ?thesis by simp
  qed
next
  case (snoc w ws)
  show ?case
  proof (cases ws' rule: rev_cases)
    case Nil
    with snoc.prems seed_not_extended [OF nb, of d' d ws w] len show ?thesis by simp
  next
    case us: (snoc us u)
    let ?r = "FromDigestsSeeded (Extend Zero d) ws" and ?r' = "FromDigestsSeeded (Extend Zero d') us"
    from snoc.prems us have "?r @ Event w \<in> set S" "?r' @ Event u \<in> set S"
      and e: "Extend ?r (Event w) = Extend ?r' (Event u)"
      by (auto simp: binding_inputs_snoc)
    then have "?r = ?r' \<and> Event w = Event u" using extend_inj [OF nb] by (metis length_Event)
    moreover from snoc.prems us have "bytes_of_string w \<in> set S" "bytes_of_string u \<in> set S"
      by (auto simp: binding_inputs_snoc)
    ultimately have "w = u"
      using nb by (auto simp: hash_break_def Event_def dest: no_collisionD)
    moreover have "d = d' \<and> ws = us"
      using snoc.prems us \<open>?r = ?r' \<and> _\<close> by (intro snoc.IH) (auto simp: binding_inputs_snoc)
    ultimately show ?thesis using us by simp
  qed
qed

lemma bound_to_unique:
  assumes "bound_to v d ws" "bound_to v d' ws'"
  shows "d = d' \<and> ws = ws' \<or> hash_break (binding_inputs d ws @ binding_inputs d' ws')"
proof (cases "Family (ResPlatform v) = FamilyTDX")
  case True
  with assms have "length d = 48" "length d' = 48"
    "FromDigestsSeeded (Extend Zero d) ws = FromDigestsSeeded (Extend Zero d') ws'"
    by (auto simp: bound_to_def launch_digest_ok_length)
  with binding_inj [of "binding_inputs d ws @ binding_inputs d' ws'" d ws d' ws'] show ?thesis
    by auto
next
  case False
  with assms show ?thesis by (simp add: bound_to_def)
qed

section \<open>Properties\<close>

text \<open>
  Replaying a claimed log is \<open>VerifyBinding\<close> on its prefixes. \<open>MatchBindingPrefix\<close> refuses a claim
  with an entry that is not canonical, and otherwise returns the least number of entries whose
  prefix \<open>VerifyBinding\<close> accepts with the same anchor, or fails when no prefix is accepted.
\<close>

lemma MatchBindingPrefix_least:
  "(case MatchBindingPrefix r anchor claimed of Inl e \<Rightarrow> None | Inr k \<Rightarrow> Some k) =
     (if list_all canonical claimed
      then find (\<lambda>k. VerifyBinding r anchor (take k claimed) = Inr ()) [0..<length claimed + 1] else None)"
proof -
  let ?P = "\<lambda>k. VerifyBinding r anchor (take k claimed) = Inr ()"
  have some: "MatchBindingPrefix r anchor claimed = Inr k \<longleftrightarrow>
      list_all canonical claimed \<and> k \<le> length claimed \<and> ?P k \<and> (\<forall>j<k. \<not> ?P j)" for k
    by (auto simp: MatchBindingPrefix_Inr VerifyBinding_Inr list_all_iff Let_def)
  have find: "find ?P [0..<n] = Some k \<longleftrightarrow> k < n \<and> ?P k \<and> (\<forall>j<k. \<not> ?P j)" for n k
    by (auto simp: find_Some_iff)
  show ?thesis
  proof (cases "MatchBindingPrefix r anchor claimed")
    case (Inr k)
    then have "find ?P [0..<length claimed + 1] = Some k" "list_all canonical claimed"
      using some [of k] find [of "length claimed + 1" k] by auto
    with Inr show ?thesis by simp
  next
    case (Inl e)
    then have "list_all canonical claimed \<Longrightarrow> find ?P [0..<length claimed + 1] = Some k \<Longrightarrow> False" for k
      using some [of k] find [of "length claimed + 1" k] by auto
    with Inl show ?thesis by (cases "find ?P [0..<length claimed + 1]") auto
  qed
qed

text \<open>
  A binding proves one history. If a verified result is bound to a launch-file digest with a
  prefix of one claimed log and to another digest with a prefix of another, the digests and the
  proven prefixes are equal, or the strings hashed for the two replays contain a SHA-384 collision
  or a preimage of the zero register.
\<close>

lemma binding_unique:
  assumes "MatchLaunchFileDigestPrefix r d claimed = Inr k"
    and "MatchLaunchFileDigestPrefix r d' claimed' = Inr k'"
  shows "d = d' \<and> take k claimed = take k' claimed' \<or>
    hash_break (binding_inputs d (take k claimed) @ binding_inputs d' (take k' claimed'))"
proof -
  from assms obtain v where "bound_to v d (take k claimed)" "bound_to v d' (take k' claimed')"
    by (auto simp: MatchLaunchFileDigestPrefix_Inr)
  then show ?thesis by (rule bound_to_unique)
qed

text \<open>
  The init-data anchor. \<open>InitDataAnchor\<close> returns a value exactly for a signature-verified result
  of a platform whose guest sees its launch data: the 32 bytes of HOST_DATA on SEV-SNP, the first 32
  bytes of a 48-byte MRCONFIGID on TDX when the rest is zero.
\<close>

lemma InitDataAnchor_exact:
  "InitDataAnchor r = Inr a \<longleftrightarrow>
     (\<exists>v. r = Some v \<and> SignatureValid v \<and> bindable (ResPlatform v) \<and> length a = HostDataSize \<and>
        InitData (Claims v) = (if Family (ResPlatform v) = FamilySNP then a else a @ replicate 16 0))"
proof (cases r)
  case (Some v)
  let ?c = "InitData (Claims v)"
  have pad: "length ?c = 48 \<and> list_all (\<lambda>b. b = 0) (drop 32 ?c) \<and> a = take 32 ?c \<longleftrightarrow>
      length a = 32 \<and> ?c = a @ replicate 16 0"
  proof
    assume h: "length ?c = 48 \<and> list_all (\<lambda>b. b = 0) (drop 32 ?c) \<and> a = take 32 ?c"
    then have "drop 32 ?c = replicate 16 0"
      by (intro replicate_eqI) (auto simp: list_all_iff)
    with h show "length a = 32 \<and> ?c = a @ replicate 16 0"
      using append_take_drop_id [of 32 ?c] by simp
  qed (auto simp: list_all_iff)
  show ?thesis
    using pad by (cases "Family (ResPlatform v) = FamilySNP") (auto simp: Some InitDataAnchor_def Let_def)
qed (simp add: InitDataAnchor_def)

definition sample_bound :: "bytes \<Rightarrow> verification_result" where
  "sample_bound d = zero_result\<lparr>SignatureValid := True, ResPlatform := PlatformSNP,
     Claims := zero_claims\<lparr>InitData := d\<rparr>\<rparr>"

lemma binding_unique_example:
  "\<exists>d. length d = 32 \<and> MatchLaunchFileDigestPrefix (Some (sample_bound d)) d [] = Inr 0 \<and>
     (d = d \<or> hash_break (binding_inputs d [] @ binding_inputs d []))"
proof -
  obtain d :: bytes where d: "length d = 32" "d \<noteq> replicate 32 0" "d \<noteq> sha256 []"
  proof (cases "sha256 [] = replicate 32 1")
    case True
    have "replicate 32 (2 :: byte) \<noteq> replicate 32 0" "replicate 32 (2 :: byte) \<noteq> replicate 32 1"
      by code_simp+
    with True show ?thesis by (intro that [of "replicate 32 2"]) simp_all
  next
    case False
    have "replicate 32 (1 :: byte) \<noteq> replicate 32 0" by code_simp
    with False show ?thesis by (intro that [of "replicate 32 1"]) simp_all
  qed
  then have m: "MatchLaunchFileDigestPrefix (Some (sample_bound d)) d [] = Inr 0"
    by (simp add: MatchLaunchFileDigestPrefix_Inr bound_to_def sample_bound_def bindable_def launch_digest_ok_def)
  with binding_unique [OF m m] d(1) show ?thesis by blast
qed

end
