(* ===== verification/Journal.thy ===== *)
theory Journal
  imports Measure
begin

text \<open>
  The journal of \<open>runtimemeasure/journal.go\<close>, which makes register extends exactly-once across
  restarts.

  The world is the journal file (\<open>None\<close>: it does not exist) and the register device. What the
  file system does in a call is an argument: \<open>open_fault\<close>, \<open>rec_fault\<close> and \<open>atomic_fault\<close> name
  the system call that fails. The step relation \<open>jstep\<close> is a fail-closed measurer (every
  error of \<open>OpenJournalSeeded\<close> is fatal to it) under any fault, crash or change of the file; register
  and memory refine the append-only log of distinct digests \<open>log_step\<close>. \<open>durable_step\<close> is the
  part in which the storage keeps its word; there the file keeps up with the log too, and a reopened
  journal recovers. The last section has runs outside that part, where the file loses a digest.
\<close>

section \<open>The file format\<close>

abbreviation newline :: char where "newline \<equiv> CHR 0x0A"

type_synonym parse_state = "string set \<times> string list \<times> string list"

definition parse_line :: "string \<Rightarrow> parse_state \<Rightarrow> parse_state" where
  "parse_line raw st =
     (case st of (seen, order, skipped) \<Rightarrow>
      let line = trim_space raw in
      if line = [] then (seen, order, skipped)
      else if CanonicalDigest line \<noteq> Inr line then (seen, order, skipped @ [line])
      else if line \<in> seen then (seen, order, skipped)
      else (insert line seen, order @ [line], skipped))"

definition parseJournal :: "string \<Rightarrow> string list \<times> string list" where
  "parseJournal b = snd (foldl (\<lambda>st line. parse_line line st) ({}, [], []) (split_on newline b))"

section \<open>The journal and the world\<close>

record 'r jworld =
  JFile :: "string option"
  JReg :: 'r

record journal =
  JSeed :: bytes
  Measured :: "string set"
  Order :: "string list"
  Diverged :: bool

datatype open_fault = OpenOk | MkdirFails | ReadFails

datatype rec_fault = RecOk | RecOpenFails | RecShort nat | RecSyncFails | RecCloseFails

datatype atomic_fault =
    AtomicOk | CreateTempFails | WriteFails | ChmodFails | SyncFails | CloseFails | RenameFails
  | DirSyncFails

text \<open>\<open>errors.Join\<close> of the errors that are not nil.\<close>

fun join_errs :: "err list \<Rightarrow> err option" where
  "join_errs [] = None"
| "join_errs (e # es) = (case join_errs es of None \<Rightarrow> Some e | Some e' \<Rightarrow> Some (Wrap e e'))"

definition file_content :: "'r jworld \<Rightarrow> string" where
  "file_content w = (case JFile w of None \<Rightarrow> [] | Some b \<Rightarrow> b)"

definition ReadJournal :: "open_fault \<Rightarrow> 'r jworld \<Rightarrow> err + string list" where
  "ReadJournal flt w =
     (case JFile w of
        None \<Rightarrow> Inr []
      | Some b \<Rightarrow> if flt = ReadFails then Inl (Errorf ''read journal'') else Inr (fst (parseJournal b)))"

text \<open>
  \<open>reconcile\<close>: the fatal error if there is one, the journal, the recoverable problems, the
  register.
\<close>

definition reconcile ::
    "'r register_ops \<Rightarrow> journal \<Rightarrow> err list \<Rightarrow> 'r \<Rightarrow> err option \<times> journal \<times> err list \<times> 'r" where
  "reconcile ops j problems r =
     (case OpExtension ops r of
        (Inl e, r') \<Rightarrow>
          (None, j, problems @ [Wrap (Errorf ''cannot read the register'') e], r')
      | (Inr cur, r') \<Rightarrow>
          if cur = FromDigestsSeeded (JSeed j) (Order j) then (None, j, problems, r')
          else if Order j \<noteq> [] \<and> cur = FromDigestsSeeded (JSeed j) (butlast (Order j)) then
            (case OpExtend ops (Event (last (Order j))) r' of
               (Some e, r'') \<Rightarrow>
                 (Some (Wrap (Errorf ''finish the interrupted extend'') e), j, problems, r'')
             | (None, r'') \<Rightarrow> (None, j, problems, r''))
          else (None, j\<lparr>Diverged := True\<rparr>, problems @ [Sentinel ErrRegisterDiverged], r'))"

definition OpenJournalSeeded ::
    "open_fault \<Rightarrow> 'r register_ops option \<Rightarrow> bytes \<Rightarrow> 'r jworld \<Rightarrow>
     (journal option \<times> err option) \<times> 'r jworld" where
  "OpenJournalSeeded flt reg seed w =
     (case reg of
        None \<Rightarrow> ((None, Some (Errorf ''no register to measure into'')), w)
      | Some ops \<Rightarrow>
          if flt = MkdirFails then ((None, Some (Errorf ''create journal dir'')), w)
          else if flt = ReadFails \<and> JFile w \<noteq> None then ((None, Some (Errorf ''read journal'')), w)
          else
            (case parseJournal (file_content w) of (order, skipped) \<Rightarrow>
             let j = \<lparr>JSeed = seed, Measured = set order, Order = order, Diverged = False\<rparr>;
                 problems = (if skipped \<noteq> [] then [Sentinel ErrMalformedEntry] else [])
             in case reconcile ops j problems (JReg w) of
                  (Some e, _, _, r') \<Rightarrow> ((None, Some e), w\<lparr>JReg := r'\<rparr>)
                | (None, j', problems', r') \<Rightarrow>
                    ((Some j', join_errs problems'), w\<lparr>JReg := r'\<rparr>)))"

definition OpenJournal ::
    "open_fault \<Rightarrow> 'r register_ops option \<Rightarrow> 'r jworld \<Rightarrow>
     (journal option \<times> err option) \<times> 'r jworld" where
  "OpenJournal flt reg w = OpenJournalSeeded flt reg Zero w"

text \<open>
  \<open>record\<close>: open for append (creating the file), write the line, sync, close; the in-memory order
  grows only when all of it succeeded.
\<close>

definition journal_record ::
    "rec_fault \<Rightarrow> string \<Rightarrow> journal \<Rightarrow> 'r jworld \<Rightarrow> err option \<times> journal \<times> 'r jworld" where
  "journal_record flt digest j w =
     (let line = digest @ [newline];
          after = (\<lambda>s. w\<lparr>JFile := Some (file_content w @ s)\<rparr>)
      in case flt of
           RecOpenFails \<Rightarrow> (Some (Errorf ''open''), j, w)
         | RecShort n \<Rightarrow> (Some (Errorf ''write''), j, after (take n line))
         | RecSyncFails \<Rightarrow> (Some (Errorf ''sync''), j, after line)
         | RecCloseFails \<Rightarrow> (Some (Errorf ''close''), j, after line)
         | RecOk \<Rightarrow> (None, j\<lparr>Order := Order j @ [digest]\<rparr>, after line))"

text \<open>\<open>writeAtomic\<close>: up to the rename the journal is untouched; a failed directory sync comes after.\<close>

definition writeAtomic :: "atomic_fault \<Rightarrow> string \<Rightarrow> 'r jworld \<Rightarrow> err option \<times> 'r jworld" where
  "writeAtomic flt data w =
     (case flt of
        CreateTempFails \<Rightarrow> (Some (Errorf ''create temp''), w)
      | WriteFails \<Rightarrow> (Some (Errorf ''write temp''), w)
      | ChmodFails \<Rightarrow> (Some (Errorf ''chmod temp''), w)
      | SyncFails \<Rightarrow> (Some (Errorf ''sync temp''), w)
      | CloseFails \<Rightarrow> (Some (Errorf ''close temp''), w)
      | RenameFails \<Rightarrow> (Some (Errorf ''rename''), w)
      | DirSyncFails \<Rightarrow> (Some (Errorf ''sync dir''), w\<lparr>JFile := Some data\<rparr>)
      | AtomicOk \<Rightarrow> (None, w\<lparr>JFile := Some data\<rparr>))"

definition unrecordLast ::
    "atomic_fault \<Rightarrow> string \<Rightarrow> journal \<Rightarrow> 'r jworld \<Rightarrow> err option \<times> journal \<times> 'r jworld" where
  "unrecordLast flt digest j w =
     (let j' = (if Order j \<noteq> [] \<and> last (Order j) = digest
                then j\<lparr>Order := butlast (Order j)\<rparr> else j)
      in case writeAtomic flt (join_lines (Order j')) w of
           (Some e, w') \<Rightarrow> (Some (Wrap (Errorf ''roll back journal'') e), j', w')
         | (None, w') \<Rightarrow> (None, j', w'))"

definition MeasureOnce ::
    "'r register_ops \<Rightarrow> rec_fault \<Rightarrow> atomic_fault \<Rightarrow> string \<Rightarrow> journal \<Rightarrow> 'r jworld \<Rightarrow>
     (err + bool) \<times> journal \<times> 'r jworld" where
  "MeasureOnce ops rflt aflt ref j w =
     (case CanonicalDigest ref of
        Inl e \<Rightarrow> (Inl e, j, w)
      | Inr d \<Rightarrow>
          if Diverged j then (Inl (Sentinel ErrRegisterDiverged), j, w)
          else if d \<in> Measured j then (Inr False, j, w)
          else (case journal_record rflt d j w of
              (Some e, j1, w1) \<Rightarrow> (Inl (Wrap (Errorf ''record before extending'') e), j1, w1)
            | (None, j1, w1) \<Rightarrow>
                (case OpExtend ops (Event d) (JReg w1) of
                   (Some e, r2) \<Rightarrow>
                     (case unrecordLast aflt d j1 (w1\<lparr>JReg := r2\<rparr>) of
                        (None, j3, w3) \<Rightarrow> (Inl (Wrap (Errorf ''extend'') e), j3, w3)
                      | (Some e3, j3, w3) \<Rightarrow> (Inl (Wrap (Wrap (Errorf ''extend'') e) e3), j3, w3))
                 | (None, r2) \<Rightarrow>
                     (Inr True, j1\<lparr>Measured := insert d (Measured j1)\<rparr>, w1\<lparr>JReg := r2\<rparr>))))"

definition Digests :: "journal \<Rightarrow> string list" where
  "Digests j = Order j"

section \<open>Parsing\<close>

text \<open>What a journal order may be, and a proper non-empty part of a journal line.\<close>

definition journal_order :: "string list \<Rightarrow> bool" where
  "journal_order ds \<longleftrightarrow> distinct ds \<and> (\<forall>d\<in>set ds. canonical d)"

definition torn :: "string \<Rightarrow> bool" where
  "torn t \<longleftrightarrow> (\<exists>d n. canonical d \<and> 0 < n \<and> n < 71 \<and> t = take n d)"

lemma journal_order_snoc [simp]:
  "journal_order (ds @ [d]) \<longleftrightarrow> journal_order ds \<and> canonical d \<and> d \<notin> set ds"
  by (auto simp: journal_order_def)

lemma journal_order_Nil [simp]: "journal_order []"
  by (simp add: journal_order_def)

lemma journal_order_single [simp]: "journal_order [d] \<longleftrightarrow> canonical d"
  by (simp add: journal_order_def)

lemma journal_order_butlast: "journal_order ds \<Longrightarrow> journal_order (butlast ds)"
  by (auto simp: journal_order_def distinct_butlast dest: in_set_butlastD)

lemma journal_order_newline: "journal_order ds \<Longrightarrow> \<forall>l\<in>set ds. newline \<notin> set l"
  by (auto simp: journal_order_def dest: canonical_not_in)

lemma tornD:
  assumes "torn t"
  shows "t \<noteq> []" "newline \<notin> set t" "trim_space t = t" "\<not> canonical t"
proof -
  from assms obtain d n where d: "canonical d" "0 < n" "n < 71" "t = take n d"
    by (auto simp: torn_def)
  then have len: "length d = 71" by (simp add: canonical_def)
  then show "t \<noteq> []" using d by auto
  have sub: "set t \<subseteq> set d" using d by (simp add: set_take_subset)
  then show "newline \<notin> set t" using canonical_not_in(1) [OF d(1)] by auto
  show "trim_space t = t" using sub canonical_plain [OF d(1)] by (auto intro!: trim_space_plain)
  show "\<not> canonical t" using d len by (simp add: canonical_def)
qed

lemma parse_line_simps:
  "parse_line [] st = st"
  "canonical d \<Longrightarrow> d \<notin> seen \<Longrightarrow>
     parse_line d (seen, order, skipped) = (insert d seen, order @ [d], skipped)"
  "t \<noteq> [] \<Longrightarrow> trim_space t = t \<Longrightarrow> \<not> canonical t \<Longrightarrow>
     parse_line t (seen, order, skipped) = (seen, order, skipped @ [t])"
  by (auto simp: parse_line_def trim_space_id split: prod.splits)

lemma parse_lines_fresh:
  "journal_order (order @ ds) \<Longrightarrow>
     foldl (\<lambda>st line. parse_line line st) (set order, order, skipped) ds =
       (set (order @ ds), order @ ds, skipped)"
proof (induction ds arbitrary: order)
  case (Cons d ds)
  then have "canonical d" "d \<notin> set order" by (auto simp: journal_order_def)
  with Cons.prems Cons.IH [of "order @ [d]"] show ?case by (simp add: parse_line_simps)
qed simp

lemma parse_split:
  "journal_order ds \<Longrightarrow> newline \<notin> set t \<Longrightarrow>
     parseJournal (join_lines ds @ t) = snd (parse_line t (set ds, ds, []))"
  using parse_lines_fresh [of "[]" ds "[]"]
  by (simp add: parseJournal_def split_join_lines [OF journal_order_newline] split_on_no_sep)

lemma parse_join: "journal_order ds \<Longrightarrow> parseJournal (join_lines ds) = (ds, [])"
  using parse_split [of ds "[]"] by (simp add: parse_line_simps)

lemma parse_torn: "journal_order ds \<Longrightarrow> torn t \<Longrightarrow> parseJournal (join_lines ds @ t) = (ds, [t])"
  by (simp add: parse_split tornD parse_line_simps)

lemma parse_unterminated:
  "journal_order (ds @ [d]) \<Longrightarrow> parseJournal (join_lines ds @ d) = (ds @ [d], [])"
  by (simp add: parse_split canonical_not_in parse_line_simps)

lemma parse_line_order:
  "parse_line l (seen, order, skipped) = (seen', order', skipped') \<Longrightarrow>
     seen = set order \<Longrightarrow> journal_order order \<Longrightarrow> seen' = set order' \<and> journal_order order'"
  by (auto simp: parse_line_def Let_def split: if_splits)

lemma parse_lines_order:
  "foldl (\<lambda>st line. parse_line line st) (set order, order, skipped) ls = (seen', order', skipped') \<Longrightarrow>
     journal_order order \<Longrightarrow> journal_order order'"
proof (induction ls arbitrary: order skipped)
  case (Cons l ls)
  obtain s o1 k where st: "parse_line l (set order, order, skipped) = (s, o1, k)"
    by (cases "parse_line l (set order, order, skipped)") auto
  with parse_line_order Cons.prems have "s = set o1" "journal_order o1" by blast+
  with Cons st show ?case by auto
qed simp

lemma parseJournal_order: "parseJournal b = (order, skipped) \<Longrightarrow> journal_order order"
  using parse_lines_order [of "[]" "[]" "split_on newline b"]
  by (cases "foldl (\<lambda>st line. parse_line line st) ({}, [], []) (split_on newline b)")
    (auto simp: parseJournal_def)

section \<open>A fail-closed measurer\<close>

text \<open>
  A state is the measurer's journal (\<open>None\<close>: not running) and the world. The measurer treats every
  error of the open as fatal. Between two of its operations the file may become anything
  (\<open>file_changed\<close>): an append or a rollback cut off at any character, a file that a power loss takes
  back, another writer. \<open>extend_crashed\<close> is a process that dies after the register call and before it
  remembers the digest. A run carries the strings that the operations in it hash: the replay of the
  digests an open reads, and the digest and the register a measurement extends.
\<close>

type_synonym 'r jstate = "journal option \<times> 'r jworld"

definition starts :: "string \<Rightarrow> journal \<Rightarrow> string \<Rightarrow> bool" where
  "starts ref j d \<longleftrightarrow> CanonicalDigest ref = Inr d \<and> \<not> Diverged j \<and> d \<notin> Measured j"

definition open_inputs :: "bytes \<Rightarrow> 'r jworld \<Rightarrow> bytes list" where
  "open_inputs seed w = replay_inputs seed (fst (parseJournal (file_content w)))"

definition extend_inputs :: "('r \<Rightarrow> bytes) \<Rightarrow> string \<Rightarrow> 'r jworld \<Rightarrow> bytes list" where
  "extend_inputs reg_value d w = [bytes_of_string d, reg_value (JReg w) @ Event d]"

definition measure_inputs :: "('r \<Rightarrow> bytes) \<Rightarrow> string \<Rightarrow> journal \<Rightarrow> 'r jworld \<Rightarrow> bytes list" where
  "measure_inputs reg_value ref j w =
     (case CanonicalDigest ref of
        Inl _ \<Rightarrow> []
      | Inr d \<Rightarrow> if starts ref j d then extend_inputs reg_value d w else [])"

inductive jstep ::
    "'r register_ops \<Rightarrow> ('r \<Rightarrow> bytes) \<Rightarrow> bytes \<Rightarrow> 'r jstate \<Rightarrow> bytes list \<Rightarrow> 'r jstate \<Rightarrow> bool"
  for ops reg_value seed where
  opened: "OpenJournalSeeded flt (Some ops) seed w = ((Some j, None), w') \<Longrightarrow>
     jstep ops reg_value seed (None, w) (open_inputs seed w) (Some j, w')"
| open_failed: "OpenJournalSeeded flt (Some ops) seed w = ((x, Some e), w') \<Longrightarrow>
     jstep ops reg_value seed (None, w) (open_inputs seed w) (None, w')"
| measured: "MeasureOnce ops rflt aflt ref j w = (res, j', w') \<Longrightarrow>
     jstep ops reg_value seed (Some j, w) (measure_inputs reg_value ref j w) (Some j', w')"
| extend_crashed: "starts ref j d \<Longrightarrow> OpExtend ops (Event d) (JReg w) = (x, r) \<Longrightarrow>
     jstep ops reg_value seed (Some j, w) (extend_inputs reg_value d w) (None, w\<lparr>JReg := r\<rparr>)"
| stopped: "jstep ops reg_value seed (Some j, w) [] (None, w)"
| file_changed: "jstep ops reg_value seed (proc, w) [] (proc, w\<lparr>JFile := f\<rparr>)"

inductive jreach ::
    "'r register_ops \<Rightarrow> ('r \<Rightarrow> bytes) \<Rightarrow> bytes \<Rightarrow> 'r jstate \<Rightarrow> bytes list \<Rightarrow> 'r jstate \<Rightarrow> bool"
  for ops reg_value seed where
  refl: "jreach ops reg_value seed s [] s"
| step: "jreach ops reg_value seed s hs t \<Longrightarrow> jstep ops reg_value seed t hs' u \<Longrightarrow>
     jreach ops reg_value seed s (hs @ hs') u"

text \<open>
  The part of these steps in which the storage keeps its word: an append is written whole or fails
  before it writes, a rollback gets through its rename, the file has no other writer. The measurer
  may still die at any point of a measurement: in the append, where \<open>n\<close> characters of the line reach
  the file (all but the newline alone excepted, see the last section), after the extend, or after a
  failed extend before the rollback.
\<close>

inductive durable_step :: "'r register_ops \<Rightarrow> bytes \<Rightarrow> 'r jstate \<Rightarrow> 'r jstate \<Rightarrow> bool"
  for ops seed where
  opened: "OpenJournalSeeded flt (Some ops) seed w = ((Some j, None), w') \<Longrightarrow>
     durable_step ops seed (None, w) (Some j, w')"
| open_failed: "OpenJournalSeeded flt (Some ops) seed w = ((x, Some e), w') \<Longrightarrow>
     durable_step ops seed (None, w) (None, w')"
| measured: "MeasureOnce ops rflt aflt ref j w = (res, j', w') \<Longrightarrow>
     rflt \<in> {RecOk, RecOpenFails, RecShort 0} \<Longrightarrow> aflt \<in> {AtomicOk, DirSyncFails} \<Longrightarrow>
     durable_step ops seed (Some j, w) (Some j', w')"
| stopped: "durable_step ops seed (Some j, w) (None, w)"
| crash_record: "starts ref j d \<Longrightarrow> n \<noteq> 71 \<Longrightarrow>
     w' = w\<lparr>JFile := Some (file_content w @ take n (d @ [newline]))\<rparr> \<Longrightarrow>
     durable_step ops seed (Some j, w) (None, w')"
| crash_extend: "starts ref j d \<Longrightarrow> OpExtend ops (Event d) (JReg w) = (x, r) \<Longrightarrow>
     w' = w\<lparr>JFile := Some (file_content w @ d @ [newline]), JReg := r\<rparr> \<Longrightarrow>
     durable_step ops seed (Some j, w) (None, w')"

inductive durable_reach :: "'r register_ops \<Rightarrow> bytes \<Rightarrow> 'r jstate \<Rightarrow> 'r jstate \<Rightarrow> bool"
  for ops seed where
  refl: "durable_reach ops seed s s"
| step: "durable_reach ops seed s t \<Longrightarrow> durable_step ops seed t u \<Longrightarrow> durable_reach ops seed s u"

inductive_cases jstep_running: "jstep ops reg_value seed (Some j, w) hs t"
inductive_cases jstep_stopped: "jstep ops reg_value seed (None, w) hs t"

text \<open>The specification: an append-only log of distinct canonical digests.\<close>

inductive log_step :: "string list \<Rightarrow> string list \<Rightarrow> bool" where
  stay: "log_step l l"
| append: "canonical d \<Longrightarrow> d \<notin> set l \<Longrightarrow> log_step l (l @ [d])"

inductive_simps log_step_iff: "log_step l l'"

text \<open>
  What holds under any fault (\<open>log_holds\<close>): the register folds to the log, and a running measurer
  remembers exactly the log. What holds while the storage keeps its word (\<open>jrel\<close>): also the file
  has the log, possibly one digest more while no measurer runs, and possibly a torn line.
\<close>

definition fresh_journal :: "bytes \<Rightarrow> string list \<Rightarrow> journal" where
  "fresh_journal seed l = \<lparr>JSeed = seed, Measured = set l, Order = l, Diverged = False\<rparr>"

definition behind :: "string list \<Rightarrow> string list \<Rightarrow> bool" where
  "behind l ds \<longleftrightarrow> l = ds \<or> (ds \<noteq> [] \<and> l = butlast ds)"

definition file_holds :: "'r jworld \<Rightarrow> string list \<Rightarrow> string \<Rightarrow> bool" where
  "file_holds w ds t \<longleftrightarrow> journal_order ds \<and> (t = [] \<or> torn t) \<and> file_content w = join_lines ds @ t"

definition log_holds ::
    "('r \<Rightarrow> bytes) \<Rightarrow> ('r \<Rightarrow> bool) \<Rightarrow> bytes \<Rightarrow> string list \<Rightarrow> 'r jstate \<Rightarrow> bool" where
  "log_holds reg_value reg_ok seed l s \<longleftrightarrow>
     (case s of (proc, w) \<Rightarrow>
       journal_order l \<and> reg_ok (JReg w) \<and> reg_value (JReg w) = FromDigestsSeeded seed l \<and>
       (case proc of Some j \<Rightarrow> j = fresh_journal seed l | None \<Rightarrow> True))"

definition jrel ::
    "('r \<Rightarrow> bytes) \<Rightarrow> ('r \<Rightarrow> bool) \<Rightarrow> bytes \<Rightarrow> string list \<Rightarrow> 'r jstate \<Rightarrow> bool" where
  "jrel reg_value reg_ok seed l s \<longleftrightarrow>
     (case s of (proc, w) \<Rightarrow>
       reg_ok (JReg w) \<and> reg_value (JReg w) = FromDigestsSeeded seed l \<and>
       (case proc of
          Some j \<Rightarrow> j = fresh_journal seed l \<and> file_holds w l []
        | None \<Rightarrow> (\<exists>ds t. behind l ds \<and> file_holds w ds t)))"

lemma fresh_journal_sel [simp]:
  "JSeed (fresh_journal seed l) = seed" "Measured (fresh_journal seed l) = set l"
  "Order (fresh_journal seed l) = l" "Diverged (fresh_journal seed l) = False"
  by (simp_all add: fresh_journal_def)

lemma fresh_journal_snoc [simp]:
  "fresh_journal seed l\<lparr>Order := l @ [d], Measured := insert d (set l)\<rparr> = fresh_journal seed (l @ [d])"
  "fresh_journal seed l\<lparr>Order := l\<rparr> = fresh_journal seed l"
  by (simp_all add: fresh_journal_def)

lemma file_content_simps [simp]:
  "file_content (w\<lparr>JFile := Some b\<rparr>) = b"
  "file_content (w\<lparr>JReg := r\<rparr>) = file_content w"
  by (simp_all add: file_content_def)

lemma file_holds_reg [simp]: "file_holds (w\<lparr>JReg := r\<rparr>) ds t = file_holds w ds t"
  by (simp add: file_holds_def)

lemma file_holds_parse:
  "file_holds w ds t \<Longrightarrow> parseJournal (file_content w) = (ds, if t = [] then [] else [t])"
  by (auto simp: file_holds_def parse_join parse_torn tornD)

lemma file_holds_append:
  assumes "file_holds w l []" and "canonical d" "d \<notin> set l"
  shows "file_holds (w\<lparr>JFile := Some (file_content w @ d @ [newline])\<rparr>) (l @ [d]) []"
  using assms by (simp add: file_holds_def)

lemma file_holds_partial:
  assumes "file_holds w l []" and "canonical d" "d \<notin> set l" and "n \<noteq> 71"
  shows "\<exists>ds t. behind l ds \<and>
    file_holds (w\<lparr>JFile := Some (file_content w @ take n (d @ [newline]))\<rparr>) ds t"
proof -
  have len: "length d = 71" using assms(2) by (simp add: canonical_def)
  consider "n = 0" | "0 < n" "n < 71" | "71 < n" using assms(4) by linarith
  then show ?thesis
  proof cases
    case 1
    with assms show ?thesis
      by (intro exI [of _ l] exI [of _ "[]"]) (simp add: file_holds_def behind_def)
  next
    case 2
    with assms len show ?thesis
      by (intro exI [of _ l] exI [of _ "take n d"])
        (auto simp: file_holds_def behind_def torn_def)
  next
    case 3
    with assms len file_holds_append [of w l d] show ?thesis
      by (intro exI [of _ "l @ [d]"] exI [of _ "[]"]) (simp add: behind_def)
  qed
qed

lemma startsD: "starts ref (fresh_journal seed l) d \<Longrightarrow> canonical d \<and> d \<notin> set l"
  by (auto simp: starts_def CanonicalDigest_Inr)

lemma behind_log_step: "behind l ds \<Longrightarrow> journal_order ds \<Longrightarrow> log_step l ds"
  by (cases ds rule: rev_cases) (auto simp: behind_def intro: log_step.intros)

lemma log_step_prefix: "log_step l l' \<Longrightarrow> \<exists>ds. l' = l @ ds"
  by (auto simp: log_step_iff)

lemma jrel_order: "jrel v k seed l s \<Longrightarrow> journal_order l"
  by (auto simp: jrel_def behind_def file_holds_def journal_order_butlast
      split: prod.splits option.splits)

lemma log_step_extend:
  "FromDigestsSeeded seed (ds @ [d]) = Extend (FromDigestsSeeded seed ds) (Event d)"
  by simp

lemma join_errs_None [simp]: "join_errs es = None \<longleftrightarrow> es = []"
  by (cases es) (auto split: option.splits)

lemma record_simps:
  "journal_record RecOpenFails d j w = (Some (Errorf ''open''), j, w)"
  "journal_record (RecShort 0) d j w =
     (Some (Errorf ''write''), j, w\<lparr>JFile := Some (file_content w)\<rparr>)"
  "journal_record RecOk d j w =
     (None, j\<lparr>Order := Order j @ [d]\<rparr>, w\<lparr>JFile := Some (file_content w @ d @ [newline])\<rparr>)"
  by (simp_all add: journal_record_def)

lemma unrecord_snoc:
  "aflt \<in> {AtomicOk, DirSyncFails} \<Longrightarrow>
   unrecordLast aflt d (fresh_journal seed l\<lparr>Order := l @ [d]\<rparr>) w =
     (if aflt = AtomicOk then None else Some (Wrap (Errorf ''roll back journal'') (Errorf ''sync dir'')),
      fresh_journal seed l, w\<lparr>JFile := Some (join_lines l)\<rparr>)"
  by (auto simp: unrecordLast_def writeAtomic_def)

context register
begin

lemma log_holdsD:
  assumes "log_holds reg_value reg_ok seed l (proc, w)"
  shows "journal_order l" "reg_ok (JReg w)" "reg_value (JReg w) = FromDigestsSeeded seed l"
    and "proc = Some j \<Longrightarrow> j = fresh_journal seed l"
  using assms by (auto simp: log_holds_def)

text \<open>What any reconciliation does to the register, whatever digests the file holds.\<close>

lemma reconcile_any:
  assumes ok: "reg_ok r" "reg_value r = FromDigestsSeeded seed l"
    and nb: "\<not> fold_break seed S" "set (replay_inputs seed ds) \<subseteq> set S" "set (replay_inputs seed l) \<subseteq> set S"
    and rec: "reconcile ops (fresh_journal seed ds) problems r = (fatal, j', problems', r')"
  shows "reg_ok r' \<and>
    (reg_value r' = FromDigestsSeeded seed l \<and>
       (fatal = None \<and> problems' = [] \<longrightarrow> j' = fresh_journal seed ds \<and> l = ds) \<or>
     reg_value r' = FromDigestsSeeded seed ds \<and> ds \<noteq> [] \<and> l = butlast ds \<and> j' = fresh_journal seed ds)"
proof -
  obtain x r1 where ext: "OpExtension ops r = (x, r1)" by fastforce
  with ok extension_keeps have r1: "reg_ok r1" "reg_value r1 = FromDigestsSeeded seed l" by fastforce+
  show ?thesis
  proof (cases x)
    case (Inl e)
    with rec ext r1 show ?thesis by (auto simp: reconcile_def)
  next
    case (Inr cur)
    with ext ok extension_value have cur: "cur = FromDigestsSeeded seed l" by fastforce
    have "set (replay_inputs seed (butlast ds)) \<subseteq> set S" using set_replay_butlast nb(2) by blast
    with fold_inj [OF nb(1,3)] nb(2)
    have eqs: "cur = FromDigestsSeeded seed ds \<Longrightarrow> l = ds"
      "cur = FromDigestsSeeded seed (butlast ds) \<Longrightarrow> l = butlast ds" by (auto simp: cur)
    consider "cur = FromDigestsSeeded seed ds"
      | "cur \<noteq> FromDigestsSeeded seed ds" "ds \<noteq> []" "cur = FromDigestsSeeded seed (butlast ds)"
      | "cur \<noteq> FromDigestsSeeded seed ds" "ds = [] \<or> cur \<noteq> FromDigestsSeeded seed (butlast ds)" by blast
    then show ?thesis
    proof cases
      case 1
      with Inr rec ext r1 eqs show ?thesis by (auto simp: reconcile_def)
    next
      case 2
      obtain y r2 where y: "OpExtend ops (Event (last ds)) r1 = (y, r2)" by fastforce
      have "FromDigestsSeeded seed ds = Extend (FromDigestsSeeded seed l) (Event (last ds))"
        using log_step_extend [of seed "butlast ds" "last ds"] 2(2) eqs(2) [OF 2(3)] by simp
      with 2 Inr rec ext r1 eqs y extend_ok [OF r1(1)] extend_failed [OF r1(1)] show ?thesis
        by (cases y) (auto simp: reconcile_def)
    next
      case 3
      with Inr rec ext r1 show ?thesis by (auto simp: reconcile_def)
    qed
  qed
qed

lemma open_any:
  assumes h: "log_holds reg_value reg_ok seed l (None, w)"
    and opn: "OpenJournalSeeded flt (Some ops) seed w = ((x, e), w')"
    and nb: "\<not> fold_break seed S" "set (open_inputs seed w) \<subseteq> set S" "set (replay_inputs seed l) \<subseteq> set S"
  shows "\<exists>l'. log_step l l' \<and> log_holds reg_value reg_ok seed l' (if e = None then x else None, w') \<and>
    set (replay_inputs seed l') \<subseteq> set S"
proof (cases "w' = w \<and> e \<noteq> None")
  case True
  then show ?thesis using h nb(3) log_step.stay by (auto simp: log_holds_def)
next
  case False
  obtain ds skipped where p: "parseJournal (file_content w) = (ds, skipped)" by fastforce
  let ?ps = "if skipped = [] then [] else [Sentinel ErrMalformedEntry]"
  obtain fatal j' ps' r' where rec: "reconcile ops (fresh_journal seed ds) ?ps (JReg w) = (fatal, j', ps', r')"
    by (cases "reconcile ops (fresh_journal seed ds) ?ps (JReg w)") auto
  have w': "w' = w\<lparr>JReg := r'\<rparr> \<and> (x, e) = (case fatal of Some e \<Rightarrow> (None, Some e) | None \<Rightarrow> (Some j', join_errs ps'))"
    using opn False rec p
    by (auto simp: OpenJournalSeeded_def fresh_journal_def Let_def split: if_splits option.splits)
  have ds: "set (replay_inputs seed ds) \<subseteq> set S" using nb(2) by (simp add: open_inputs_def p)
  note h' = log_holdsD(1-3) [OF h] and ord = parseJournal_order [OF p]
  from reconcile_any [OF h'(2,3) nb(1) ds nb(3) rec] have ok: "reg_ok r'"
    and "reg_value r' = FromDigestsSeeded seed l \<and> (fatal = None \<and> ps' = [] \<longrightarrow> j' = fresh_journal seed ds \<and> l = ds) \<or>
      reg_value r' = FromDigestsSeeded seed ds \<and> ds \<noteq> [] \<and> l = butlast ds \<and> j' = fresh_journal seed ds"
    by simp_all
  then show ?thesis
  proof (elim conjE disjE)
    assume "reg_value r' = FromDigestsSeeded seed l" "fatal = None \<and> ps' = [] \<longrightarrow> j' = fresh_journal seed ds \<and> l = ds"
    with w' ok h' nb(3) show ?thesis
      by (intro exI [of _ l] conjI log_step.stay) (auto simp: log_holds_def split: option.splits)
  next
    assume 2: "reg_value r' = FromDigestsSeeded seed ds" "ds \<noteq> []" "l = butlast ds" "j' = fresh_journal seed ds"
    then have "log_step l ds" using ord by (intro behind_log_step) (auto simp: behind_def)
    with 2 w' ok ord ds show ?thesis by (auto simp: log_holds_def split: option.splits)
  qed
qed

lemma extend_any:
  assumes h: "log_holds reg_value reg_ok seed l (Some j, w)" and st: "starts ref j d"
    and x: "OpExtend ops (Event d) (JReg w) = (x, r)"
  shows "reg_ok r \<and> canonical d \<and> d \<notin> set l \<and>
    reg_value r = FromDigestsSeeded seed (if x = None then l @ [d] else l) \<and>
    set (replay_inputs seed (l @ [d])) = set (extend_inputs reg_value d w) \<union> set (replay_inputs seed l)"
proof -
  note h' = log_holdsD(1-3) [OF h] and j = log_holdsD(4) [OF h HOL.refl]
  from st have "canonical d \<and> d \<notin> set l" using j startsD by blast
  moreover have "reg_ok r \<and> reg_value r = FromDigestsSeeded seed (if x = None then l @ [d] else l)"
    using h'(3) x extend_ok [OF h'(2), of "Event d" r] extend_failed [OF h'(2), of "Event d" _ r]
    by (cases x) simp_all
  ultimately show ?thesis by (auto simp: extend_inputs_def set_replay_snoc h')
qed

text \<open>Whatever the append and the rollback do to the file, the journal in memory follows the register.\<close>

lemma measure_memory:
  assumes "starts ref (fresh_journal seed l) d"
    and run: "MeasureOnce ops rflt aflt ref (fresh_journal seed l) w = (res, j', w')"
  shows "j' = fresh_journal seed l \<and> JReg w' = JReg w \<or>
    (\<exists>x r. OpExtend ops (Event d) (JReg w) = (x, r) \<and> JReg w' = r \<and>
       j' = fresh_journal seed (if x = None then l @ [d] else l))"
proof (cases "rflt = RecOk")
  case False
  with assms show ?thesis
    by (cases rflt) (auto simp: MeasureOnce_def starts_def journal_record_def Let_def)
next
  case True
  obtain x r where x: "OpExtend ops (Event d) (JReg w) = (x, r)" by fastforce
  with True assms show ?thesis
    by (cases x) (auto simp: MeasureOnce_def starts_def journal_record_def unrecordLast_def writeAtomic_def Let_def
        split: atomic_fault.splits)
qed

lemma measure_any:
  assumes h: "log_holds reg_value reg_ok seed l (Some j, w)"
    and run: "MeasureOnce ops rflt aflt ref j w = (res, j', w')"
  shows "\<exists>l'. log_step l l' \<and> log_holds reg_value reg_ok seed l' (Some j', w') \<and>
    set (replay_inputs seed l') \<subseteq> set (measure_inputs reg_value ref j w) \<union> set (replay_inputs seed l)"
proof (cases "\<exists>d. starts ref j d")
  case False
  then have "j' = j \<and> w' = w"
    using run by (cases "CanonicalDigest ref") (auto simp: MeasureOnce_def starts_def split: if_splits)
  with h show ?thesis using log_step.stay [of l] by auto
next
  case True
  then obtain d where d: "starts ref j d" by blast
  then have hs: "measure_inputs reg_value ref j w = extend_inputs reg_value d w"
    by (auto simp: measure_inputs_def starts_def)
  note h' = log_holdsD(1-3) [OF h] and j = log_holdsD(4) [OF h HOL.refl]
  from measure_memory d run have mem: "j' = fresh_journal seed l \<and> JReg w' = JReg w \<or>
    (\<exists>x r. OpExtend ops (Event d) (JReg w) = (x, r) \<and> JReg w' = r \<and>
       j' = fresh_journal seed (if x = None then l @ [d] else l))" unfolding j by blast
  then show ?thesis
  proof (elim disjE exE conjE)
    assume "j' = fresh_journal seed l" "JReg w' = JReg w"
    with h' show ?thesis by (intro exI [of _ l] conjI log_step.stay) (auto simp: log_holds_def)
  next
    fix x r assume x: "OpExtend ops (Event d) (JReg w) = (x, r)" "JReg w' = r"
      "j' = fresh_journal seed (if x = None then l @ [d] else l)"
    note e = extend_any [OF h d x(1)]
    show ?thesis
    proof (cases x)
      case None
      with e x h' hs show ?thesis
        by (intro exI [of _ "l @ [d]"] conjI log_step.append) (auto simp: log_holds_def)
    next
      case (Some y)
      with e x h' show ?thesis by (intro exI [of _ l] conjI log_step.stay) (auto simp: log_holds_def)
    qed
  qed
qed

lemma step_any:
  assumes "jstep ops reg_value seed s hs s'" and "log_holds reg_value reg_ok seed l s"
    and "\<not> fold_break seed S" and "set (hs @ replay_inputs seed l) \<subseteq> set S"
  shows "\<exists>l'. log_step l l' \<and> log_holds reg_value reg_ok seed l' s' \<and> set (replay_inputs seed l') \<subseteq> set S"
  using assms
proof (induction rule: jstep.induct)
  case (opened flt w j w')
  with open_any [of seed l w flt "Some j" None w' S] show ?case by auto
next
  case (open_failed flt w x e w')
  with open_any [of seed l w flt x "Some e" w' S] show ?case by auto
next
  case (measured rflt aflt ref j w res j' w')
  with measure_any [of seed l j w rflt aflt ref res j' w'] show ?case by fastforce
next
  case (extend_crashed ref j d w x r)
  note e = extend_any [OF extend_crashed(3,1,2)] and h' = log_holdsD(1-3) [OF extend_crashed(3)]
  from e h' extend_crashed(5) show ?case
    by (cases x; intro exI [of _ "if x = None then l @ [d] else l"] conjI)
      (auto simp: log_holds_def intro: log_step.intros)
next
  case (stopped j w)
  then show ?case by (intro exI [of _ l] conjI log_step.stay) (auto simp: log_holds_def)
next
  case (file_changed proc w f)
  then show ?case by (intro exI [of _ l] conjI log_step.stay) (auto simp: log_holds_def)
qed

lemma reach_any:
  assumes "jreach ops reg_value seed s hs s'" and "log_holds reg_value reg_ok seed l s"
    and "\<not> fold_break seed S" and "set (hs @ replay_inputs seed l) \<subseteq> set S"
  shows "\<exists>ds. log_holds reg_value reg_ok seed (l @ ds) s' \<and> set (replay_inputs seed (l @ ds)) \<subseteq> set S"
  using assms
proof (induction rule: jreach.induct)
  case (refl s)
  then show ?case by (intro exI [of _ "[]"]) simp
next
  case (step s hs t hs' u)
  then obtain ds where ds: "log_holds reg_value reg_ok seed (l @ ds) t" "set (replay_inputs seed (l @ ds)) \<subseteq> set S"
    by auto
  from step.prems have "set (hs' @ replay_inputs seed (l @ ds)) \<subseteq> set S" using ds(2) by auto
  from step_any [OF step.hyps(2) ds(1) step.prems(2) this] obtain l' where
    l': "log_step (l @ ds) l'" "log_holds reg_value reg_ok seed l' u" "set (replay_inputs seed l') \<subseteq> set S" by blast
  then obtain es where "l' = l @ ds @ es" using log_step_prefix by fastforce
  with l' show ?case by blast
qed

lemma reconcile_behind:
  assumes ok: "reg_ok r" "reg_value r = FromDigestsSeeded seed l" and "behind l ds"
    and rec: "reconcile ops (fresh_journal seed ds) problems r = (fatal, j', problems', r')"
  shows "reg_ok r' \<and> j' = fresh_journal seed ds \<and>
    (fatal = None \<and> problems' = problems \<and> reg_value r' = FromDigestsSeeded seed ds \<or>
     (fatal \<noteq> None \<or> problems' \<noteq> []) \<and> reg_value r' = reg_value r)"
proof -
  obtain x r1 where ext: "OpExtension ops r = (x, r1)" by fastforce
  with ok extension_keeps have r1: "reg_ok r1" "reg_value r1 = reg_value r" by blast+
  show ?thesis
  proof (cases x)
    case (Inl e)
    with rec ext r1 show ?thesis by (auto simp: reconcile_def)
  next
    case (Inr cur)
    with ext ok extension_value have cur: "cur = FromDigestsSeeded seed l" by fastforce
    show ?thesis
    proof (cases "cur = FromDigestsSeeded seed ds")
      case True
      with Inr rec ext r1 ok cur show ?thesis by (simp add: reconcile_def)
    next
      case False
      with cur \<open>behind l ds\<close> have ds: "ds \<noteq> []" "l = butlast ds" by (auto simp: behind_def)
      then have snoc: "ds = l @ [last ds]" by simp
      obtain y r2 where x2: "OpExtend ops (Event (last ds)) r1 = (y, r2)" by fastforce
      have run: "reconcile ops (fresh_journal seed ds) problems r =
          (map_option (Wrap (Errorf ''finish the interrupted extend'')) y, fresh_journal seed ds, problems, r2)"
        using False Inr ext cur ds x2 by (cases y) (simp_all add: reconcile_def)
      show ?thesis
      proof (cases y)
        case None
        have "FromDigestsSeeded seed ds = Extend (FromDigestsSeeded seed l) (Event (last ds))"
          by (subst snoc) (rule log_step_extend)
        with None x2 r1 ok extend_ok [of r1] run rec show ?thesis by simp
      next
        case (Some e)
        with x2 r1 extend_failed [of r1] run rec show ?thesis by auto
      qed
    qed
  qed
qed

lemma open_refines:
  assumes rel: "jrel reg_value reg_ok seed l (None, w)"
    and opn: "OpenJournalSeeded flt (Some ops) seed w = ((x, e), w')"
  shows "\<exists>l'. log_step l l' \<and> jrel reg_value reg_ok seed l' (if e = None then x else None, w')"
proof (cases "w' = w \<and> e \<noteq> None")
  case True
  then show ?thesis using rel log_step.stay by auto
next
  case False
  from rel obtain ds t where w: "behind l ds" "file_holds w ds t" "reg_ok (JReg w)"
    "reg_value (JReg w) = FromDigestsSeeded seed l"
    by (auto simp: jrel_def)
  let ?ps = "if t = [] then [] else [Sentinel ErrMalformedEntry]"
  obtain fatal j' ps' r' where rec:
    "reconcile ops (fresh_journal seed ds) ?ps (JReg w) = (fatal, j', ps', r')"
    by (cases "reconcile ops (fresh_journal seed ds) ?ps (JReg w)") auto
  have "w' = w\<lparr>JReg := r'\<rparr> \<and> (x, e) = (case fatal of Some e \<Rightarrow> (None, Some e) | None \<Rightarrow> (Some j', join_errs ps'))"
    using opn False rec file_holds_parse [OF w(2)]
    by (auto simp: OpenJournalSeeded_def fresh_journal_def Let_def
        split: if_splits option.splits)
  moreover note reconcile_behind [OF w(3,4,1) rec]
  moreover have "log_step l ds" using w behind_log_step by (auto simp: file_holds_def)
  moreover have "behind ds ds" by (simp add: behind_def)
  ultimately show ?thesis
    using w log_step.stay [of l]
    by (cases "fatal = None \<and> ps' = ?ps \<and> reg_value r' = FromDigestsSeeded seed ds")
      (auto simp: jrel_def split: option.splits if_splits)
qed

lemma measure_refines:
  assumes rel: "jrel reg_value reg_ok seed l (Some j, w)"
    and run: "MeasureOnce ops rflt aflt ref j w = (res, j', w')"
    and flt: "rflt \<in> {RecOk, RecOpenFails, RecShort 0}" "aflt \<in> {AtomicOk, DirSyncFails}"
  shows "\<exists>l'. log_step l l' \<and> jrel reg_value reg_ok seed l' (Some j', w')"
proof (cases "\<exists>d. starts ref j d \<and> rflt = RecOk")
  case False
  have "j' = j \<and> (w' = w \<or> w' = w\<lparr>JFile := Some (file_content w)\<rparr>)"
    using run flt False by (cases "CanonicalDigest ref")
      (auto simp: MeasureOnce_def starts_def record_simps split: if_splits)
  then show ?thesis using rel log_step.stay [of l] by (auto simp: jrel_def file_holds_def)
next
  case True
  then obtain d where d: "starts ref j d" "rflt = RecOk" by blast
  from rel have j: "j = fresh_journal seed l" and w: "file_holds w l []" "reg_ok (JReg w)"
    "reg_value (JReg w) = FromDigestsSeeded seed l"
    by (auto simp: jrel_def)
  from d j have can: "canonical d" "d \<notin> set l" using startsD by blast+
  obtain y r where x: "OpExtend ops (Event d) (JReg w) = (y, r)" by fastforce
  let ?w1 = "w\<lparr>JFile := Some (file_content w @ d @ [newline])\<rparr>"
  have meas: "MeasureOnce ops rflt aflt ref j w = (case y of
      None \<Rightarrow> (Inr True, fresh_journal seed (l @ [d]), ?w1\<lparr>JReg := r\<rparr>)
    | Some e \<Rightarrow> (case unrecordLast aflt d (j\<lparr>Order := l @ [d]\<rparr>) (?w1\<lparr>JReg := r\<rparr>) of
          (None, j3, w3) \<Rightarrow> (Inl (Wrap (Errorf ''extend'') e), j3, w3)
        | (Some e3, j3, w3) \<Rightarrow> (Inl (Wrap (Wrap (Errorf ''extend'') e) e3), j3, w3)))"
    using d x j by (simp add: MeasureOnce_def starts_def record_simps fresh_journal_def
        split: option.splits)
  show ?thesis
  proof (cases y)
    case None
    with meas run have res: "j' = fresh_journal seed (l @ [d])" "w' = ?w1\<lparr>JReg := r\<rparr>" by auto
    from x None w extend_ok have "reg_ok r" "reg_value r = Extend (reg_value (JReg w)) (Event d)"
      by blast+
    with res w can file_holds_append [OF w(1) can] show ?thesis
      by (intro exI [of _ "l @ [d]"] conjI log_step.append) (auto simp: jrel_def)
  next
    case (Some e)
    from x Some w extend_failed have "reg_ok r" "reg_value r = reg_value (JReg w)" by blast+
    moreover have "j' = fresh_journal seed l \<and> w' = ?w1\<lparr>JReg := r\<rparr>\<lparr>JFile := Some (join_lines l)\<rparr>"
      using meas run unfolding Some j by (simp add: unrecord_snoc [OF flt(2)] split: if_splits)
    ultimately show ?thesis using w
      by (intro exI [of _ l] conjI log_step.stay) (auto simp: jrel_def file_holds_def)
  qed
qed

lemma crash_refines:
  assumes rel: "jrel reg_value reg_ok seed l (Some j, w)" and st: "starts ref j d"
  shows "n \<noteq> 71 \<Longrightarrow>
      jrel reg_value reg_ok seed l (None, w\<lparr>JFile := Some (file_content w @ take n (d @ [newline]))\<rparr>)"
    and "OpExtend ops (Event d) (JReg w) = (x, r) \<Longrightarrow>
      \<exists>l'. log_step l l' \<and>
        jrel reg_value reg_ok seed l' (None, w\<lparr>JFile := Some (file_content w @ d @ [newline]), JReg := r\<rparr>)"
proof -
  from rel have j: "j = fresh_journal seed l" and w: "file_holds w l []" "reg_ok (JReg w)"
    "reg_value (JReg w) = FromDigestsSeeded seed l"
    by (auto simp: jrel_def)
  from st j have can: "canonical d" "d \<notin> set l" using startsD by blast+
  show "jrel reg_value reg_ok seed l (None, w\<lparr>JFile := Some (file_content w @ take n (d @ [newline]))\<rparr>)"
    if "n \<noteq> 71"
    using file_holds_partial [OF w(1) can that] w by (simp add: jrel_def)
  assume x: "OpExtend ops (Event d) (JReg w) = (x, r)"
  note after = file_holds_append [OF w(1) can]
  have beh: "behind l (l @ [d])" "behind (l @ [d]) (l @ [d])" by (auto simp: behind_def)
  show "\<exists>l'. log_step l l' \<and>
    jrel reg_value reg_ok seed l' (None, w\<lparr>JFile := Some (file_content w @ d @ [newline]), JReg := r\<rparr>)"
  proof (cases x)
    case None
    with x w extend_ok have "reg_ok r" "reg_value r = Extend (reg_value (JReg w)) (Event d)" by blast+
    with w after beh can show ?thesis
      by (intro exI [of _ "l @ [d]"] conjI log_step.append)
        (auto simp: jrel_def file_holds_def)
  next
    case (Some e)
    with x w extend_failed have "reg_ok r" "reg_value r = reg_value (JReg w)" by blast+
    with w after beh show ?thesis
      by (intro exI [of _ l] conjI log_step.stay) (auto simp: jrel_def file_holds_def)
  qed
qed

lemma step_refines:
  assumes "durable_step ops seed s s'" and "jrel reg_value reg_ok seed l s"
  shows "\<exists>l'. log_step l l' \<and> jrel reg_value reg_ok seed l' s'"
  using assms
proof (induction rule: durable_step.induct)
  case (opened flt w j w')
  with open_refines show ?case by fastforce
next
  case (open_failed flt w x e w')
  with open_refines show ?case by fastforce
next
  case (measured rflt aflt ref j w res j' w')
  with measure_refines show ?case by blast
next
  case (stopped j w)
  then show ?case
    by (intro exI [of _ l] conjI log_step.stay) (auto simp: jrel_def behind_def)
next
  case (crash_record ref j d n w' w)
  with crash_refines(1) log_step.stay show ?case by blast
next
  case (crash_extend ref j d w x r w')
  with crash_refines(2) show ?case by blast
qed

lemma reach_refines:
  "durable_reach ops seed s s' \<Longrightarrow> jrel reg_value reg_ok seed l s \<Longrightarrow>
     \<exists>ds. journal_order (l @ ds) \<and> jrel reg_value reg_ok seed (l @ ds) s'"
proof (induction rule: durable_reach.induct)
  case (refl s)
  then show ?case by (intro exI [of _ "[]"]) (simp add: jrel_order)
next
  case (step s t u)
  then obtain ds where "jrel reg_value reg_ok seed (l @ ds) t" by blast
  from step_refines [OF step.hyps(2) this] obtain l' where
    l': "log_step (l @ ds) l'" "jrel reg_value reg_ok seed l' u" by blast
  then obtain es where "l' = l @ ds @ es" using log_step_prefix by fastforce
  with l' jrel_order show ?case by blast
qed

end

section \<open>A working register\<close>

definition tdx_ready :: "bytes \<Rightarrow> tdx_dev" where
  "tdx_ready v = \<lparr>DevValue = v, DevScript = []\<rparr>"

lemma tdx_ready_ops [simp]:
  "OpExtend TDXRegister (Event d) (tdx_ready v) = (None, tdx_ready (Extend v (Event d)))"
  "length v = Size \<Longrightarrow> OpExtension TDXRegister (tdx_ready v) = (Inr v, tdx_ready v)"
  by (simp_all add: TDXRegister_def tdxRegister_Extend_def tdxRegister_Extension_def dev_next_def
      tdx_ready_def)

lemma tdx_ready_ok [simp]: "dev_ok (tdx_ready v) \<longleftrightarrow> length v = Size" "DevValue (tdx_ready v) = v"
  "DevScript (tdx_ready v) = []"
  by (simp_all add: dev_ok_def tdx_ready_def)

lemma open_ready:
  assumes "parseJournal (file_content w) = (ds, skipped)" and "JReg w = tdx_ready v" "length v = Size"
    and ds: "ds \<noteq> []" "v = FromDigestsSeeded seed (butlast ds)"
  shows "OpenJournalSeeded OpenOk (Some TDXRegister) seed w =
    ((Some (fresh_journal seed ds), join_errs (if skipped = [] then [] else [Sentinel ErrMalformedEntry])),
     w\<lparr>JReg := tdx_ready (FromDigestsSeeded seed ds)\<rparr>)"
proof -
  have "FromDigestsSeeded seed ds = Extend v (Event (last ds))"
    using log_step_extend [of seed "butlast ds" "last ds"] ds by simp
  then show ?thesis
    using assms tdx_ready_ops(1) [of "last ds" v]
    by (cases "v = FromDigestsSeeded seed ds")
      (simp_all add: OpenJournalSeeded_def reconcile_def fresh_journal_def Let_def)
qed

lemma open_diverges:
  assumes "parseJournal (file_content w) = (ds, skipped)" and "JReg w = tdx_ready v" "length v = Size"
    and "v \<noteq> FromDigestsSeeded seed ds" "v \<noteq> FromDigestsSeeded seed (butlast ds)"
  shows "OpenJournalSeeded OpenOk (Some TDXRegister) seed w =
    ((Some (fresh_journal seed ds\<lparr>Diverged := True\<rparr>),
      join_errs ((if skipped = [] then [] else [Sentinel ErrMalformedEntry]) @ [Sentinel ErrRegisterDiverged])), w)"
proof -
  have "w\<lparr>JReg := tdx_ready v\<rparr> = w" using assms(2) by (cases w) simp
  with assms show ?thesis
    by (simp add: OpenJournalSeeded_def reconcile_def fresh_journal_def Let_def)
qed

lemma measure_ready:
  assumes "canonical d" "d \<notin> set l" and "JReg w = tdx_ready v"
  shows "MeasureOnce TDXRegister RecOk aflt d (fresh_journal seed l) w =
    (Inr True, fresh_journal seed (l @ [d]),
     w\<lparr>JFile := Some (file_content w @ d @ [newline]), JReg := tdx_ready (Extend v (Event d))\<rparr>)"
  using assms by (simp add: MeasureOnce_def record_simps fresh_journal_def)

lemma errors_is_join: "join_errs (es @ [Sentinel s]) = Some e \<Longrightarrow> errors_is e s"
  by (induction es arbitrary: e) (auto split: option.splits)

text \<open>A next open of a world whose register neither fold explains.\<close>

definition reopen_diverges :: "bytes \<Rightarrow> tdx_dev jworld \<Rightarrow> bool" where
  "reopen_diverges seed w =
     (case OpenJournalSeeded OpenOk (Some TDXRegister) seed w of
        ((Some j, Some e), w') \<Rightarrow> Diverged j \<and> errors_is e ErrRegisterDiverged
      | _ \<Rightarrow> False)"

lemma reopen_divergesI:
  assumes "parseJournal (file_content w) = (ds, skipped)" and "JReg w = tdx_ready v" "length v = Size"
    and "v \<noteq> FromDigestsSeeded seed ds" "v \<noteq> FromDigestsSeeded seed (butlast ds)"
  shows "reopen_diverges seed w"
  using errors_is_join
  by (auto simp: reopen_diverges_def open_diverges [OF assms] split: option.splits)

lemma merged_line:
  assumes "journal_order ds" "canonical d" "canonical e"
  shows "parseJournal (join_lines ds @ d @ e @ [newline]) = (ds, [d @ e])"
proof -
  have plain: "set (d @ e) \<subseteq> set plain_chars" using canonical_plain assms by auto
  have "newline \<notin> set (d @ e)" using canonical_not_in assms by auto
  then have "split_on newline (join_lines ds @ d @ e @ [newline]) = ds @ [d @ e, []]"
    using split_on_append [of newline "d @ e" "[]"] assms
    by (simp add: split_join_lines [OF journal_order_newline])
  moreover have "d @ e \<noteq> []" "trim_space (d @ e) = d @ e" "\<not> canonical (d @ e)"
    using assms trim_space_plain [OF plain] by (auto simp: canonical_def)
  ultimately show ?thesis
    using parse_lines_fresh [of "[]" ds "[]"] assms
    by (simp add: parseJournal_def parse_line_simps)
qed

section \<open>Sample states\<close>

definition sample_digest :: "char \<Rightarrow> string" where
  "sample_digest c = ''sha256:'' @ replicate 64 c"

definition boot_world :: "tdx_dev jworld" where
  "boot_world = \<lparr>JFile = None, JReg = tdx_ready Zero\<rparr>"

lemma sample_canonical [simp]: "c \<in> set hex_digits \<Longrightarrow> canonical (sample_digest c)"
  by (simp add: sample_digest_def canonical_split set_replicate_conv_if)

lemma sample_distinct [simp]: "sample_digest c = sample_digest d \<longleftrightarrow> c = d"
  by (simp add: sample_digest_def)

lemma sample_hex [simp]: "CHR ''a'' \<in> set hex_digits" "CHR ''b'' \<in> set hex_digits" "CHR ''c'' \<in> set hex_digits"
  by (simp_all add: hex_digits_def)

lemma boot_sel [simp]:
  "JFile boot_world = None" "JReg boot_world = tdx_ready Zero" "file_content boot_world = []"
  by (simp_all add: boot_world_def file_content_def)

lemma open_boot:
  "OpenJournalSeeded OpenOk (Some TDXRegister) Zero boot_world = ((Some (fresh_journal Zero []), None), boot_world)"
  using parse_join [of "[]"]
  by (simp add: OpenJournalSeeded_def reconcile_def fresh_journal_def boot_world_def file_content_def)

lemma jrel_boot: "jrel DevValue dev_ok Zero [] (None, boot_world)"
  by (auto simp: jrel_def behind_def file_holds_def)

section \<open>Properties\<close>

text \<open>What any run leaves in the register and in memory.\<close>

lemma any_run:
  assumes "jreach TDXRegister DevValue seed (None, w0) hs (proc, w)"
    and "dev_ok (JReg w0)" and "DevValue (JReg w0) = seed"
  shows "(\<exists>log. journal_order log \<and> DevValue (JReg w) = FromDigestsSeeded seed log \<and>
      (case proc of Some j \<Rightarrow> Digests j = log \<and> \<not> Diverged j | None \<Rightarrow> True)) \<or>
    fold_break seed hs"
proof (cases "fold_break seed hs")
  case False
  have "log_holds DevValue dev_ok seed [] (None, w0)" using assms by (simp add: log_holds_def)
  from tdx_register.reach_any [OF assms(1) this False] obtain log
    where "log_holds DevValue dev_ok seed log (proc, w)" by auto
  then show ?thesis
    by (intro disjI1 exI [of _ log]) (auto simp: log_holds_def Digests_def split: option.splits)
qed simp

text \<open>What a run leaves behind while the storage keeps its word.\<close>

lemma durable_run:
  assumes "durable_reach TDXRegister seed (None, w0) (proc, w)"
    and "JFile w0 = None" and "dev_ok (JReg w0)" and "DevValue (JReg w0) = seed"
  shows "\<exists>log. jrel DevValue dev_ok seed log (proc, w)"
proof -
  have "jrel DevValue dev_ok seed [] (None, w0)"
    using assms by (auto simp: jrel_def behind_def file_holds_def file_content_def)
  from tdx_register.reach_refines [OF assms(1) this] show ?thesis by auto
qed

text \<open>The durable steps are steps: a crash in an append is a change of the file and a stop.\<close>

lemma durable_step_jreach:
  "durable_step ops seed s s' \<Longrightarrow> \<exists>hs. jreach ops reg_value seed s hs s'"
proof (induction rule: durable_step.induct)
  case (crash_record ref j d n w' w)
  have "jreach ops reg_value seed (Some j, w) (([] @ []) @ []) (None, w')"
    unfolding crash_record(3)
    by (rule jreach.step, rule jreach.step, rule jreach.refl, rule jstep.file_changed, rule jstep.stopped)
  then show ?case by blast
next
  case (crash_extend ref j d w x r w')
  have "w' = w\<lparr>JReg := r\<rparr>\<lparr>JFile := Some (file_content w @ d @ [newline])\<rparr>" using crash_extend(3) by simp
  then have "jreach ops reg_value seed (Some j, w) (([] @ extend_inputs reg_value d w) @ []) (None, w')"
    using jreach.step [OF jreach.step [OF jreach.refl jstep.extend_crashed [OF crash_extend(1,2)]] jstep.file_changed]
    by metis
  then show ?case by blast
qed (blast intro: jreach.intros jstep.intros)+

text \<open>
  C1: exactly-once. Take a register at its seed, any journal file, and any run of a fail-closed
  measurer: opens, measurements with any system call of the append or of the rollback failing, crashes
  at any point, and changes of the file to any content in between. The TDX register then folds to
  a list of distinct canonical digests, so no digest was extended twice and nothing but digests was
  extended, and a running journal reports exactly that list and is not diverged; or the strings hashed in
  the run hold a SHA-384 collision or a preimage of the seed. The register device is taken to
  behave as \<open>register.go\<close> documents: an extend that reports an error did not land.
\<close>

theorem journal_exactly_once:
  assumes "jreach TDXRegister DevValue seed (None, w0) hs (proc, w)"
    and "dev_ok (JReg w0)" and "DevValue (JReg w0) = seed"
  shows "(\<exists>log. journal_order log \<and> DevValue (JReg w) = FromDigestsSeeded seed log \<and>
      (case proc of Some j \<Rightarrow> Digests j = log \<and> \<not> Diverged j | None \<Rightarrow> True)) \<or>
    fold_break seed hs"
  using assms by (rule any_run)

text \<open>A measurement whose sync fails, then one that succeeds: only the second is in the log.\<close>

theorem journal_exactly_once_witness:
  "(\<exists>log. journal_order log \<and>
      Extend Zero (Event (sample_digest CHR ''b'')) = FromDigestsSeeded Zero log \<and> log = [sample_digest CHR ''b'']) \<or>
   fold_break Zero
     [bytes_of_string (sample_digest CHR ''a''), Zero @ Event (sample_digest CHR ''a''),
      bytes_of_string (sample_digest CHR ''b''), Zero @ Event (sample_digest CHR ''b'')]"
proof -
  let ?a = "sample_digest CHR ''a''" and ?b = "sample_digest CHR ''b''" and ?j = "fresh_journal Zero []"
  let ?w1 = "boot_world\<lparr>JFile := Some (?a @ [newline])\<rparr>"
  let ?w2 = "?w1\<lparr>JFile := Some (?a @ newline # ?b @ [newline]), JReg := tdx_ready (Extend Zero (Event ?b))\<rparr>"
  have m1: "MeasureOnce TDXRegister RecSyncFails AtomicOk ?a ?j boot_world =
      (Inl (Wrap (Errorf ''record before extending'') (Errorf ''sync'')), ?j, ?w1)"
    by (simp add: MeasureOnce_def journal_record_def Let_def)
  have m2: "MeasureOnce TDXRegister RecOk AtomicOk ?b ?j ?w1 = (Inr True, fresh_journal Zero [?b], ?w2)"
    using measure_ready [of ?b "[]" ?w1 Zero AtomicOk Zero] by simp
  have "jreach TDXRegister DevValue Zero (None, boot_world)
      ((([] @ open_inputs Zero boot_world) @ measure_inputs DevValue ?a ?j boot_world) @ measure_inputs DevValue ?b ?j ?w1)
      (Some (fresh_journal Zero [?b]), ?w2)"
    by (rule jreach.step, rule jreach.step, rule jreach.step, rule jreach.refl, rule jstep.opened, rule open_boot,
        rule jstep.measured, rule m1, rule jstep.measured, rule m2)
  from journal_exactly_once [OF this] show ?thesis
    using parse_join [of "[]"]
    by (simp add: Digests_def open_inputs_def measure_inputs_def extend_inputs_def starts_def)
qed

text \<open>
  C14: refinement. Every step of the fail-closed measurer over the TDX register, with any fault of the
  append, the rollback, the open and the file, and a crash in the middle of a measurement, either
  leaves the abstract log of measured digests alone or appends one canonical digest that was not
  in it; the register folds to the log before and after, and a running measurer remembers it. The
  alternative is that the strings hashed for the step and for the log so far hold a SHA-384
  collision or a preimage of the seed.
\<close>

theorem journal_refines_log:
  assumes "jstep TDXRegister DevValue seed s hs s'" and "log_holds DevValue dev_ok seed l s"
  shows "(\<exists>l'. log_step l l' \<and> log_holds DevValue dev_ok seed l' s') \<or> fold_break seed (hs @ replay_inputs seed l)"
  using tdx_register.step_any [OF assms, of "hs @ replay_inputs seed l"] by blast

text \<open>A measurer that reopens a file with one digest more than the register.\<close>

theorem journal_refines_log_witness:
  "(\<exists>l'. log_step [] l' \<and> log_holds DevValue dev_ok Zero l'
      (Some (fresh_journal Zero [sample_digest CHR ''a'']),
       boot_world\<lparr>JFile := Some (sample_digest CHR ''a'' @ [newline]),
         JReg := tdx_ready (Extend Zero (Event (sample_digest CHR ''a'')))\<rparr>)) \<or>
   fold_break Zero [bytes_of_string (sample_digest CHR ''a''), Zero @ Event (sample_digest CHR ''a'')]"
proof -
  let ?a = "sample_digest CHR ''a''"
  let ?w = "boot_world\<lparr>JFile := Some (?a @ [newline])\<rparr>"
  have p: "parseJournal (file_content ?w) = ([?a], [])" "parseJournal (?a @ [newline]) = ([?a], [])"
    using parse_join [of "[?a]"] by simp_all
  have "OpenJournalSeeded OpenOk (Some TDXRegister) Zero ?w =
      ((Some (fresh_journal Zero [?a]), None), ?w\<lparr>JReg := tdx_ready (Extend Zero (Event ?a))\<rparr>)"
    using open_ready [OF p(1), of Zero Zero] by simp
  then have "jstep TDXRegister DevValue Zero (None, ?w) (open_inputs Zero ?w)
      (Some (fresh_journal Zero [?a]), ?w\<lparr>JReg := tdx_ready (Extend Zero (Event ?a))\<rparr>)"
    by (rule jstep.opened)
  moreover have "log_holds DevValue dev_ok Zero [] (None, ?w)" by (simp add: log_holds_def)
  ultimately have "(\<exists>l'. log_step [] l' \<and> log_holds DevValue dev_ok Zero l'
      (Some (fresh_journal Zero [?a]), ?w\<lparr>JReg := tdx_ready (Extend Zero (Event ?a))\<rparr>)) \<or>
      fold_break Zero (open_inputs Zero ?w @ replay_inputs Zero [])"
    by (rule journal_refines_log)
  then show ?thesis by (simp add: open_inputs_def p)
qed

text \<open>
  C32: recovery, while the storage keeps its word. Take a fresh boot (no journal file, the register at
  its seed) and any run in which an append is written whole or fails before it writes anything, a
  rollback gets through its rename, nobody else writes the file, and the process may die at any point
  (but not so that an append loses just its newline). When the measurer is down and the register
  works again, opening the journal returns one that is not diverged and holds the digests
  of the file; the only possible error is the torn line of a crash, which makes no difference to
  the journal. The register held all of these digests or all but the last, and holds all of them
  afterwards: an interrupted extend has been finished, once.
\<close>

theorem journal_recovers:
  assumes "durable_reach TDXRegister seed (None, w0) (None, w)"
    and "JFile w0 = None" and "dev_ok (JReg w0)" and "DevValue (JReg w0) = seed" and "DevScript (JReg w) = []"
  shows "\<exists>ds. ReadJournal OpenOk w = Inr ds \<and> journal_order ds \<and>
    (DevValue (JReg w) = FromDigestsSeeded seed ds \<or>
     ds \<noteq> [] \<and> DevValue (JReg w) = FromDigestsSeeded seed (butlast ds)) \<and>
    OpenJournalSeeded OpenOk (Some TDXRegister) seed w =
      ((Some (fresh_journal seed ds),
        if snd (parseJournal (file_content w)) = [] then None else Some (Sentinel ErrMalformedEntry)),
       w\<lparr>JReg := tdx_ready (FromDigestsSeeded seed ds)\<rparr>)"
proof -
  from durable_run [OF assms(1-4)] obtain l ds t where
    rel: "behind l ds" "file_holds w ds t" "length (DevValue (JReg w)) = Size"
      "DevValue (JReg w) = FromDigestsSeeded seed l"
    by (auto simp: jrel_def dev_ok_def)
  define v where "v = DevValue (JReg w)"
  have r: "JReg w = tdx_ready v" using assms(5) by (cases "JReg w") (simp add: tdx_ready_def v_def)
  note p = file_holds_parse [OF rel(2)]
  have rd: "ReadJournal OpenOk w = Inr ds"
    using p parse_join [of "[]"] by (auto simp: ReadJournal_def file_content_def split: option.splits)
  have "OpenJournalSeeded OpenOk (Some TDXRegister) seed w =
      ((Some (fresh_journal seed ds), join_errs (if t = [] then [] else [Sentinel ErrMalformedEntry])),
       w\<lparr>JReg := tdx_ready (FromDigestsSeeded seed ds)\<rparr>)"
  proof (cases "v = FromDigestsSeeded seed ds")
    case True
    with r rel p show ?thesis
      by (simp add: v_def OpenJournalSeeded_def reconcile_def fresh_journal_def Let_def)
  next
    case False
    with rel have "ds \<noteq> []" "v = FromDigestsSeeded seed (butlast ds)" by (auto simp: behind_def v_def)
    with open_ready [OF p r] rel show ?thesis by (simp add: v_def)
  qed
  with rd rel p show ?thesis
    by (intro exI [of _ ds]) (auto simp: behind_def file_holds_def)
qed

text \<open>A process that dies between the record and the extend.\<close>

theorem journal_recovers_witness:
  "\<exists>ds. ReadJournal OpenOk (boot_world\<lparr>JFile := Some (sample_digest CHR ''a'' @ [newline])\<rparr>) = Inr ds \<and>
    ds = [sample_digest CHR ''a''] \<and>
    OpenJournalSeeded OpenOk (Some TDXRegister) Zero
     (boot_world\<lparr>JFile := Some (sample_digest CHR ''a'' @ [newline])\<rparr>) =
    ((Some (fresh_journal Zero ds), None),
     boot_world\<lparr>JFile := Some (sample_digest CHR ''a'' @ [newline]), JReg := tdx_ready (FromDigestsSeeded Zero ds)\<rparr>)"
proof -
  let ?a = "sample_digest CHR ''a''"
  let ?w = "boot_world\<lparr>JFile := Some (?a @ [newline])\<rparr>"
  have p: "parseJournal (?a @ [newline]) = ([?a], [])" using parse_join [of "[?a]"] by simp
  have "take 72 (?a @ [newline]) = ?a @ [newline]" by (simp add: sample_digest_def)
  then have "durable_reach TDXRegister Zero (None, boot_world) (None, ?w)"
    by (intro durable_reach.step [OF durable_reach.step [OF durable_reach.refl durable_step.opened [OF open_boot]]
          durable_step.crash_record [where ref = ?a and d = ?a and n = 72]]) (simp_all add: starts_def)
  from journal_recovers [OF this] show ?thesis by (auto simp: p ReadJournal_def)
qed

text \<open>
  Idempotence. Once a call has measured a reference, every later call with a spelling of the
  same image (the digest alone or any name pinned to it) extends nothing: it reports \<open>false\<close> and
  leaves the journal, the file and the register as they are, whatever the devices would do.
\<close>

lemma MeasureOnce_idempotent:
  assumes "MeasureOnce ops rflt aflt ref j w = (Inr True, j', w')"
    and "CanonicalDigest ref' = CanonicalDigest ref"
  shows "MeasureOnce ops' rflt' aflt' ref' j' w' = (Inr False, j', w')"
proof -
  from assms(1) obtain d where d: "CanonicalDigest ref = Inr d" "\<not> Diverged j"
    by (auto simp: MeasureOnce_def split: sum.splits if_splits)
  with assms(1) have "d \<in> Measured j' \<and> \<not> Diverged j'"
    by (auto simp: MeasureOnce_def journal_record_def Let_def
        split: if_splits prod.splits option.splits rec_fault.splits)
  with d assms(2) show ?thesis by (simp add: MeasureOnce_def)
qed

lemma MeasureOnce_idempotent_example:
  "MeasureOnce TDXRegister RecOk AtomicOk (''registry/app@'' @ sample_digest CHR ''a'')
      (fresh_journal Zero [sample_digest CHR ''a''])
      (boot_world\<lparr>JFile := Some (sample_digest CHR ''a'' @ [newline]),
         JReg := tdx_ready (Extend Zero (Event (sample_digest CHR ''a'')))\<rparr>) =
   (Inr False, fresh_journal Zero [sample_digest CHR ''a''],
      boot_world\<lparr>JFile := Some (sample_digest CHR ''a'' @ [newline]),
         JReg := tdx_ready (Extend Zero (Event (sample_digest CHR ''a'')))\<rparr>)"
proof (rule MeasureOnce_idempotent)
  show "MeasureOnce TDXRegister RecOk AtomicOk (sample_digest CHR ''a'') (fresh_journal Zero []) boot_world =
      (Inr True, fresh_journal Zero [sample_digest CHR ''a''],
       boot_world\<lparr>JFile := Some (sample_digest CHR ''a'' @ [newline]),
         JReg := tdx_ready (Extend Zero (Event (sample_digest CHR ''a'')))\<rparr>)"
    using measure_ready [of "sample_digest CHR ''a''" "[]" boot_world Zero AtomicOk Zero] by simp
  have "CanonicalDigest (''registry/app'' @ CHR ''@'' # sample_digest CHR ''a'') = Inr (sample_digest CHR ''a'')"
    by (subst CanonicalDigest_Inr) auto
  then show "CanonicalDigest (''registry/app@'' @ sample_digest CHR ''a'') = CanonicalDigest (sample_digest CHR ''a'')"
    by simp
qed

text \<open>
  Parsing the journal inverts writing it. A file of distinct canonical digests, one per line,
  possibly followed by a part of another line that a crash left, parses to exactly those digests;
  the torn part is reported as skipped.
\<close>

lemma parseJournal_round_trip:
  assumes "journal_order ds" and "t = [] \<or> torn t"
  shows "parseJournal (join_lines ds @ t) = (ds, if t = [] then [] else [t])"
  using assms by (auto simp: parse_join parse_torn tornD)

lemma parseJournal_round_trip_example:
  "parseJournal (join_lines [sample_digest CHR ''a'', sample_digest CHR ''b''] @ take 10 (sample_digest CHR ''c'')) =
     ([sample_digest CHR ''a'', sample_digest CHR ''b''], [take 10 (sample_digest CHR ''c'')])"
proof -
  have "torn (take 10 (sample_digest CHR ''c''))"
    unfolding torn_def by (intro exI [of _ "sample_digest CHR ''c''"] exI [of _ 10]) simp
  moreover from this have "take 10 (sample_digest CHR ''c'') \<noteq> []" by (rule tornD)
  moreover have "journal_order [sample_digest CHR ''a'', sample_digest CHR ''b'']"
    by (simp add: journal_order_def)
  moreover have "join_lines [sample_digest CHR ''a'', sample_digest CHR ''b''] @ t =
      sample_digest CHR ''a'' @ newline # sample_digest CHR ''b'' @ newline # t" for t by simp
  ultimately show ?thesis
    using parseJournal_round_trip [of "[sample_digest CHR ''a'', sample_digest CHR ''b'']"
        "take 10 (sample_digest CHR ''c'')"] by (simp del: join_lines_simps)
qed

text \<open>
  Whatever bytes the journal file holds, the digests read from it are distinct and canonical,
  and writing them back (what the rollback does) is read as the same list with nothing skipped.
\<close>

lemma parseJournal_normal:
  "journal_order (fst (parseJournal b)) \<and>
   parseJournal (join_lines (fst (parseJournal b))) = (fst (parseJournal b), [])"
  using parseJournal_order [of b] by (cases "parseJournal b") (simp add: parse_join)

text \<open>
  A diverged journal never extends. Every call on it fails, with \<open>ErrRegisterDiverged\<close> when
  the reference is well-formed, and touches neither the file nor the register.
\<close>

lemma MeasureOnce_diverged:
  assumes "Diverged j"
  shows "\<exists>e. MeasureOnce ops rflt aflt ref j w = (Inl e, j, w) \<and>
    (errors_is e ErrRegisterDiverged \<or> CanonicalDigest ref = Inl e)"
  using assms by (cases "CanonicalDigest ref") (auto simp: MeasureOnce_def)

lemma MeasureOnce_diverged_example:
  "\<exists>e. MeasureOnce TDXRegister RecOk AtomicOk ''x'' (fresh_journal Zero []\<lparr>Diverged := True\<rparr>) boot_world =
      (Inl e, fresh_journal Zero []\<lparr>Diverged := True\<rparr>, boot_world) \<and>
    (errors_is e ErrRegisterDiverged \<or> CanonicalDigest ''x'' = Inl e)"
  by (rule MeasureOnce_diverged) simp

section \<open>Runs that lose a digest\<close>

text \<open>
  \<open>record\<close> appends without looking at how the file ends, so the three shapes below, all of which
  the comments of the source treat as harmless, end in a register that the journal cannot explain.
  The alternative in each conclusion is a SHA-384 collision, or a preimage of the seed, among the
  strings of the replays compared.
\<close>

text \<open>
  C38: an append that loses only its final newline. The journal still parses and opens without an
  error, its last digest is repaired into the register, and the next measurement succeeds; but its
  line is glued to the unterminated one and both digests disappear from the file. The next open then
  finds the register diverged, or the replay of all the measured digests hashes a SHA-384 collision
  or a preimage of the seed.
\<close>

theorem lost_newline_diverges:
  assumes ord: "journal_order (ds @ [d, e])" and len: "length seed = Size"
    and fil: "JFile w = Some (join_lines ds @ d)"
    and reg: "JReg w = tdx_ready (FromDigestsSeeded seed ds)"
  shows "\<exists>w1 j2 w2.
    OpenJournalSeeded OpenOk (Some TDXRegister) seed w = ((Some (fresh_journal seed (ds @ [d])), None), w1) \<and>
    MeasureOnce TDXRegister RecOk AtomicOk e (fresh_journal seed (ds @ [d])) w1 = (Inr True, j2, w2) \<and>
    DevValue (JReg w2) = FromDigestsSeeded seed (ds @ [d, e]) \<and>
    parseJournal (file_content w2) = (ds, [d @ e]) \<and>
    (reopen_diverges seed w2 \<or> fold_break seed (replay_inputs seed (ds @ [d, e])))"
proof -
  have ord': "journal_order (ds @ [d])" "journal_order ds" "canonical d" "canonical e" "e \<notin> set (ds @ [d])"
    using ord by (auto simp: journal_order_def)
  have w: "file_content w = join_lines ds @ d" using fil by (simp add: file_content_def)
  let ?v1 = "FromDigestsSeeded seed (ds @ [d])" and ?v2 = "FromDigestsSeeded seed (ds @ [d, e])"
  let ?w1 = "w\<lparr>JReg := tdx_ready ?v1\<rparr>"
  let ?w2 = "?w1\<lparr>JFile := Some (join_lines ds @ d @ e @ [newline]), JReg := tdx_ready ?v2\<rparr>"
  have opn: "OpenJournalSeeded OpenOk (Some TDXRegister) seed w = ((Some (fresh_journal seed (ds @ [d])), None), ?w1)"
  proof -
    have "parseJournal (file_content w) = (ds @ [d], [])" using parse_unterminated [OF ord'(1)] w by simp
    from open_ready [OF this reg] len show ?thesis by (simp add: length_FromDigestsSeeded)
  qed
  have meas: "MeasureOnce TDXRegister RecOk AtomicOk e (fresh_journal seed (ds @ [d])) ?w1 =
      (Inr True, fresh_journal seed (ds @ [d] @ [e]), ?w2)"
    using measure_ready [of e "ds @ [d]" ?w1 ?v1 AtomicOk seed] ord' w by simp
  have parse: "parseJournal (file_content ?w2) = (ds, [d @ e])"
    using merged_line [OF ord'(2,3,4)] by simp
  have "?v2 \<noteq> FromDigestsSeeded seed ds \<and> ?v2 \<noteq> FromDigestsSeeded seed (butlast ds)"
    if nb: "\<not> fold_break seed (replay_inputs seed (ds @ [d, e]))"
  proof (intro conjI notI)
    have pre: "set (replay_inputs seed ds) \<subseteq> set (replay_inputs seed (ds @ [d, e]))"
      by (auto simp: replay_inputs_append)
    show False if "?v2 = FromDigestsSeeded seed ds"
      using fold_inj [OF nb _ pre that] by simp
    have "length (ds @ [d, e]) \<noteq> length (butlast ds)" by simp
    then show False if "?v2 = FromDigestsSeeded seed (butlast ds)"
      using fold_inj [OF nb _ order_trans [OF set_replay_butlast pre] that] by (metis subset_refl)
  qed
  then have "reopen_diverges seed ?w2 \<or> fold_break seed (replay_inputs seed (ds @ [d, e]))"
    using reopen_divergesI [OF parse, of ?v2 seed] len by (auto simp: length_FromDigestsSeeded)
  with opn meas parse show ?thesis
    by (intro exI [of _ ?w1] exI [of _ "fresh_journal seed (ds @ [d] @ [e])"] exI [of _ ?w2]) simp
qed

theorem lost_newline_diverges_witness:
  "\<exists>w1 j2 w2.
    OpenJournalSeeded OpenOk (Some TDXRegister) Zero (boot_world\<lparr>JFile := Some (sample_digest CHR ''a'')\<rparr>) =
      ((Some (fresh_journal Zero [sample_digest CHR ''a'']), None), w1) \<and>
    MeasureOnce TDXRegister RecOk AtomicOk (sample_digest CHR ''b'')
      (fresh_journal Zero [sample_digest CHR ''a'']) w1 = (Inr True, j2, w2) \<and>
    DevValue (JReg w2) = FromDigestsSeeded Zero [sample_digest CHR ''a'', sample_digest CHR ''b''] \<and>
    parseJournal (file_content w2) = ([], [sample_digest CHR ''a'' @ sample_digest CHR ''b'']) \<and>
    (reopen_diverges Zero w2 \<or>
     fold_break Zero (replay_inputs Zero [sample_digest CHR ''a'', sample_digest CHR ''b'']))"
  using lost_newline_diverges [of "[]" "sample_digest CHR ''a''" "sample_digest CHR ''b''" Zero
      "boot_world\<lparr>JFile := Some (sample_digest CHR ''a'')\<rparr>"]
  by (auto simp: journal_order_def)

text \<open>
  An append whose sync fails. The call reports an error and forgets the digest, but the file
  keeps it; a later measurement of another digest succeeds and leaves the register without the
  first one, so the next open finds it diverged. Closing the file badly has the same effect.
\<close>

lemma failed_sync_diverges:
  assumes ord: "journal_order (ds @ [d, e])" and len: "length seed = Size"
    and fil: "JFile w = Some (join_lines ds)"
    and reg: "JReg w = tdx_ready (FromDigestsSeeded seed ds)"
    and flt: "flt = RecSyncFails \<or> flt = RecCloseFails"
  shows "\<exists>x w1 j2 w2.
    MeasureOnce TDXRegister flt AtomicOk d (fresh_journal seed ds) w = (Inl x, fresh_journal seed ds, w1) \<and>
    MeasureOnce TDXRegister RecOk AtomicOk e (fresh_journal seed ds) w1 = (Inr True, j2, w2) \<and>
    Digests j2 = ds @ [e] \<and> DevValue (JReg w2) = FromDigestsSeeded seed (ds @ [e]) \<and>
    parseJournal (file_content w2) = (ds @ [d, e], []) \<and>
    (reopen_diverges seed w2 \<or>
     fold_break seed (replay_inputs seed (ds @ [e]) @ replay_inputs seed (ds @ [d, e])))"
proof -
  have ord': "canonical d" "canonical e" "e \<notin> set ds" "d \<notin> set ds"
    using ord by (auto simp: journal_order_def)
  have w: "file_content w = join_lines ds" using fil by (simp add: file_content_def)
  let ?v = "FromDigestsSeeded seed (ds @ [e])"
  let ?w1 = "w\<lparr>JFile := Some (join_lines (ds @ [d]))\<rparr>"
  let ?w2 = "?w1\<lparr>JFile := Some (join_lines (ds @ [d, e])), JReg := tdx_ready ?v\<rparr>"
  have first: "\<exists>x. MeasureOnce TDXRegister flt AtomicOk d (fresh_journal seed ds) w = (Inl x, fresh_journal seed ds, ?w1)"
    using flt ord' w by (auto simp: MeasureOnce_def journal_record_def)
  have meas: "MeasureOnce TDXRegister RecOk AtomicOk e (fresh_journal seed ds) ?w1 =
      (Inr True, fresh_journal seed (ds @ [e]), ?w2)"
    using measure_ready [of e ds ?w1 "FromDigestsSeeded seed ds" AtomicOk seed] ord' reg by simp
  have parse: "parseJournal (file_content ?w2) = (ds @ [d, e], [])"
    using parse_join [OF ord] by simp
  have "?v \<noteq> FromDigestsSeeded seed (ds @ [d, e]) \<and> ?v \<noteq> FromDigestsSeeded seed (ds @ [d])"
    if nb: "\<not> fold_break seed (replay_inputs seed (ds @ [e]) @ replay_inputs seed (ds @ [d, e]))"
  proof -
    have "set (replay_inputs seed (ds @ [d])) \<subseteq> set (replay_inputs seed (ds @ [d, e]))"
      by (auto simp: replay_inputs_append)
    then have "?v = FromDigestsSeeded seed es \<Longrightarrow> ds @ [e] = es" if "es = ds @ [d, e] \<or> es = ds @ [d]" for es
      using fold_inj [OF nb, of "ds @ [e]" es] that by auto
    from this [of "ds @ [d, e]"] this [of "ds @ [d]"] ord show ?thesis by (auto simp: journal_order_def)
  qed
  then have "reopen_diverges seed ?w2 \<or>
      fold_break seed (replay_inputs seed (ds @ [e]) @ replay_inputs seed (ds @ [d, e]))"
    using reopen_divergesI [OF parse, of ?v seed] len
    by (auto simp: length_FromDigestsSeeded butlast_append)
  moreover from first obtain x where
    "MeasureOnce TDXRegister flt AtomicOk d (fresh_journal seed ds) w = (Inl x, fresh_journal seed ds, ?w1)" ..
  ultimately show ?thesis using meas parse
    by (intro exI [of _ x] exI [of _ ?w1] exI [of _ "fresh_journal seed (ds @ [e])"] exI [of _ ?w2])
      (simp add: Digests_def)
qed

lemma failed_sync_diverges_example:
  "\<exists>x w1 j2 w2.
    MeasureOnce TDXRegister RecSyncFails AtomicOk (sample_digest CHR ''a'') (fresh_journal Zero [])
      (boot_world\<lparr>JFile := Some []\<rparr>) = (Inl x, fresh_journal Zero [], w1) \<and>
    MeasureOnce TDXRegister RecOk AtomicOk (sample_digest CHR ''b'') (fresh_journal Zero []) w1 = (Inr True, j2, w2) \<and>
    parseJournal (file_content w2) = ([sample_digest CHR ''a'', sample_digest CHR ''b''], [])"
  using failed_sync_diverges [of "[]" "sample_digest CHR ''a''" "sample_digest CHR ''b''" Zero
      "boot_world\<lparr>JFile := Some []\<rparr>" RecSyncFails]
  by (auto simp: journal_order_def)

end
