(* ===== verification/Tpm.thy ===== *)
theory Tpm
  imports TeeTypes Sha2
begin

text \<open>
  The Azure HCL and vTPM layer of \<open>attestation/tpmcommon/tpmcommon.go\<close>: the HCL report, the AK
  public key, the quote (\<open>TPMS_ATTEST\<close>) and what it authenticates.

  The parsers are written over offsets with panicking slices, as the code has them; the layouts
  \<open>hcl_image\<close> and \<open>quote_image\<close> are their specifications. Offsets and lengths are natural
  numbers. The text of the JSON web key set is decoded by \<open>encoding/json\<close>, which is the parameter
  \<open>unmarshal\<close>; RSA verification, base64 and hex are defined.
\<close>

section \<open>Base64 and RSA\<close>

definition b64url_alphabet :: string where
  "b64url_alphabet =
     ''ABCDEFGHIJKLMNOPQRSTUVWXYZabcdefghijklmnopqrstuvwxyz0123456789-_''"

definition b64_value :: "char \<Rightarrow> nat option" where
  "b64_value c = map_of (zip b64url_alphabet [0..<64]) c"

text \<open>\<open>base64.RawURLEncoding.DecodeString\<close> on the digit values: line breaks are skipped before.\<close>

fun b64_quanta :: "nat list \<Rightarrow> err + bytes" where
  "b64_quanta [] = Inr []"
| "b64_quanta [a] = Inl (Errorf ''illegal base64 data'')"
| "b64_quanta [a, b] = Inr [word_of_nat (4 * a + b div 16)]"
| "b64_quanta [a, b, c] =
     Inr [word_of_nat (4 * a + b div 16), word_of_nat (b mod 16 * 16 + c div 4)]"
| "b64_quanta (a # b # c # d # s) =
     bindr (b64_quanta s) (\<lambda>r.
       Inr (word_of_nat (4 * a + b div 16) # word_of_nat (b mod 16 * 16 + c div 4)
            # word_of_nat (c mod 4 * 64 + d) # r))"

definition raw_url_decode :: "string \<Rightarrow> err + bytes" where
  "raw_url_decode s =
     bindr
       (map_each
         (\<lambda>c. case b64_value c of None \<Rightarrow> Inl (Errorf ''illegal base64 data'') | Some v \<Rightarrow> Inr v)
         (filter (\<lambda>c. c \<noteq> CHR 0x0A \<and> c \<noteq> CHR 0x0D) s))
       b64_quanta"

definition DecodeBase64URL :: "string \<Rightarrow> err + bytes" where
  "DecodeBase64URL s = raw_url_decode (strip_trailing CHR ''='' s)"

record rsa_key =
  RsaN :: nat
  RsaE :: nat

fun power_modulo :: "nat \<Rightarrow> nat \<Rightarrow> nat \<Rightarrow> nat" where
  "power_modulo b e m =
     (if e = 0 then 1 mod m
      else let h = power_modulo (b * b mod m) (e div 2) m
           in if odd e then b * h mod m else h)"

declare power_modulo.simps [simp del]

definition sha256_prefix :: bytes where
  "sha256_prefix = [0x30, 0x31, 0x30, 0x0d, 0x06, 0x09, 0x60, 0x86, 0x48, 0x01, 0x65, 0x03, 0x04,
     0x02, 0x01, 0x05, 0x00, 0x04, 0x20]"

text \<open>The width of the modulus in bytes: the least \<open>k\<close> with \<open>n < 256 ^ k\<close>.\<close>

fun byte_width :: "nat \<Rightarrow> nat" where
  "byte_width n = (if n = 0 then 0 else Suc (byte_width (n div 256)))"

declare byte_width.simps [simp del]

text \<open>
  \<open>rsa.VerifyPKCS1v15\<close> with SHA-256, as the standard library documents it: keys it refuses, then
  \<open>sig ^ e mod n\<close> equals the encoded message.
\<close>

definition VerifyPKCS1v15 :: "rsa_key \<Rightarrow> bytes \<Rightarrow> bytes \<Rightarrow> bool" where
  "VerifyPKCS1v15 pub digest sig \<longleftrightarrow>
     2 ^ 1023 \<le> RsaN pub \<and> odd (RsaN pub) \<and> 2 \<le> RsaE pub \<and> odd (RsaE pub) \<and> RsaE pub < 2 ^ 31 \<and>
     length sig = byte_width (RsaN pub) \<and> be_nat sig < RsaN pub \<and>
     be_bytes (length sig) (power_modulo (be_nat sig) (RsaE pub) (RsaN pub)) =
       [0, 1] @ replicate (length sig - 54) 255 @ [0] @ sha256_prefix @ digest"

section \<open>The HCL report\<close>

abbreviation (input) ReportSize :: nat where "ReportSize \<equiv> 1184"
abbreviation (input) hclTEEReportOffset :: nat where "hclTEEReportOffset \<equiv> 32"
abbreviation (input) hclVarDataHeaderSize :: nat where "hclVarDataHeaderSize \<equiv> 20"
abbreviation (input) HCLReportTypeSNP :: nat where "HCLReportTypeSNP \<equiv> 2"
abbreviation (input) HCLReportTypeTDX :: nat where "HCLReportTypeTDX \<equiv> 4"
abbreviation (input) tpmAlgRSA :: nat where "tpmAlgRSA \<equiv> 1"
abbreviation (input) tpmAlgNull :: nat where "tpmAlgNull \<equiv> 16"
abbreviation (input) tpmAttestMagic :: nat where "tpmAttestMagic \<equiv> 0xFF544347"

record hcl_report =
  TEEReport :: bytes
  ReportType :: nat
  VarData :: bytes

definition ParseHCLReport :: "bytes \<Rightarrow> err + hcl_report" where
  "ParseHCLReport hcl =
     (let teeEnd = hclTEEReportOffset + ReportSize;
          contentStart = teeEnd + hclVarDataHeaderSize
      in if length hcl < contentStart then Inl (Errorf ''HCL report too short'')
         else
           bindr (subslice hcl 0 4) (\<lambda>magic.
           if magic \<noteq> bytes_of_string ''HCLA'' then Inl (Errorf ''invalid HCL magic'')
           else
             bindr (subslice hcl teeEnd contentStart) (\<lambda>header.
             bindr (subslice header 8 12) (\<lambda>typ.
             bindr (subslice header 16 20) (\<lambda>len.
             let reportType = le_nat typ; contentLength = le_nat len;
                 available = length hcl - contentStart
             in if available < contentLength then Inl (Errorf ''HCL content_length exceeds available data'')
                else
                  bindr (subslice hcl contentStart (contentStart + contentLength)) (\<lambda>content.
                  let varData = strip_trailing 0 content
                  in if varData = [] then Inl (Errorf ''HCL var_data is empty'')
                     else
                       bindr (subslice hcl hclTEEReportOffset teeEnd) (\<lambda>tee.
                       Inr \<lparr>TEEReport = tee, ReportType = reportType, VarData = varData\<rparr>)))))))"

definition VerifyHCLVarDataBinding :: "bytes \<Rightarrow> bytes \<Rightarrow> err + unit" where
  "VerifyHCLVarDataBinding reportData varData =
     (if length reportData < 32 then Inl (Errorf ''report_data shorter than 32 bytes'')
      else bindr (subslice reportData 0 32) (\<lambda>bound.
        if bound \<noteq> sha256 varData then Inl (Errorf ''HCL var_data binding failed'') else Inr ()))"

section \<open>The attestation key\<close>

record tpm_quote =
  Signature :: bytes
  Message :: bytes
  PCRs :: "bytes list"

record raw_tpm_quote =
  RawSignature :: string
  RawMessage :: string
  RawPCRs :: "string list"

definition DecodeTPMQuote :: "raw_tpm_quote \<Rightarrow> err + tpm_quote" where
  "DecodeTPMQuote raw =
     bindr (wrap_err (Errorf ''tpm_quote.signature hex'') (hex_decode (RawSignature raw))) (\<lambda>sig.
     bindr (wrap_err (Errorf ''tpm_quote.message hex'') (hex_decode (RawMessage raw))) (\<lambda>msg.
     bindr (map_each (\<lambda>p. wrap_err (Errorf ''tpm_quote.pcrs hex'') (hex_decode p)) (RawPCRs raw)) (\<lambda>pcrs.
     Inr \<lparr>Signature = sig, Message = msg, PCRs = pcrs\<rparr>)))"

record jwk =
  Kid :: string
  Kty :: string
  KeyN :: string
  KeyE :: string

definition rsaPubFromBytes :: "bytes \<Rightarrow> bytes \<Rightarrow> err + rsa_key" where
  "rsaPubFromBytes modulus exponent =
     (if modulus = [] \<or> exponent = [] then Inl (Errorf ''empty RSA modulus or exponent'')
      else if \<not> (be_nat exponent < 2 ^ 63) \<or> be_nat exponent < 2
      then Inl (Errorf ''invalid RSA exponent'')
      else Inr \<lparr>RsaN = be_nat modulus, RsaE = be_nat exponent\<rparr>)"

definition extractAKPubFromJWK :: "(bytes \<Rightarrow> err + jwk list) \<Rightarrow> bytes \<Rightarrow> err + rsa_key" where
  "extractAKPubFromJWK unmarshal varData =
     bindr (wrap_err (Errorf ''HCL var_data JSON'') (unmarshal varData)) (\<lambda>keys.
     if keys = [] then Inl (Errorf ''missing keys array'')
     else
       case find (\<lambda>k. Kid k = ''HCLAkPub'' \<and> Kty k = ''RSA'') keys of
         None \<Rightarrow> Inl (Errorf ''does not contain HCLAkPub RSA key'')
       | Some k \<Rightarrow>
           if KeyN k = [] \<or> KeyE k = [] then Inl (Errorf ''HCLAkPub missing n or e field'')
           else
             bindr (wrap_err (Errorf ''HCLAkPub n base64'') (raw_url_decode (KeyN k))) (\<lambda>n.
             bindr (wrap_err (Errorf ''HCLAkPub e base64'') (raw_url_decode (KeyE k))) (\<lambda>e.
             rsaPubFromBytes n e)))"

definition readBEU16 :: "bytes \<Rightarrow> nat \<Rightarrow> err + nat" where
  "readBEU16 data off =
     (if length data < off + 2 then Inl (Errorf ''truncated'')
      else bindr (subslice data off (off + 2)) (\<lambda>b. Inr (be_nat b)))"

definition readBEU32 :: "bytes \<Rightarrow> nat \<Rightarrow> err + nat" where
  "readBEU32 data off =
     (if length data < off + 4 then Inl (Errorf ''truncated'')
      else bindr (subslice data off (off + 4)) (\<lambda>b. Inr (be_nat b)))"

text \<open>The closure \<open>readU16\<close> advances the offset it captures: it is \<open>readBEU16\<close> and \<open>off + 2\<close>.\<close>

definition extractAKPubFromTPM2BPublic :: "bytes \<Rightarrow> err + rsa_key" where
  "extractAKPubFromTPM2BPublic d =
     bindr (readBEU16 d 0) (\<lambda>_.
     bindr (readBEU16 d 2) (\<lambda>algType.
     if algType \<noteq> tpmAlgRSA then Inl (Errorf ''AK key type is not RSA'')
     else
       bindr (readBEU16 d 4) (\<lambda>_.
       bindr (readBEU16 d (6 + 4)) (\<lambda>authSize.
       let off1 = 12 + authSize in
       bindr (readBEU16 d off1) (\<lambda>symAlg.
       let off2 = off1 + 2 + (if symAlg \<noteq> tpmAlgNull then 6 else 0) in
       bindr (readBEU16 d off2) (\<lambda>schemeAlg.
       let off3 = off2 + 2 + (if schemeAlg \<noteq> tpmAlgNull then 2 else 0) in
       bindr (readBEU16 d off3) (\<lambda>_.
       let off4 = off3 + 2 in
       if length d < off4 + 4 then Inl (Errorf ''truncated at exponent'')
       else
         bindr (subslice d off4 (off4 + 4)) (\<lambda>expVal.
         let off5 = off4 + 4; exponent = (if be_nat expVal \<noteq> 0 then expVal else [1, 0, 1]) in
         bindr (readBEU16 d off5) (\<lambda>modSize.
         let off6 = off5 + 2 in
         if length d < off6 + modSize then Inl (Errorf ''truncated at modulus'')
         else bindr (subslice d off6 (off6 + modSize)) (\<lambda>modulus.
           rsaPubFromBytes modulus exponent))))))))))"

definition ExtractAKPub :: "(bytes \<Rightarrow> err + jwk list) \<Rightarrow> bytes \<Rightarrow> err + rsa_key" where
  "ExtractAKPub unmarshal varData =
     (case extractAKPubFromJWK unmarshal varData of
        Inr pub \<Rightarrow> Inr pub
      | Inl e \<Rightarrow>
          (case extractAKPubFromTPM2BPublic varData of
             Inr pub2 \<Rightarrow> Inr pub2
           | Inl e2 \<Rightarrow> Inl (Errorf ''extract AK pub'')))"

definition VerifyTPMSignature ::
    "(bytes \<Rightarrow> err + jwk list) \<Rightarrow> bytes \<Rightarrow> bytes \<Rightarrow> bytes \<Rightarrow> err + unit" where
  "VerifyTPMSignature unmarshal signature message varData =
     bindr (ExtractAKPub unmarshal varData) (\<lambda>pub.
       if VerifyPKCS1v15 pub (sha256 message) signature then Inr ()
       else Inl (Errorf ''TPM RSA PKCS1v15 SHA-256''))"

section \<open>The quote\<close>

definition ExtractTPMNonce :: "bytes \<Rightarrow> err + bytes" where
  "ExtractTPMNonce message =
     (if length message < 10 then Inl (Errorf ''TPM attest message too short'')
      else
        bindr (subslice message 0 4) (\<lambda>magic.
        if be_nat magic \<noteq> tpmAttestMagic then Inl (Errorf ''invalid TPM attest magic'')
        else
          bindr (readBEU16 message 6) (\<lambda>signerSize.
          let off = 6 + 2 + signerSize in
          bindr (readBEU16 message off) (\<lambda>nonceSize.
          if length message < off + 2 + nonceSize then Inl (Errorf ''truncated at nonce data'')
          else subslice message (off + 2) (off + 2 + nonceSize)))))"

definition VerifyTPMNonce :: "bytes \<Rightarrow> bytes \<Rightarrow> err + unit" where
  "VerifyTPMNonce message expected =
     bindr (ExtractTPMNonce message) (\<lambda>nonce.
       if length nonce \<noteq> length expected then Inl (Errorf ''TPM nonce length mismatch'')
       else if nonce \<noteq> expected then Inl (Errorf ''TPM nonce does not match request nonce'')
       else Inr ())"

definition CheckReportData :: "bytes \<Rightarrow> bytes option \<Rightarrow> err + bool option" where
  "CheckReportData message expected =
     (case expected of
        None \<Rightarrow> Inr None
      | Some e \<Rightarrow> bindr (VerifyTPMNonce message e) (\<lambda>_. Inr (Some True)))"

text \<open>The set bits of a selection bitmap, bit 0 of byte 0 first.\<close>

definition byte_bits :: "byte \<Rightarrow> nat list" where
  "byte_bits b = filter (\<lambda>i. bit b i) [0..<8]"

fun bitmap_bits :: "nat \<Rightarrow> bytes \<Rightarrow> nat list" where
  "bitmap_bits byteIdx [] = []"
| "bitmap_bits byteIdx (b # bs) =
     map (\<lambda>i. byteIdx * 8 + i) (byte_bits b) @ bitmap_bits (Suc byteIdx) bs"

fun quote_selections :: "nat \<Rightarrow> bytes \<Rightarrow> nat \<Rightarrow> nat list \<Rightarrow> err + (nat list \<times> nat)" where
  "quote_selections 0 message off selected = Inr (selected, off)"
| "quote_selections (Suc n) message off selected =
     bindr (readBEU16 message off) (\<lambda>_.
     if length message \<le> off + 2 then Inl (Errorf ''truncated at PCR selection size'')
     else
       bindr (index_at message (off + 2)) (\<lambda>size.
       if length message < off + 3 + unat size then Inl (Errorf ''truncated at PCR selection bitmap'')
       else
         bindr (subslice message (off + 3) (off + 3 + unat size)) (\<lambda>bitmap.
         quote_selections n message (off + 3 + unat size) (selected @ bitmap_bits 0 bitmap))))"

definition parseQuoteInfo :: "bytes \<Rightarrow> err + (nat list \<times> bytes)" where
  "parseQuoteInfo message =
     (if length message < 10 then Inl (Errorf ''TPMS_ATTEST too short'')
      else
        bindr (readBEU16 message 6) (\<lambda>signerSize.
        let off1 = 6 + 2 + signerSize in
        bindr (readBEU16 message off1) (\<lambda>extraSize.
        let off2 = off1 + 2 + extraSize + 17 + 8 in
        bindr (readBEU32 message off2) (\<lambda>count.
        bindr (quote_selections count message (off2 + 4) []) (\<lambda>(selected, off3).
        bindr (readBEU16 message off3) (\<lambda>digestSize.
        if length message < off3 + 2 + digestSize then Inl (Errorf ''truncated at PCR digest data'')
        else bindr (subslice message (off3 + 2) (off3 + 2 + digestSize)) (\<lambda>digest.
          Inr (selected, digest))))))))"

definition SignedPCRSelection :: "bytes \<Rightarrow> err + nat list" where
  "SignedPCRSelection message =
     bindr (parseQuoteInfo message) (\<lambda>(selected, _). Inr (sort selected))"

text \<open>The loop that concatenates the selected registers.\<close>

definition selected_pcrs :: "bytes list \<Rightarrow> nat list \<Rightarrow> err + bytes" where
  "selected_pcrs pcrs selected =
     bindr
       (map_each
         (\<lambda>idx. if length pcrs \<le> idx then Inl (Errorf ''PCR selection out of range'')
                else index_at pcrs idx)
         selected)
       (\<lambda>values. Inr (concat values))"

definition VerifyTPMPCRs :: "bytes \<Rightarrow> bytes list \<Rightarrow> err + unit" where
  "VerifyTPMPCRs message pcrs =
     (if pcrs = [] then Inl (Errorf ''no PCR values in TPM quote'')
      else
        bindr (for_each (\<lambda>pcr. if length pcr \<noteq> 32 then Inl (Errorf ''PCR size'') else Inr ()) pcrs) (\<lambda>_.
        bindr (parseQuoteInfo message) (\<lambda>(selected, expectedDigest).
        bindr (selected_pcrs pcrs selected) (\<lambda>values.
        if sha256 values \<noteq> expectedDigest then Inl (Errorf ''PCR digest does not match'')
        else Inr ()))))"

definition CheckInitData :: "bytes \<Rightarrow> bytes list \<Rightarrow> bytes option \<Rightarrow> err + bool option" where
  "CheckInitData message pcrs expected =
     (case expected of
        None \<Rightarrow> Inr None
      | Some e \<Rightarrow>
          if length e \<noteq> 32 then Inl (Errorf ''expected_init_data_hash must be 32 bytes'')
          else
            bindr (wrap_err (Errorf ''parse quote selection'') (parseQuoteInfo message)) (\<lambda>(selected, _).
            if 8 \<notin> set selected then Inl (Errorf ''PCR 8 is not in the signed selection'')
            else if length pcrs \<le> 8 then Inl (Errorf ''PCR 8 is not present'')
            else
              bindr (index_at pcrs 8) (\<lambda>pcr8.
              if pcr8 \<noteq> sha256 (replicate 32 0 @ e) then Inl (Errorf ''init_data mismatch'')
              else Inr (Some True))))"

definition stripTrailingNulls :: "bytes \<Rightarrow> bytes" where
  "stripTrailingNulls b = strip_trailing 0 b"

definition publish_pcrs :: "bytes list \<Rightarrow> nat list \<Rightarrow> (string \<times> any) list" where
  "publish_pcrs pcrs selected =
     foldl (\<lambda>tpm i. if i < length pcrs then (''pcr'' @ show_02d i, AStr (hex_encode (pcrs ! i))) # tpm else tpm)
       [] selected"

definition ApplyTPMClaims :: "claims \<Rightarrow> bytes list \<Rightarrow> bytes \<Rightarrow> claims" where
  "ApplyTPMClaims c pcrs message =
     (let selected = (case SignedPCRSelection message of Inl _ \<Rightarrow> [] | Inr s \<Rightarrow> s);
          tpm = publish_pcrs pcrs selected
      in case ExtractTPMNonce message of
           Inr nonce \<Rightarrow>
             c\<lparr>SignedData := stripTrailingNulls nonce,
               PlatformData := (''tpm'', AMap ((''nonce'', AStr (hex_encode nonce)) # tpm)) # PlatformData c\<rparr>
         | Inl _ \<Rightarrow> c\<lparr>PlatformData := (''tpm'', AMap tpm) # PlatformData c\<rparr>)"

section \<open>Reading at a cursor\<close>

text \<open>A read at the end of a prefix \<open>p\<close> sees the front of what follows \<open>p\<close>.\<close>

lemma cursor_front:
  "n \<le> length s \<and> v = be_nat (take n s) \<longleftrightarrow> (\<exists>r. s = be_bytes n v @ r) \<and> v < 256 ^ n"
proof
  assume l: "n \<le> length s \<and> v = be_nat (take n s)"
  then have "s = be_bytes n v @ drop n s" by simp
  moreover have "v < 256 ^ n" using l be_nat_lt [of "take n s"] by simp
  ultimately show "(\<exists>r. s = be_bytes n v @ r) \<and> v < 256 ^ n" by blast
qed auto

lemma cursor16:
  "readBEU16 (p @ s) (length p) = Inr v \<longleftrightarrow> (\<exists>r. s = be_bytes 2 v @ r) \<and> v < 65536"
proof -
  have "readBEU16 (p @ s) (length p) = Inr v \<longleftrightarrow> 2 \<le> length s \<and> v = be_nat (take 2 s)"
    by (auto simp: readBEU16_def)
  also note cursor_front
  finally show ?thesis by simp
qed

lemma cursor32:
  "readBEU32 (p @ s) (length p) = Inr v \<longleftrightarrow> (\<exists>r. s = be_bytes 4 v @ r) \<and> v < 4294967296"
proof -
  have "readBEU32 (p @ s) (length p) = Inr v \<longleftrightarrow> 4 \<le> length s \<and> v = be_nat (take 4 s)"
    by (auto simp: readBEU32_def)
  also note cursor_front
  finally show ?thesis by simp
qed

lemma read_bound:
  "readBEU16 d off = Inr v \<Longrightarrow> off + 2 \<le> length d"
  "readBEU32 d off = Inr v \<Longrightarrow> off + 4 \<le> length d"
  by (simp_all add: readBEU16_def readBEU32_def)

lemma read_no_panic [simp]:
  "\<not> panics_result (readBEU16 d off)" "\<not> panics_result (readBEU32 d off)"
  by (auto simp: readBEU16_def readBEU32_def)

section \<open>The layout of a quote\<close>

record attest =
  Preamble :: bytes
  Signer :: bytes
  ExtraData :: bytes
  ClockInfo :: bytes
  Selections :: "(bytes \<times> bytes) list"
  PcrDigest :: bytes

definition selection_image :: "bytes \<times> bytes \<Rightarrow> bytes" where
  "selection_image s = fst s @ be_bytes 1 (length (snd s)) @ snd s"

definition selection_ok :: "bytes \<times> bytes \<Rightarrow> bool" where
  "selection_ok s \<longleftrightarrow> length (fst s) = 2 \<and> length (snd s) < 256"

definition attest_ok :: "attest \<Rightarrow> bool" where
  "attest_ok q \<longleftrightarrow>
     length (Preamble q) = 6 \<and> length (Signer q) < 65536 \<and> length (ExtraData q) < 65536 \<and>
     length (ClockInfo q) = 25 \<and> length (Selections q) < 4294967296 \<and>
     list_all selection_ok (Selections q) \<and> length (PcrDigest q) < 65536"

definition quote_image :: "attest \<Rightarrow> bytes" where
  "quote_image q =
     Preamble q @ be_bytes 2 (length (Signer q)) @ Signer q @
     be_bytes 2 (length (ExtraData q)) @ ExtraData q @ ClockInfo q @
     be_bytes 4 (length (Selections q)) @ concat (map selection_image (Selections q)) @
     be_bytes 2 (length (PcrDigest q)) @ PcrDigest q"

definition selected_of :: "(bytes \<times> bytes) list \<Rightarrow> nat list" where
  "selected_of sels = concat (map (\<lambda>s. bitmap_bits 0 (snd s)) sels)"

lemma be_bytes_1: "be_bytes (Suc 0) n = [word_of_nat (n mod 256)]"
  by simp

lemma cursor_selection:
  "(\<exists>alg. readBEU16 (p @ s) (length p) = Inr alg) \<and> length p + 2 < length (p @ s) \<and>
   length p + 3 + unat ((p @ s) ! (length p + 2)) \<le> length (p @ s) \<and>
   bm = take (unat ((p @ s) ! (length p + 2))) (drop (length p + 3) (p @ s)) \<longleftrightarrow>
   (\<exists>x r. selection_ok (x, bm) \<and> s = selection_image (x, bm) @ r)"
  (is "?l \<longleftrightarrow> ?r")
proof
  assume l: ?l
  then obtain x s1 where x: "s = x @ s1" "length x = 2" using split_at [of 2 s] by fastforce
  with l obtain z s2 where z: "s1 = z # s2" by (cases s1) auto
  with l x have "unat z \<le> length s2" and bm: "bm = take (unat z) s2" by (auto simp: nth_append)
  then have "length bm = unat z" "s2 = bm @ drop (unat z) s2" by auto
  moreover have "unat z < 256" by simp
  ultimately show ?r using x z
    by (intro exI [of _ x] exI [of _ "drop (unat z) s2"])
      (auto simp: selection_ok_def selection_image_def be_bytes_1)
next
  assume ?r
  then obtain x r where x: "length x = 2" "length bm < 256" "s = x @ word_of_nat (length bm) # bm @ r"
    by (auto simp: selection_ok_def selection_image_def be_bytes_1)
  then have "\<exists>alg. readBEU16 (p @ s) (length p) = Inr alg"
    using be_nat_lt [of x] by (intro exI [of _ "be_nat x"]) (auto simp: cursor16)
  with x show ?l by (auto simp: nth_append)
qed

lemma quote_selections_Inr:
  "quote_selections n (p @ s) (length p) sel = Inr (sel', off') \<longleftrightarrow>
     (\<exists>sels r. length sels = n \<and> list_all selection_ok sels \<and>
        s = concat (map selection_image sels) @ r \<and> sel' = sel @ selected_of sels \<and>
        off' = length p + length (concat (map selection_image sels)))"
proof (induction n arbitrary: p s sel)
  case 0
  then show ?case by (auto simp: selected_of_def)
next
  case (Suc n)
  let ?size = "unat ((p @ s) ! (length p + 2))"
  have step: "quote_selections (Suc n) (p @ s) (length p) sel = Inr (sel', off') \<longleftrightarrow>
      (\<exists>bm x r. selection_ok (x, bm) \<and> s = selection_image (x, bm) @ r \<and>
         quote_selections n (p @ s) (length p + 3 + length bm) (sel @ bitmap_bits 0 bm) = Inr (sel', off'))"
    (is "?l \<longleftrightarrow> ?r")
  proof
    assume ?l
    then have "(\<exists>alg. readBEU16 (p @ s) (length p) = Inr alg) \<and> length p + 2 < length (p @ s) \<and>
        length p + 3 + ?size \<le> length (p @ s)"
      and rest: "quote_selections n (p @ s) (length p + 3 + ?size)
          (sel @ bitmap_bits 0 (take ?size (drop (length p + 3) (p @ s)))) = Inr (sel', off')"
      by (auto simp: not_le not_less)
    then have "\<exists>x r. selection_ok (x, take ?size (drop (length p + 3) (p @ s))) \<and>
        s = selection_image (x, take ?size (drop (length p + 3) (p @ s))) @ r"
      using cursor_selection [of p s] by blast
    moreover have "length (take ?size (drop (length p + 3) (p @ s))) = ?size"
      using \<open>_ \<and> _ \<and> length p + 3 + ?size \<le> length (p @ s)\<close> by simp linarith
    ultimately show ?r using rest by metis
  next
    assume ?r
    then obtain bm x r where b: "selection_ok (x, bm)" "s = selection_image (x, bm) @ r"
      and rest: "quote_selections n (p @ s) (length p + 3 + length bm) (sel @ bitmap_bits 0 bm) = Inr (sel', off')"
      by blast
    then have c: "(\<exists>alg. readBEU16 (p @ s) (length p) = Inr alg)" "length p + 2 < length (p @ s)"
      "length p + 3 + ?size \<le> length (p @ s)" "bm = take ?size (drop (length p + 3) (p @ s))"
      using cursor_selection [of p s bm] by blast+
    then have "length bm = ?size" by simp
    with c rest show ?l by auto
  qed
  have img: "length (selection_image (x, bm)) = 3 + length bm" if "selection_ok (x, bm)" for x bm
    using that by (simp add: selection_image_def selection_ok_def)
  have rec: "quote_selections n (p @ s) (length p + 3 + length bm) (sel @ bitmap_bits 0 bm) = Inr (sel', off') \<longleftrightarrow>
      (\<exists>sels r'. length sels = n \<and> list_all selection_ok sels \<and> r = concat (map selection_image sels) @ r' \<and>
         sel' = sel @ selected_of ((x, bm) # sels) \<and>
         off' = length p + length (concat (map selection_image ((x, bm) # sels))))"
    if "selection_ok (x, bm)" "s = selection_image (x, bm) @ r" for bm x r
    using Suc.IH [of "p @ selection_image (x, bm)" r "sel @ bitmap_bits 0 bm"] img [OF that(1)] that(2)
    by (simp add: add.assoc selected_of_def)
  show ?case
  proof
    assume "quote_selections (Suc n) (p @ s) (length p) sel = Inr (sel', off')"
    with step obtain bm x r where b: "selection_ok (x, bm)" "s = selection_image (x, bm) @ r"
      and "quote_selections n (p @ s) (length p + 3 + length bm) (sel @ bitmap_bits 0 bm) = Inr (sel', off')"
      by blast
    with rec [OF b] obtain sels r' where "length sels = n" "list_all selection_ok sels"
      "r = concat (map selection_image sels) @ r'" "sel' = sel @ selected_of ((x, bm) # sels)"
      "off' = length p + length (concat (map selection_image ((x, bm) # sels)))"
      by blast
    with b show "\<exists>sels r. length sels = Suc n \<and> list_all selection_ok sels \<and>
        s = concat (map selection_image sels) @ r \<and> sel' = sel @ selected_of sels \<and>
        off' = length p + length (concat (map selection_image sels))"
      by (intro exI [of _ "(x, bm) # sels"] exI [of _ r']) simp
  next
    assume "\<exists>sels r. length sels = Suc n \<and> list_all selection_ok sels \<and>
        s = concat (map selection_image sels) @ r \<and> sel' = sel @ selected_of sels \<and>
        off' = length p + length (concat (map selection_image sels))"
    then obtain x bm sels r where "length sels = n" "selection_ok (x, bm)" "list_all selection_ok sels"
      "s = selection_image (x, bm) @ concat (map selection_image sels) @ r"
      "sel' = sel @ selected_of ((x, bm) # sels)"
      "off' = length p + length (concat (map selection_image ((x, bm) # sels)))"
      by (auto simp: length_Suc_conv)
    then show "quote_selections (Suc n) (p @ s) (length p) sel = Inr (sel', off')"
      unfolding step using rec by blast
  qed
qed

text \<open>A read that follows a block of \<open>n\<close> skipped bytes.\<close>

lemma cursor16_skip:
  "readBEU16 (p @ s) (length p + n) = Inr v \<longleftrightarrow>
     (\<exists>x r. s = x @ be_bytes 2 v @ r \<and> length x = n) \<and> v < 65536"
proof
  assume r: "readBEU16 (p @ s) (length p + n) = Inr v"
  then obtain x t where "s = x @ t" "length x = n"
    using read_bound(1) [OF r] split_at [of n s] by auto
  with r show "(\<exists>x r. s = x @ be_bytes 2 v @ r \<and> length x = n) \<and> v < 65536"
    using cursor16 [of "p @ x" t v] by auto
next
  assume "(\<exists>x r. s = x @ be_bytes 2 v @ r \<and> length x = n) \<and> v < 65536"
  then show "readBEU16 (p @ s) (length p + n) = Inr v"
    using cursor16 [of "p @ _"] by (metis append.assoc length_append)
qed

lemma cursor32_skip:
  "readBEU32 (p @ s) (length p + n) = Inr v \<longleftrightarrow>
     (\<exists>x r. s = x @ be_bytes 4 v @ r \<and> length x = n) \<and> v < 4294967296"
proof
  assume r: "readBEU32 (p @ s) (length p + n) = Inr v"
  then obtain x t where "s = x @ t" "length x = n"
    using read_bound(2) [OF r] split_at [of n s] by auto
  with r show "(\<exists>x r. s = x @ be_bytes 4 v @ r \<and> length x = n) \<and> v < 4294967296"
    using cursor32 [of "p @ x" t v] by auto
next
  assume "(\<exists>x r. s = x @ be_bytes 4 v @ r \<and> length x = n) \<and> v < 4294967296"
  then show "readBEU32 (p @ s) (length p + n) = Inr v"
    using cursor32 [of "p @ _"] by (metis append.assoc length_append)
qed

text \<open>The tail of a quote, from the selection count on.\<close>

definition quote_tail :: "bytes \<Rightarrow> nat \<Rightarrow> err + (nat list \<times> bytes)" where
  "quote_tail message off =
     bindr (readBEU32 message off) (\<lambda>count.
     bindr (quote_selections count message (off + 4) []) (\<lambda>(selected, off3).
     bindr (readBEU16 message off3) (\<lambda>digestSize.
     if length message < off3 + 2 + digestSize then Inl (Errorf ''truncated at PCR digest data'')
     else bindr (subslice message (off3 + 2) (off3 + 2 + digestSize)) (\<lambda>digest.
       Inr (selected, digest)))))"

definition tail_image :: "(bytes \<times> bytes) list \<Rightarrow> bytes \<Rightarrow> bytes" where
  "tail_image sels digest =
     be_bytes 4 (length sels) @ concat (map selection_image sels) @
     be_bytes 2 (length digest) @ digest"

lemma quote_digest_Inr:
  "bindr (readBEU16 (p @ s) (length p)) (\<lambda>digestSize.
     if length (p @ s) < length p + 2 + digestSize then Inl e
     else bindr (subslice (p @ s) (length p + 2) (length p + 2 + digestSize)) (\<lambda>digest. Inr (sel, digest)))
     = Inr (sel', d) \<longleftrightarrow>
   sel' = sel \<and> length d < 65536 \<and> (\<exists>r. s = be_bytes 2 (length d) @ d @ r)"
  (is "?l \<longleftrightarrow> ?r")
proof
  assume ?l
  then obtain n where n: "readBEU16 (p @ s) (length p) = Inr n" "length p + 2 + n \<le> length (p @ s)"
    "sel' = sel" "d = take n (drop (length p + 2) (p @ s))"
    by (auto simp: not_less)
  then obtain r where r: "s = be_bytes 2 n @ r" "n < 65536" by (auto simp: cursor16)
  with n have "d = take n r" "n \<le> length r" by simp_all
  with n r show ?r by (auto intro!: exI [of _ "drop n r"])
next
  assume ?r
  then obtain r where r: "sel' = sel" "length d < 65536" "s = be_bytes 2 (length d) @ d @ r" by blast
  then have "readBEU16 (p @ s) (length p) = Inr (length d)" by (simp add: cursor16)
  with r show ?l by simp
qed

lemma quote_tail_Inr:
  "quote_tail (p @ s) (length p) = Inr (sel, d) \<longleftrightarrow>
     (\<exists>sels r. length sels < 4294967296 \<and> list_all selection_ok sels \<and> length d < 65536 \<and>
        s = tail_image sels d @ r \<and> sel = selected_of sels)"
  (is "?l \<longleftrightarrow> ?r")
proof
  assume ?l
  then obtain n sel1 off where n: "readBEU32 (p @ s) (length p) = Inr n"
    and q: "quote_selections n (p @ s) (length p + 4) [] = Inr (sel1, off)"
    and t: "bindr (readBEU16 (p @ s) off) (\<lambda>digestSize.
       if length (p @ s) < off + 2 + digestSize then Inl (Errorf ''truncated at PCR digest data'')
       else bindr (subslice (p @ s) (off + 2) (off + 2 + digestSize)) (\<lambda>digest. Inr (sel1, digest)))
       = Inr (sel, d)"
    by (auto simp: quote_tail_def simp del: if_Inl_eq_Inr subslice_Inr length_append)
  from n obtain s1 where s1: "s = be_bytes 4 n @ s1" "n < 4294967296" by (auto simp: cursor32)
  let ?p1 = "p @ be_bytes 4 n"
  have eq1: "p @ s = ?p1 @ s1" "length p + 4 = length ?p1" using s1 by simp_all
  from q [unfolded eq1 quote_selections_Inr] obtain sels r where sels: "length sels = n" "list_all selection_ok sels"
    "s1 = concat (map selection_image sels) @ r" "sel1 = selected_of sels"
    "off = length (?p1 @ concat (map selection_image sels))"
    by (auto simp: add.assoc)
  have eq2: "p @ s = (?p1 @ concat (map selection_image sels)) @ r" using eq1 sels by simp
  from t [unfolded eq2 sels(5)] have "sel = sel1" "length d < 65536" "\<exists>r'. r = be_bytes 2 (length d) @ d @ r'"
    by (simp_all only: quote_digest_Inr)
  with s1 sels show ?r by (auto simp: tail_image_def)
next
  assume ?r
  then obtain sels r where r: "length sels < 4294967296" "list_all selection_ok sels" "length d < 65536"
    "s = tail_image sels d @ r" "sel = selected_of sels" by blast
  let ?p1 = "p @ be_bytes 4 (length sels)" and ?c = "concat (map selection_image sels)"
  let ?s2 = "be_bytes 2 (length d) @ d @ r"
  have "readBEU32 (p @ s) (length p) = Inr (length sels)" using r by (simp add: cursor32 tail_image_def)
  moreover have eq: "p @ s = ?p1 @ ?c @ ?s2" "length p + 4 = length ?p1"
    using r by (simp_all add: tail_image_def)
  have "quote_selections (length sels) (p @ s) (length p + 4) [] = Inr (sel, length (?p1 @ ?c))"
    unfolding eq quote_selections_Inr using r by (intro exI [of _ sels]) simp
  moreover have "bindr (readBEU16 (p @ s) (length (?p1 @ ?c))) (\<lambda>digestSize.
       if length (p @ s) < length (?p1 @ ?c) + 2 + digestSize then Inl (Errorf ''truncated at PCR digest data'')
       else bindr (subslice (p @ s) (length (?p1 @ ?c) + 2) (length (?p1 @ ?c) + 2 + digestSize)) (\<lambda>digest. Inr (sel, digest)))
       = Inr (sel, d)"
    using quote_digest_Inr [of "?p1 @ ?c" ?s2 _ sel sel d] r(3) unfolding eq by simp
  ultimately show ?l unfolding quote_tail_def
    by (simp only: bindr_simps case_prod_conv)
qed

text \<open>The front of a quote: the two sized fields, whose offsets the nonce and the tail share.\<close>

definition front_image :: "bytes \<Rightarrow> bytes \<Rightarrow> bytes \<Rightarrow> bytes" where
  "front_image pre signer extra =
     pre @ be_bytes 2 (length signer) @ signer @ be_bytes 2 (length extra) @ extra"

lemma quote_image_split:
  "quote_image q = front_image (Preamble q) (Signer q) (ExtraData q) @ ClockInfo q @
     tail_image (Selections q) (PcrDigest q)"
  by (simp add: quote_image_def front_image_def tail_image_def)

lemma quote_front_Inr:
  assumes m: "m = pre @ s" "length pre = 6"
  shows "readBEU16 m 6 = Inr a \<and> readBEU16 m (6 + 2 + a) = Inr b \<and> 6 + 2 + a + 2 + b \<le> length m \<longleftrightarrow>
    (\<exists>signer extra r. m = front_image pre signer extra @ r \<and>
       a = length signer \<and> b = length extra \<and> a < 65536 \<and> b < 65536)"
  (is "?l \<longleftrightarrow> ?r")
proof
  assume l: ?l
  with m cursor16 [of pre s] obtain s1 where s1: "s = be_bytes 2 a @ s1" "a < 65536" by auto
  with l m have "readBEU16 ((pre @ be_bytes 2 a) @ s1) (length (pre @ be_bytes 2 a) + a) = Inr b" by simp
  then obtain x s2 where
    s2: "s1 = x @ be_bytes 2 b @ s2" "length x = a" "b < 65536"
    unfolding cursor16_skip by blast
  with l m s1 split_at [of b s2] obtain y r where "s2 = y @ r" "length y = b" by auto
  with m s1 s2 show ?r by (intro exI [of _ x] exI [of _ y] exI [of _ r]) (simp add: front_image_def)
next
  assume ?r
  then obtain signer extra r where r: "m = front_image pre signer extra @ r"
    "a = length signer" "b = length extra" "a < 65536" "b < 65536" by blast
  then have "m = pre @ be_bytes 2 a @ signer @ be_bytes 2 b @ extra @ r" by (simp add: front_image_def)
  then show ?l using m(2) r cursor16 [of pre "be_bytes 2 a @ signer @ be_bytes 2 b @ extra @ r"]
      cursor16_skip [of "pre @ be_bytes 2 a" "signer @ be_bytes 2 b @ extra @ r" a]
    by auto
qed

lemma parseQuoteInfo_tail:
  "parseQuoteInfo m = Inr x \<longleftrightarrow>
     10 \<le> length m \<and> (\<exists>a b. readBEU16 m 6 = Inr a \<and> readBEU16 m (6 + 2 + a) = Inr b \<and>
       quote_tail m (6 + 2 + a + 2 + b + 17 + 8) = Inr x)"
  by (auto simp: parseQuoteInfo_def quote_tail_def Let_def simp del: bindr_eq_Inr if_Inl_eq_Inr subslice_Inr
      split: if_splits elim!: bindr_eq_Inr [THEN iffD1, elim_format] intro!: bindr_eq_Inr [THEN iffD2])

lemma quote_tail_bound: "quote_tail m off = Inr x \<Longrightarrow> off \<le> length m"
  by (auto simp: quote_tail_def dest!: read_bound(2) split: prod.splits)

lemma parseQuoteInfo_Inr:
  "parseQuoteInfo m = Inr (sel, d) \<longleftrightarrow>
     (\<exists>q r. attest_ok q \<and> m = quote_image q @ r \<and> sel = selected_of (Selections q) \<and> d = PcrDigest q)"
  (is "?l \<longleftrightarrow> ?r")
proof
  assume ?l
  then obtain a b where len: "10 \<le> length m" and ab: "readBEU16 m 6 = Inr a" "readBEU16 m (6 + 2 + a) = Inr b"
    and t: "quote_tail m (6 + 2 + a + 2 + b + 17 + 8) = Inr (sel, d)"
    by (auto simp only: parseQuoteInfo_tail)
  from len obtain pre s where m: "m = pre @ s" "length pre = 6" using split_at [of 6 m] by auto
  with ab quote_tail_bound [OF t] quote_front_Inr [OF m, of a b] obtain signer extra s1 where
    f: "m = front_image pre signer extra @ s1" "a = length signer" "b = length extra" "a < 65536" "b < 65536"
    by fastforce
  let ?p = "front_image pre signer extra"
  have lp: "length ?p = 6 + 2 + a + 2 + b" using f m by (simp add: front_image_def)
  with quote_tail_bound [OF t] f(1) obtain clock s2 where
    c: "s1 = clock @ s2" "length clock = 25" using split_at [of 25 s1] by auto
  have "m = (?p @ clock) @ s2" "6 + 2 + a + 2 + b + 17 + 8 = length (?p @ clock)"
    using f c lp by simp_all
  with t obtain sels r where r: "length sels < 4294967296" "list_all selection_ok sels" "length d < 65536"
    "s2 = tail_image sels d @ r" "sel = selected_of sels"
    using quote_tail_Inr by metis
  with f c m show ?r
    by (intro exI [of _ "\<lparr>Preamble = pre, Signer = signer, ExtraData = extra, ClockInfo = clock,
        Selections = sels, PcrDigest = d\<rparr>"] exI [of _ r])
      (simp add: attest_ok_def quote_image_split)
next
  assume ?r
  then obtain q r where q: "attest_ok q" "m = quote_image q @ r" "sel = selected_of (Selections q)"
    "d = PcrDigest q" by blast
  let ?p = "front_image (Preamble q) (Signer q) (ExtraData q)"
  let ?t = "tail_image (Selections q) (PcrDigest q)"
  have m: "m = Preamble q @ drop 6 m" "length (Preamble q) = 6"
    using q by (simp_all add: attest_ok_def quote_image_def)
  have "m = ?p @ ClockInfo q @ ?t @ r" using q by (simp add: quote_image_split)
  then have ab: "readBEU16 m 6 = Inr (length (Signer q))"
    "readBEU16 m (6 + 2 + length (Signer q)) = Inr (length (ExtraData q))"
    using quote_front_Inr [OF m, of "length (Signer q)" "length (ExtraData q)"] q(1)
    by (auto simp: attest_ok_def)
  have "m = (?p @ ClockInfo q) @ ?t @ r"
    "length (?p @ ClockInfo q) = 6 + 2 + length (Signer q) + 2 + length (ExtraData q) + 17 + 8"
    using q by (simp_all add: quote_image_split front_image_def attest_ok_def)
  with q have "quote_tail m (6 + 2 + length (Signer q) + 2 + length (ExtraData q) + 17 + 8) = Inr (sel, d)"
    using quote_tail_Inr [of "?p @ ClockInfo q" "?t @ r" sel d] by (auto simp: attest_ok_def)
  moreover have "10 \<le> length m" using q by (simp add: quote_image_def attest_ok_def)
  ultimately show ?l using ab unfolding parseQuoteInfo_tail by blast
qed

lemma ExtractTPMNonce_Inr:
  "ExtractTPMNonce m = Inr nonce \<longleftrightarrow>
     (\<exists>tag signer r. length tag = 2 \<and> length signer < 65536 \<and> length nonce < 65536 \<and>
        m = front_image (be_bytes 4 tpmAttestMagic @ tag) signer nonce @ r)"
  (is "?l \<longleftrightarrow> ?r")
proof
  assume ?l
  then obtain a b where len: "10 \<le> length m" and magic: "be_nat (take 4 m) = tpmAttestMagic"
    and ab: "readBEU16 m 6 = Inr a" "readBEU16 m (6 + 2 + a) = Inr b" "6 + 2 + a + 2 + b \<le> length m"
    and nonce: "nonce = take b (drop (6 + 2 + a + 2) m)"
    by (auto simp: ExtractTPMNonce_def Let_def not_less)
  from len obtain pre s where m: "m = pre @ s" "length pre = 6" using split_at [of 6 m] by auto
  from quote_front_Inr [OF m, of a b] ab obtain signer extra r where
    f: "m = front_image pre signer extra @ r" "a = length signer" "b = length extra" "a < 65536" "b < 65536"
    by blast
  have "nonce = extra" using nonce f m by (simp add: front_image_def)
  moreover have "pre = be_bytes 4 tpmAttestMagic @ drop 4 pre"
  proof -
    have "be_bytes 4 (be_nat (take 4 m)) = take 4 pre" using m by simp
    with magic show ?thesis by (metis append_take_drop_id)
  qed
  ultimately show ?r using f m by (intro exI [of _ "drop 4 pre"] exI [of _ signer] exI [of _ r]) auto
next
  assume ?r
  then obtain tag signer r where t: "length tag = 2" "length signer < 65536" "length nonce < 65536"
    "m = front_image (be_bytes 4 tpmAttestMagic @ tag) signer nonce @ r" by blast
  let ?pre = "be_bytes 4 tpmAttestMagic @ tag"
  have m: "m = ?pre @ drop 6 m" "length ?pre = 6" using t by (simp_all add: front_image_def)
  then have ab: "readBEU16 m 6 = Inr (length signer)" "readBEU16 m (6 + 2 + length signer) = Inr (length nonce)"
    "6 + 2 + length signer + 2 + length nonce \<le> length m"
    using quote_front_Inr [OF m, of "length signer" "length nonce"] t by blast+
  have "take 4 m = be_bytes 4 tpmAttestMagic" "take (length nonce) (drop (6 + 2 + length signer + 2) m) = nonce"
    using t by (simp_all add: front_image_def)
  with ab show ?l by (simp add: ExtractTPMNonce_def)
qed

lemma VerifyTPMNonce_Inr: "VerifyTPMNonce m e = Inr u \<longleftrightarrow> ExtractTPMNonce m = Inr e"
  by (auto simp: VerifyTPMNonce_def)

lemma CheckReportData_Inr:
  "CheckReportData m expected = Inr b \<longleftrightarrow>
     (case expected of None \<Rightarrow> b = None | Some e \<Rightarrow> b = Some True \<and> ExtractTPMNonce m = Inr e)"
  by (auto simp: CheckReportData_def VerifyTPMNonce_Inr split: option.splits)

section \<open>What the quote authenticates\<close>

lemma selected_pcrs_Inr:
  "selected_pcrs pcrs sel = Inr v \<longleftrightarrow>
     (\<forall>i\<in>set sel. i < length pcrs) \<and> v = concat (map (\<lambda>i. pcrs ! i) sel)"
proof -
  have "map_each (\<lambda>idx. if length pcrs \<le> idx then Inl (Errorf ''PCR selection out of range'')
      else index_at pcrs idx) sel = Inr vs \<longleftrightarrow>
    (\<forall>i\<in>set sel. i < length pcrs) \<and> vs = map (\<lambda>i. pcrs ! i) sel" for vs
    by (induction sel arbitrary: vs) (auto simp: not_le)
  then show ?thesis by (auto simp: selected_pcrs_def)
qed

lemma VerifyTPMPCRs_Inr:
  "VerifyTPMPCRs m pcrs = Inr u \<longleftrightarrow>
     pcrs \<noteq> [] \<and> (\<forall>p\<in>set pcrs. length p = 32) \<and>
     (\<exists>sel. parseQuoteInfo m = Inr (sel, sha256 (concat (map (\<lambda>i. pcrs ! i) sel))) \<and>
        (\<forall>i\<in>set sel. i < length pcrs))"
  by (auto simp: VerifyTPMPCRs_def selected_pcrs_Inr split: prod.splits)

lemma CheckInitData_Some:
  "CheckInitData m pcrs (Some e) = Inr b \<longleftrightarrow>
     b = Some True \<and> length e = 32 \<and> 8 < length pcrs \<and> pcrs ! 8 = sha256 (replicate 32 0 @ e) \<and>
     (\<exists>sel d. parseQuoteInfo m = Inr (sel, d) \<and> 8 \<in> set sel)"
  by (auto simp: CheckInitData_def not_le split: prod.splits)

lemma CheckInitData_None [simp]: "CheckInitData m pcrs None = Inr None"
  by (simp add: CheckInitData_def)

lemma concat_blocks_inj:
  "concat xs = concat ys \<Longrightarrow> \<forall>x\<in>set xs. length x = n \<Longrightarrow> \<forall>y\<in>set ys. length y = n \<Longrightarrow>
     length xs = length ys \<Longrightarrow> xs = ys"
proof (induction xs arbitrary: ys)
  case (Cons x xs)
  then obtain y ys' where "ys = y # ys'" by (cases ys) auto
  with Cons show ?case by auto
qed simp

text \<open>The string hashed for a register bank and a selection.\<close>

definition pcr_input :: "bytes list \<Rightarrow> nat list \<Rightarrow> bytes" where
  "pcr_input pcrs sel = concat (map (\<lambda>i. pcrs ! i) sel)"

lemma pcrs_authenticated:
  assumes "VerifyTPMPCRs m pcrs = Inr ()" and "VerifyTPMPCRs m pcrs' = Inr ()"
    and sel: "parseQuoteInfo m = Inr (sel, d)"
  shows "(\<forall>i\<in>set sel. i < length pcrs \<and> i < length pcrs' \<and> pcrs ! i = pcrs' ! i) \<or>
    collision_in sha256 [pcr_input pcrs sel, pcr_input pcrs' sel]"
proof -
  from assms have s: "sha256 (pcr_input pcrs sel) = sha256 (pcr_input pcrs' sel)"
    "\<forall>i\<in>set sel. i < length pcrs" "\<forall>i\<in>set sel. i < length pcrs'"
    "\<forall>p\<in>set pcrs. length p = 32" "\<forall>p\<in>set pcrs'. length p = 32"
    by (auto simp: VerifyTPMPCRs_Inr pcr_input_def)
  show ?thesis
  proof (cases "pcr_input pcrs sel = pcr_input pcrs' sel")
    case True
    with s have "map (\<lambda>i. pcrs ! i) sel = map (\<lambda>i. pcrs' ! i) sel"
      unfolding pcr_input_def by (intro concat_blocks_inj [where n = 32]) auto
    with s show ?thesis by auto
  next
    case False
    with s show ?thesis by (auto simp: collision_in_def)
  qed
qed

section \<open>Published registers\<close>

lemma pcr_key_not_nonce: "''pcr'' @ show_02d i \<noteq> ''nonce''"
  by simp

lemma map_of_publish:
  "map_of (publish_pcrs pcrs sel) k =
     (if \<exists>i\<in>set sel. i < length pcrs \<and> k = ''pcr'' @ show_02d i
      then Some (AStr (hex_encode (pcrs ! (THE i. k = ''pcr'' @ show_02d i)))) else None)"
proof (induction sel rule: rev_induct)
  case Nil
  then show ?case by (simp add: publish_pcrs_def)
next
  case (snoc i sel)
  have "(THE j. ''pcr'' @ show_02d i = ''pcr'' @ show_02d j) = i" for i by simp
  with snoc show ?case by (auto simp: publish_pcrs_def)
qed

lemma publish_pcr:
  "map_of (publish_pcrs pcrs sel) (''pcr'' @ show_02d i) =
     (if i \<in> set sel \<and> i < length pcrs then Some (AStr (hex_encode (pcrs ! i))) else None)"
  by (auto simp: map_of_publish)

lemma ApplyTPMClaims_PCR:
  "PCR (ApplyTPMClaims c pcrs m) i = Inr v \<longleftrightarrow>
     (\<exists>sel. SignedPCRSelection m = Inr sel \<and> i \<in> int ` set sel \<and> i < PCRCount \<and>
        i < int (length pcrs) \<and> v = pcrs ! nat i \<and> length v = 32)"
proof -
  let ?sel = "case SignedPCRSelection m of Inl _ \<Rightarrow> [] | Inr s \<Rightarrow> s"
  have tpm: "\<exists>tpm. map_of (PlatformData (ApplyTPMClaims c pcrs m)) ''tpm'' = Some (AMap tpm) \<and>
      (\<forall>j. map_of tpm (''pcr'' @ show_02d j) = map_of (publish_pcrs pcrs ?sel) (''pcr'' @ show_02d j))"
    by (auto simp: ApplyTPMClaims_def Let_def split: sum.splits)
  then have "PCR (ApplyTPMClaims c pcrs m) i = Inr v \<longleftrightarrow>
      0 \<le> i \<and> i < PCRCount \<and> length v = 32 \<and>
      map_of (publish_pcrs pcrs ?sel) (''pcr'' @ show_02d (nat i)) = Some (AStr (hex_encode v))"
    by (auto simp: PCR_Inr)
  also have "\<dots> \<longleftrightarrow> 0 \<le> i \<and> i < PCRCount \<and> length v = 32 \<and>
      nat i \<in> set ?sel \<and> nat i < length pcrs \<and> v = pcrs ! nat i"
    by (auto simp: publish_pcr [simplified])
  also have "\<dots> \<longleftrightarrow> (\<exists>sel. SignedPCRSelection m = Inr sel \<and> i \<in> int ` set sel \<and> i < PCRCount \<and>
        i < int (length pcrs) \<and> v = pcrs ! nat i \<and> length v = 32)"
    by (cases "SignedPCRSelection m") (auto simp: image_iff intro!: bexI [of _ "nat i"])
  finally show ?thesis .
qed

section \<open>The layout of an HCL report\<close>

definition hcl_image :: "bytes \<Rightarrow> hcl_report \<Rightarrow> bytes \<Rightarrow> bytes \<Rightarrow> nat \<Rightarrow> bytes" where
  "hcl_image header r a b pad =
     bytes_of_string ''HCLA'' @ header @ TEEReport r @ a @ le_bytes 4 (ReportType r) @ b @
     le_bytes 4 (length (VarData r) + pad) @ VarData r @ replicate pad 0"

definition hcl_ok :: "bytes \<Rightarrow> hcl_report \<Rightarrow> bytes \<Rightarrow> bytes \<Rightarrow> nat \<Rightarrow> bool" where
  "hcl_ok header r a b pad \<longleftrightarrow>
     length header = 28 \<and> length (TEEReport r) = ReportSize \<and> length a = 8 \<and> length b = 4 \<and>
     ReportType r < 4294967296 \<and> length (VarData r) + pad < 4294967296 \<and>
     VarData r \<noteq> [] \<and> last (VarData r) \<noteq> 0"

lemma length_HCLA [simp]: "length (bytes_of_string ''HCLA'') = 4"
  by simp

lemma ParseHCLReport_parts:
  "ParseHCLReport m = Inr r \<longleftrightarrow>
     1236 \<le> length m \<and> take 4 m = bytes_of_string ''HCLA'' \<and>
     (let n = le_nat (take 4 (drop 1232 m)) in
        1236 + n \<le> length m \<and> strip_trailing 0 (take n (drop 1236 m)) \<noteq> [] \<and>
        r = \<lparr>TEEReport = take 1184 (drop 32 m), ReportType = le_nat (take 4 (drop 1224 m)),
             VarData = strip_trailing 0 (take n (drop 1236 m))\<rparr>)"
proof (cases "length m < 1236")
  case False
  then have "subslice (take 20 (drop 1216 m)) 8 12 = Inr (take 4 (drop 1224 m))"
    "subslice (take 20 (drop 1216 m)) 16 20 = Inr (take 4 (drop 1232 m))"
    by (simp_all add: drop_take)
  with False show ?thesis
    by (auto simp: ParseHCLReport_def Let_def not_less simp del: subslice_Inr
        simp: subslice_def split: if_splits)
qed (simp add: ParseHCLReport_def)

lemma hcl_pieces:
  assumes "1236 \<le> length m" "n + 1236 \<le> length m"
  shows "m = take 4 m @ take 28 (drop 4 m) @ take 1184 (drop 32 m) @ take 8 (drop 1216 m) @
    take 4 (drop 1224 m) @ take 4 (drop 1228 m) @ take 4 (drop 1232 m) @ take n (drop 1236 m) @ drop (1236 + n) m"
proof -
  have step: "drop i m = take k (drop i m) @ drop (i + k) m" for i k
    by (metis append_take_drop_id drop_drop add.commute)
  have "m = take 4 m @ drop 4 m" by simp
  also have "drop 4 m = take 28 (drop 4 m) @ drop 32 m" using step [of 4 28] by simp
  also have "drop 32 m = take 1184 (drop 32 m) @ drop 1216 m" using step [of 32 1184] by simp
  also have "drop 1216 m = take 8 (drop 1216 m) @ drop 1224 m" using step [of 1216 8] by simp
  also have "drop 1224 m = take 4 (drop 1224 m) @ drop 1228 m" using step [of 1224 4] by simp
  also have "drop 1228 m = take 4 (drop 1228 m) @ drop 1232 m" using step [of 1228 4] by simp
  also have "drop 1232 m = take 4 (drop 1232 m) @ drop 1236 m" using step [of 1232 4] by simp
  also have "drop 1236 m = take n (drop 1236 m) @ drop (1236 + n) m" using step [of 1236 n] by simp
  finally show ?thesis .
qed

lemma ParseHCLReport_Inr:
  "ParseHCLReport m = Inr r \<longleftrightarrow>
     (\<exists>header a b pad rest. hcl_ok header r a b pad \<and> m = hcl_image header r a b pad @ rest)"
  (is "?l \<longleftrightarrow> ?r")
proof
  assume ?l
  let ?n = "le_nat (take 4 (drop 1232 m))" and ?t = "le_nat (take 4 (drop 1224 m))"
  from \<open>?l\<close> have p: "1236 \<le> length m" "take 4 m = bytes_of_string ''HCLA''" "1236 + ?n \<le> length m"
    "strip_trailing 0 (take ?n (drop 1236 m)) \<noteq> []"
    "r = \<lparr>TEEReport = take 1184 (drop 32 m), ReportType = ?t, VarData = strip_trailing 0 (take ?n (drop 1236 m))\<rparr>"
    by (simp_all add: ParseHCLReport_parts Let_def)
  obtain pad where pad: "take ?n (drop 1236 m) = VarData r @ replicate pad 0"
    using strip_trailing_split [of "take ?n (drop 1236 m)" 0] p(5) by auto
  have "length (take ?n (drop 1236 m)) = ?n" using p(3) by simp
  then have n: "?n = length (VarData r) + pad" unfolding pad by simp
  have lt: "?n < 4294967296" "?t < 4294967296"
    using le_nat_lt [of "take 4 (drop 1232 m)"] le_nat_lt [of "take 4 (drop 1224 m)"] p(1) by simp_all
  have enc: "le_bytes 4 ?n = take 4 (drop 1232 m)" "le_bytes 4 ?t = take 4 (drop 1224 m)"
    using p(1) by simp_all
  have "hcl_ok (take 28 (drop 4 m)) r (take 8 (drop 1216 m)) (take 4 (drop 1228 m)) pad"
    unfolding hcl_ok_def n [symmetric]
    using p lt strip_trailing_last [of 0 "take ?n (drop 1236 m)"] by simp
  moreover have "m = hcl_image (take 28 (drop 4 m)) r (take 8 (drop 1216 m)) (take 4 (drop 1228 m)) pad
      @ drop (1236 + ?n) m"
  proof -
    have "hcl_image (take 28 (drop 4 m)) r (take 8 (drop 1216 m)) (take 4 (drop 1228 m)) pad =
        take 4 m @ take 28 (drop 4 m) @ take 1184 (drop 32 m) @ take 8 (drop 1216 m) @
        take 4 (drop 1224 m) @ take 4 (drop 1228 m) @ take 4 (drop 1232 m) @ take ?n (drop 1236 m)"
    proof -
      have "TEEReport r = take 1184 (drop 32 m)" "ReportType r = ?t" using p(5) by simp_all
      then show ?thesis by (simp only: hcl_image_def p(2) enc n [symmetric] pad)
    qed
    with hcl_pieces [of m ?n] p(1,3) show ?thesis by simp
  qed
  ultimately show ?r by blast
next
  assume ?r
  then obtain header a b pad rest where ok: "hcl_ok header r a b pad"
    and m: "m = hcl_image header r a b pad @ rest" by blast
  let ?n = "length (VarData r) + pad"
  have "take 4 m = bytes_of_string ''HCLA''" "take 1184 (drop 32 m) = TEEReport r"
    "take 4 (drop 1224 m) = le_bytes 4 (ReportType r)" "take 4 (drop 1232 m) = le_bytes 4 ?n"
    "take ?n (drop 1236 m) = VarData r @ replicate pad 0" "1236 + ?n \<le> length m"
    using ok unfolding m hcl_image_def hcl_ok_def by simp_all
  moreover have "strip_trailing 0 (VarData r @ replicate pad 0) = VarData r"
    using ok by (simp add: strip_trailing_pad strip_trailing_id hcl_ok_def)
  ultimately show ?l using ok by (simp add: ParseHCLReport_parts hcl_ok_def)
qed

section \<open>No input makes the parsers panic\<close>

lemma quote_selections_no_panic [simp]: "\<not> panics_result (quote_selections n m off sel)"
  by (induction n arbitrary: off sel) (auto simp: not_le not_less)

lemma parseQuoteInfo_no_panic [simp]: "\<not> panics_result (parseQuoteInfo m)"
  by (auto simp: parseQuoteInfo_def Let_def split: prod.splits)

lemma ExtractTPMNonce_no_panic [simp]: "\<not> panics_result (ExtractTPMNonce m)"
  by (auto simp: ExtractTPMNonce_def Let_def)

lemma rsaPubFromBytes_no_panic [simp]: "\<not> panics_result (rsaPubFromBytes n e)"
  by (simp add: rsaPubFromBytes_def)

lemma no_panic_bindr: "\<not> panics_result r \<Longrightarrow> (\<And>x. \<not> panics_result (f x)) \<Longrightarrow> \<not> panics_result (bindr r f)"
  by simp

lemma no_panic_guard: "\<not> panics_result x \<Longrightarrow> (\<not> c \<Longrightarrow> \<not> panics_result y) \<Longrightarrow> \<not> panics_result (if c then x else y)"
  by simp

lemma TPM2B_no_panic [simp]: "\<not> panics_result (extractAKPubFromTPM2BPublic d)"
  unfolding extractAKPubFromTPM2BPublic_def Let_def
  by (intro no_panic_bindr no_panic_guard) (simp_all add: not_less)

lemma ParseHCLReport_no_panic [simp]: "\<not> panics_result (ParseHCLReport m)"
  by (auto simp: ParseHCLReport_def Let_def not_less subslice_def)

lemma selected_pcrs_no_panic [simp]: "\<not> panics_result (selected_pcrs pcrs sel)"
proof -
  have "\<not> panics_result (map_each (\<lambda>idx. if length pcrs \<le> idx
      then Inl (Errorf ''PCR selection out of range'') else index_at pcrs idx) sel)"
    by (induction sel) (auto split: if_splits)
  then show ?thesis by (simp add: selected_pcrs_def)
qed

lemma VerifyTPMPCRs_no_panic [simp]: "\<not> panics_result (VerifyTPMPCRs m pcrs)"
  by (auto simp: VerifyTPMPCRs_def panics_for_each split: prod.splits)

lemma CheckInitData_no_panic [simp]: "\<not> panics_result (CheckInitData m pcrs e)"
  by (auto simp: CheckInitData_def not_le split: prod.splits option.splits)

section \<open>Sample quotes\<close>

definition sample_attest :: "bytes \<Rightarrow> bytes \<Rightarrow> attest" where
  "sample_attest extra digest =
     \<lparr>Preamble = be_bytes 4 tpmAttestMagic @ [0x80, 0x18], Signer = [], ExtraData = extra,
      ClockInfo = replicate 25 0, Selections = [([0, 0x0B], [0, 1])], PcrDigest = digest\<rparr>"

definition sample_bank :: "bytes \<Rightarrow> bytes list" where
  "sample_bank v = replicate 8 (replicate 32 0) @ [v]"

definition sample_quote :: "bytes \<Rightarrow> bytes \<Rightarrow> bytes" where
  "sample_quote extra v = quote_image (sample_attest extra (sha256 v))"

lemma sample_selected: "selected_of [([0, 0x0B], [0, 1])] = [8]"
  by code_simp

lemma parse_sample:
  "length extra < 65536 \<Longrightarrow> parseQuoteInfo (sample_quote extra v) = Inr ([8], sha256 v)"
  by (subst parseQuoteInfo_Inr, intro exI [of _ "sample_attest extra (sha256 v)"] exI [of _ "[]"])
    (simp add: sample_quote_def sample_selected sample_attest_def attest_ok_def selection_ok_def)

lemma verify_sample:
  "length extra < 65536 \<Longrightarrow> length v = 32 \<Longrightarrow> VerifyTPMPCRs (sample_quote extra v) (sample_bank v) = Inr ()"
  by (auto simp: VerifyTPMPCRs_Inr parse_sample sample_bank_def nth_append)

section \<open>Properties\<close>

text \<open>
  C21: the quote parser is exact. \<open>parseQuoteInfo\<close> accepts a message precisely when it starts with a
  \<open>TPMS_ATTEST\<close> of the documented layout (sized signer, sized extra data, clock and firmware,
  counted selections with their bitmaps, sized digest), and returns the registers its bitmaps name
  and its digest.
\<close>

theorem parseQuoteInfo_exact:
  "parseQuoteInfo m = Inr (sel, d) \<longleftrightarrow>
     (\<exists>q r. attest_ok q \<and> m = quote_image q @ r \<and> sel = selected_of (Selections q) \<and> d = PcrDigest q)"
  by (rule parseQuoteInfo_Inr)

text \<open>
  The nonce is the extra data. \<open>CheckReportData\<close> confirms an expected nonce exactly for the
  messages with the attest magic whose extra data field, after the sized signer, is that nonce,
  byte for byte and with its length; without an expectation it confirms nothing.
\<close>

lemma CheckReportData_exact:
  "(CheckReportData m (Some e) = Inr b \<longleftrightarrow>
     b = Some True \<and> length e < 65536 \<and>
     (\<exists>tag signer r. length tag = 2 \<and> length signer < 65536 \<and>
        m = front_image (be_bytes 4 tpmAttestMagic @ tag) signer e @ r)) \<and>
   CheckReportData m None = Inr None"
  by (auto simp: CheckReportData_Inr ExtractTPMNonce_Inr)

text \<open>
  C6: the quote authenticates the selected registers. If two register banks both pass
  \<open>VerifyTPMPCRs\<close> under one quote, each of them has every register that the quote's selection names,
  and they agree on it; or the two strings that the verifier hashes, the banks' registers in the order
  of the selection, are a SHA-256 collision.
\<close>

theorem quote_authenticates_selection:
  assumes "VerifyTPMPCRs m pcrs = Inr ()" and "VerifyTPMPCRs m pcrs' = Inr ()"
    and "parseQuoteInfo m = Inr (sel, d)"
  shows "(\<forall>i\<in>set sel. i < length pcrs \<and> i < length pcrs' \<and> pcrs ! i = pcrs' ! i) \<or>
    collision_in sha256 [pcr_input pcrs sel, pcr_input pcrs' sel]"
  using assms by (rule pcrs_authenticated)

text \<open>Two banks that differ in every register the quote does not select.\<close>

theorem quote_authenticates_selection_witness:
  "let m = sample_quote [] (replicate 32 7); bank = sample_bank (replicate 32 7);
       other = replicate 8 (replicate 32 9) @ [replicate 32 7, replicate 32 1]
   in VerifyTPMPCRs m bank = Inr () \<and> VerifyTPMPCRs m other = Inr () \<and> bank ! 0 \<noteq> other ! 0 \<and>
      (\<forall>i\<in>set [8]. i < length bank \<and> i < length other \<and> bank ! i = other ! i) \<and>
      ((\<forall>i\<in>set [8]. i < length bank \<and> i < length other \<and> bank ! i = other ! i) \<or>
       collision_in sha256 [pcr_input bank [8], pcr_input other [8]])"
proof -
  let ?m = "sample_quote [] (replicate 32 7)" and ?bank = "sample_bank (replicate 32 7)"
    and ?other = "replicate 8 (replicate 32 9) @ [replicate 32 7, replicate 32 (1::byte)]"
  have v: "VerifyTPMPCRs ?m ?bank = Inr ()" by (rule verify_sample) simp_all
  have v': "VerifyTPMPCRs ?m ?other = Inr ()"
    by (auto simp: VerifyTPMPCRs_Inr parse_sample nth_append)
  have p: "parseQuoteInfo ?m = Inr ([8], sha256 (replicate 32 7))" by (simp add: parse_sample)
  have "(0::byte) \<noteq> 9" by code_simp
  then have "?bank ! 0 \<noteq> ?other ! 0" by (simp add: sample_bank_def nth_append)
  with v v' quote_authenticates_selection [OF v v' p] show ?thesis
    unfolding Let_def by (auto simp: sample_bank_def nth_append)
qed

text \<open>
  C17: only signed registers are published. After \<open>ApplyTPMClaims\<close> a register read from the claims
  has a value exactly when the quote's signed selection contains it and the bank carries 32 bytes
  for it, and the value is the bank's; whatever else the claims or the bank held is not readable.
\<close>

theorem ApplyTPMClaims_publishes_signed:
  "PCR (ApplyTPMClaims c pcrs m) i = Inr v \<longleftrightarrow>
     (\<exists>sel. SignedPCRSelection m = Inr sel \<and> i \<in> int ` set sel \<and> i < PCRCount \<and>
        i < int (length pcrs) \<and> v = pcrs ! nat i \<and> length v = 32)"
  by (rule ApplyTPMClaims_PCR)

text \<open>
  Init data is authenticated. Two init-data hashes confirmed under one quote, each against a
  bank that passes \<open>VerifyTPMPCRs\<close>, are equal, or a SHA-256 collision is at hand: between the
  banks' selected registers or between the two extended hashes.
\<close>

lemma CheckInitData_unique:
  assumes "VerifyTPMPCRs m pcrs = Inr ()" and "CheckInitData m pcrs (Some e) = Inr (Some True)"
    and "VerifyTPMPCRs m pcrs' = Inr ()" and "CheckInitData m pcrs' (Some e') = Inr (Some True)"
    and p: "parseQuoteInfo m = Inr (sel, d)"
  shows "e = e' \<or> collision_in sha256
    [pcr_input pcrs sel, pcr_input pcrs' sel, replicate 32 0 @ e, replicate 32 0 @ e']"
proof -
  from assms(2,4) p have "8 \<in> set sel"
    and v: "pcrs ! 8 = sha256 (replicate 32 0 @ e)" "pcrs' ! 8 = sha256 (replicate 32 0 @ e')"
    by (auto simp: CheckInitData_Some)
  from pcrs_authenticated [OF assms(1,3) p] show ?thesis
  proof
    assume "\<forall>i\<in>set sel. i < length pcrs \<and> i < length pcrs' \<and> pcrs ! i = pcrs' ! i"
    with \<open>8 \<in> set sel\<close> v have "sha256 (replicate 32 0 @ e) = sha256 (replicate 32 0 @ e')" by fastforce
    then show ?thesis by (auto simp: collision_in_def)
  next
    assume "collision_in sha256 [pcr_input pcrs sel, pcr_input pcrs' sel]"
    then show ?thesis by (intro disjI2, elim collision_in_mono) auto
  qed
qed

lemma CheckInitData_unique_example:
  "let v = sha256 (replicate 32 0 @ replicate 32 5) in
   replicate 32 (5::byte) = replicate 32 5 \<or> collision_in sha256
     [pcr_input (sample_bank v) [8], pcr_input (sample_bank v) [8],
      replicate 32 0 @ replicate 32 5, replicate 32 0 @ replicate 32 5]"
  unfolding Let_def
proof (rule CheckInitData_unique)
  let ?v = "sha256 (replicate 32 0 @ replicate 32 5)"
  show "VerifyTPMPCRs (sample_quote [] ?v) (sample_bank ?v) = Inr ()"
    "VerifyTPMPCRs (sample_quote [] ?v) (sample_bank ?v) = Inr ()"
    by (rule verify_sample; simp)+
  show "CheckInitData (sample_quote [] ?v) (sample_bank ?v) (Some (replicate 32 5)) = Inr (Some True)"
    "CheckInitData (sample_quote [] ?v) (sample_bank ?v) (Some (replicate 32 5)) = Inr (Some True)"
    by (auto simp: CheckInitData_Some parse_sample sample_bank_def nth_append)
  show "parseQuoteInfo (sample_quote [] ?v) = Inr ([8], sha256 ?v)" by (simp add: parse_sample)
qed

text \<open>
  The HCL parser is exact. \<open>ParseHCLReport\<close> accepts exactly the byte strings that start with
  the documented layout, and returns the hardware report, the type and the var data with its zero
  padding removed.
\<close>

lemma ParseHCLReport_exact:
  "ParseHCLReport m = Inr r \<longleftrightarrow>
     (\<exists>header a b pad rest. hcl_ok header r a b pad \<and> m = hcl_image header r a b pad @ rest)"
  by (rule ParseHCLReport_Inr)

text \<open>
  C35: no byte string makes the vTPM layer panic: every slice and index the parsers and the register
  checks form is in range.
\<close>

theorem tpm_no_panic:
  "\<not> panics_result (ParseHCLReport m) \<and> \<not> panics_result (parseQuoteInfo m) \<and>
   \<not> panics_result (ExtractTPMNonce m) \<and> \<not> panics_result (extractAKPubFromTPM2BPublic m) \<and>
   \<not> panics_result (VerifyTPMPCRs m pcrs) \<and> \<not> panics_result (CheckInitData m pcrs e)"
  by simp

text \<open>
  The register checks never look at what kind of attestation the key signed or at which hash
  bank a selection names. Two messages that differ only in the first six bytes (magic and type)
  and in the algorithm of each selection yield the same selection and digest, so a quote of another
  bank passes as one of SHA-256 registers.
\<close>

lemma quote_kind_unchecked:
  assumes "attest_ok q" and "attest_ok q'"
    and "map snd (Selections q) = map snd (Selections q')" and "PcrDigest q = PcrDigest q'"
  shows "VerifyTPMPCRs (quote_image q) pcrs = VerifyTPMPCRs (quote_image q') pcrs"
proof -
  have sel: "selected_of s = concat (map (bitmap_bits 0) (map snd s))" for s
    by (simp add: selected_of_def o_def)
  have "parseQuoteInfo (quote_image x) = Inr (selected_of (Selections x), PcrDigest x)" if "attest_ok x" for x
    using that by (auto simp: parseQuoteInfo_Inr intro!: exI [of _ x] exI [of _ "[]"])
  moreover have "selected_of (Selections q) = selected_of (Selections q')" by (simp only: sel assms(3))
  ultimately have "parseQuoteInfo (quote_image q) = parseQuoteInfo (quote_image q')" using assms by simp
  then show ?thesis by (simp add: VerifyTPMPCRs_def)
qed

definition sample_sha1_attest :: attest where
  "sample_sha1_attest = (sample_attest [] (sha256 (replicate 32 7)))
     \<lparr>Preamble := replicate 6 0, Selections := [([0, 4], [0, 1])]\<rparr>"

lemma quote_kind_unchecked_example:
  "VerifyTPMPCRs (quote_image sample_sha1_attest) (sample_bank (replicate 32 7)) = Inr ()"
proof -
  have "VerifyTPMPCRs (quote_image sample_sha1_attest) (sample_bank (replicate 32 7)) =
      VerifyTPMPCRs (quote_image (sample_attest [] (sha256 (replicate 32 7)))) (sample_bank (replicate 32 7))"
    by (rule quote_kind_unchecked)
      (simp_all add: sample_sha1_attest_def sample_attest_def attest_ok_def selection_ok_def)
  also have "\<dots> = Inr ()"
    using verify_sample [of "[]" "replicate 32 7"] by (simp add: sample_quote_def)
  finally show ?thesis .
qed

end
