(* ===== verification/Remote.thy ===== *)
theory Remote
  imports Binding Tpm
begin

text \<open>
  The package \<open>remote\<close>: the request types of \<open>wire.go\<close>, the policy checks of \<open>verify.go\<close> and
  whole-image pins of \<open>images.go\<close>.

  The service behind \<open>POST /verify\<close> is a parameter \<open>svc\<close>, a function from requests to responses
  or errors; the text of the evidence JSON is decoded by the parameter \<open>quote_of\<close>. A slice of
  which the code only reads the length is a byte list (nil is empty); the three launch bindings of
  an image pin are tested against nil, so they are options.
\<close>

section \<open>Wire types\<close>

abbreviation (input) measurementSize :: nat where "measurementSize \<equiv> 48"

record attestation_evidence =
  EvPlatform :: string
  EvEvidence :: bytes

record req_params =
  ReqReportData :: bytes
  ReqInitDataHash :: bytes
  ReqAllowDebug :: "bool option"
  ReqMinTcb :: "snp_tcb option"
  ReqLaunchDigest :: bytes
  ReqMRTD :: bytes
  ReqRTMR0 :: bytes
  ReqRTMR1 :: bytes
  ReqRTMR2 :: bytes
  ReqRTMR3 :: bytes

record verify_request =
  ReqPlatform :: string
  ReqEvidence :: bytes
  ReqParams :: "req_params option"
  ReqIssueToken :: "bool option"

record verify_response =
  RespResult :: verification_result
  RespToken :: "string option"

definition NewVerifyRequestNoToken ::
    "attestation_evidence \<Rightarrow> req_params option \<Rightarrow> verify_request" where
  "NewVerifyRequestNoToken ev params =
     \<lparr>ReqPlatform = EvPlatform ev, ReqEvidence = EvEvidence ev, ReqParams = params,
      ReqIssueToken = Some False\<rparr>"

definition NewVerifyRequest ::
    "attestation_evidence \<Rightarrow> req_params option \<Rightarrow> bool \<Rightarrow> verify_request" where
  "NewVerifyRequest ev params issueToken =
     (NewVerifyRequestNoToken ev params)\<lparr>ReqIssueToken := Some issueToken\<rparr>"

definition checkMeasurementWidth :: "bytes \<Rightarrow> err + unit" where
  "checkMeasurementWidth b =
     (if 0 < length b \<and> length b \<noteq> measurementSize then Inl (Errorf ''measurement width'') else Inr ())"

text \<open>The loop over the sorted register indices, filling the array of four.\<close>

fun fill_registers :: "pins \<Rightarrow> int list \<Rightarrow> bytes list \<Rightarrow> err + bytes list" where
  "fill_registers rtmrs [] registers = Inr registers"
| "fill_registers rtmrs (idx # is) registers =
     (if idx < 0 \<or> 4 \<le> idx then Inl (Errorf ''RTMR index out of range'')
      else
        let pin = (case map_of rtmrs idx of Some b \<Rightarrow> b | None \<Rightarrow> []) in
        bindr (checkMeasurementWidth pin) (\<lambda>_.
          fill_registers rtmrs is (registers[nat idx := pin])))"

definition SetExpectedMeasurements :: "req_params \<Rightarrow> string \<Rightarrow> bytes \<Rightarrow> pins \<Rightarrow> err + req_params" where
  "SetExpectedMeasurements p platform launchMeasurement rtmrs =
     bindr (checkMeasurementWidth launchMeasurement) (\<lambda>_.
     if rtmrs \<noteq> [] \<and> \<not> HasRegisters platform
     then Inl (Errorf ''platform has no runtime measurement registers'')
     else
       bindr
         (case Family platform of
            FamilyTDX \<Rightarrow> Inr (launchMeasurement, [])
          | FamilySNP \<Rightarrow> Inr ([], launchMeasurement)
          | FamilyUnknown \<Rightarrow> Inl (Errorf ''unknown platform'')) (\<lambda>(mrtd, digest).
       bindr (fill_registers rtmrs (sorted_keys rtmrs) [[], [], [], []]) (\<lambda>registers.
       Inr (p\<lparr>ReqMRTD := mrtd, ReqLaunchDigest := digest, ReqRTMR0 := registers ! 0,
              ReqRTMR1 := registers ! 1, ReqRTMR2 := registers ! 2, ReqRTMR3 := registers ! 3\<rparr>))))"

section \<open>Enforcing a verdict\<close>

definition launchDigest :: "verify_response \<Rightarrow> err + bytes" where
  "launchDigest resp =
     (if trim_space (LaunchDigest (Claims (RespResult resp))) = []
      then Inl (Wrap (Sentinel ErrMeasurementNotAllowed) (Errorf ''launch measurement missing''))
      else wrap_err (Sentinel ErrInvalidLaunchDigest) (LaunchMeasurement (Claims (RespResult resp))))"

definition MeasurementAllowed :: "bytes \<Rightarrow> bytes list \<Rightarrow> bool" where
  "MeasurementAllowed measurement allowed \<longleftrightarrow> measurement \<in> set allowed"

definition EnforceLaunchMeasurement :: "verify_response \<Rightarrow> bytes list \<Rightarrow> err + unit" where
  "EnforceLaunchMeasurement resp allowed =
     (if LaunchDigest (Claims (RespResult resp)) = [] then
        (if allowed \<noteq> []
         then Inl (Wrap (Sentinel ErrMeasurementNotAllowed) (Errorf ''launch measurement missing''))
         else Inr ())
      else
        bindr (launchDigest resp) (\<lambda>measurement.
        if allowed \<noteq> [] \<and> \<not> MeasurementAllowed measurement allowed
        then Inl (Wrap (Sentinel ErrMeasurementNotAllowed) (Errorf ''launch measurement does not match''))
        else Inr ()))"

definition enforceRTMRsAgainst :: "claims \<Rightarrow> pins \<Rightarrow> err + unit" where
  "enforceRTMRsAgainst c pinned = wrap_err (Sentinel ErrRegistersNotAllowed) (CheckRTMRs c pinned)"

definition EnforceRTMRs :: "verify_response \<Rightarrow> pins \<Rightarrow> err + unit" where
  "EnforceRTMRs resp pinned =
     (if pinned = [] then Inr () else enforceRTMRsAgainst (Claims (RespResult resp)) pinned)"

definition enforceExpectedMeasurements :: "req_params \<Rightarrow> verify_response \<Rightarrow> err + unit" where
  "enforceExpectedMeasurements params resp =
     (let allowed = filter (\<lambda>m. 0 < length m) [ReqLaunchDigest params, ReqMRTD params];
          pinned = filter (\<lambda>p. 0 < length (snd p))
            [(0, ReqRTMR0 params), (1, ReqRTMR1 params), (2, ReqRTMR2 params), (3, ReqRTMR3 params)]
      in bindr (if allowed \<noteq> [] then EnforceLaunchMeasurement resp allowed else Inr ()) (\<lambda>_.
         EnforceRTMRs resp pinned))"

definition EnforceVerdict :: "verify_request \<Rightarrow> verify_response \<Rightarrow> err + unit" where
  "EnforceVerdict req resp =
     (case Check (Some (RespResult resp)) of
        Inl e \<Rightarrow> Inl (Sentinel ErrSignatureInvalid)
      | Inr _ \<Rightarrow>
          (case ReqParams req of
             None \<Rightarrow> Inr ()
           | Some params \<Rightarrow>
               if 0 < length (ReqReportData params) \<and> ReportDataMatch (RespResult resp) \<noteq> Some True
               then Inl (Sentinel ErrReportDataMismatch)
               else if 0 < length (ReqInitDataHash params) \<and> InitDataMatch (RespResult resp) \<noteq> Some True
               then Inl (Sentinel ErrInitDataMismatch)
               else enforceExpectedMeasurements params resp))"

definition VerifyEnforced ::
    "(verify_request \<Rightarrow> err + verify_response) \<Rightarrow> verify_request \<Rightarrow> err + verify_response" where
  "VerifyEnforced svc req =
     bindr (svc req) (\<lambda>resp. bindr (EnforceVerdict req resp) (\<lambda>_. Inr resp))"

section \<open>Policies and image pins\<close>

record image_pin =
  ImgName :: string
  ImgDigest :: bytes
  ImgRegisters :: pins
  ImgAnchor :: "bytes option"
  ImgLaunchFile :: "bytes option"
  ImgLaunchFileDigest :: "bytes option"
  ImgAccept :: "(string \<Rightarrow> err option) option"

record policy =
  PolReportData :: bytes
  PolAllowDebug :: bool
  PolMinTcb :: "snp_tcb option"
  PolImages :: "image_pin list"
  PolMeasurements :: "bytes list"
  PolRegisters :: pins
  PolPCRs :: pins
  PolInitDataHash :: bytes

definition checkVerifiedPlatform :: "verify_response \<Rightarrow> string \<Rightarrow> err + unit" where
  "checkVerifiedPlatform resp platform =
     (let verified = ResPlatform (RespResult resp) in
      if verified = [] \<or> NormalizePlatform platform = NormalizePlatform verified then Inr ()
      else Inl (Wrap (Sentinel ErrPlatformMismatch) (Errorf ''verified platform'')))"

definition signedPCRSelection :: "(bytes \<Rightarrow> err + raw_tpm_quote option) \<Rightarrow> bytes \<Rightarrow> err + nat list" where
  "signedPCRSelection quote_of evidence =
     bindr (wrap_err (Errorf ''evidence'') (quote_of evidence)) (\<lambda>q.
     case q of
       None \<Rightarrow> Inl (Errorf ''evidence carries no tpm_quote'')
     | Some raw \<Rightarrow>
         bindr (wrap_err (Errorf ''tpm_quote.message hex'') (hex_decode (RawMessage raw)))
           SignedPCRSelection)"

definition EnforcePCRs ::
    "(bytes \<Rightarrow> err + raw_tpm_quote option) \<Rightarrow> attestation_evidence \<Rightarrow> claims \<Rightarrow> pins \<Rightarrow> err + unit" where
  "EnforcePCRs quote_of ev c pinned =
     (if pinned = [] then Inr ()
      else if \<not> HasVTPMQuote (EvPlatform ev)
      then Inl (Wrap (Sentinel ErrPCRNotAllowed) (Errorf ''platform carries no vTPM quote''))
      else
        bindr (wrap_err (Sentinel ErrPCRNotAllowed) (signedPCRSelection quote_of (EvEvidence ev))) (\<lambda>signed.
        for_each
          (\<lambda>idx.
             if idx \<notin> int ` set signed
             then Inl (Wrap (Sentinel ErrPCRNotAllowed) (Errorf ''not in the signed selection''))
             else
               bindr (wrap_err (Sentinel ErrPCRNotAllowed) (PCR c idx)) (\<lambda>got.
               if Some got \<noteq> map_of pinned idx
               then Inl (Wrap (Sentinel ErrPCRNotAllowed) (Errorf ''does not match'')) else Inr ()))
          (sorted_keys pinned)))"

definition check_launch_pin :: "family \<Rightarrow> image_pin \<Rightarrow> err + unit" where
  "check_launch_pin f img =
     (let bindings = (if ImgAnchor img \<noteq> None then 1 else 0) + (if ImgLaunchFile img \<noteq> None then 1 else 0)
            + (if ImgLaunchFileDigest img \<noteq> None then 1 else (0::nat))
      in if 1 < bindings then Inl (Wrap (Sentinel ErrLaunchFileNotAllowed) (Errorf ''more than one binding''))
         else if ImgLaunchFile img = Some []
         then Inl (Wrap (Sentinel ErrLaunchFileNotAllowed) (Errorf ''the launch file pin is empty''))
         else if ImgLaunchFile img \<noteq> None \<and> ImgAccept img \<noteq> None
         then Inl (Wrap (Sentinel ErrLaunchFileNotAllowed) (Errorf ''the pin sets AcceptExtension''))
         else
           case ImgLaunchFileDigest img of
             None \<Rightarrow> Inr ()
           | Some d \<Rightarrow> wrap_err (Sentinel ErrLaunchFileNotAllowed) (CheckLaunchFileDigest f d))"

definition checkLaunchBindingPins :: "image_pin list \<Rightarrow> family \<Rightarrow> err + unit" where
  "checkLaunchBindingPins images f = for_each (check_launch_pin f) images"

definition enforceReplayedBinding ::
    "(verification_result option \<Rightarrow> bytes \<Rightarrow> string list \<Rightarrow> err + nat) \<Rightarrow> verification_result \<Rightarrow> bytes \<Rightarrow>
     string list \<Rightarrow> (string \<Rightarrow> err option) option \<Rightarrow> err + unit" where
  "enforceReplayedBinding match v bound claimed accept =
     bindr (match (Some v) bound claimed) (\<lambda>k.
     bindr (subslice claimed 0 k) (\<lambda>proven.
     case accept of
       None \<Rightarrow> (if 0 < length proven then Inl (Errorf ''the pin sets no AcceptExtension'') else Inr ())
     | Some f \<Rightarrow>
         for_each (\<lambda>d. case f d of None \<Rightarrow> Inr () | Some e \<Rightarrow> Inl (Wrap (Errorf ''refused'') e)) proven))"

definition enforceLaunchFile :: "verification_result \<Rightarrow> bytes \<Rightarrow> err + unit" where
  "enforceLaunchFile v launchFile = VerifyBinding (Some v) launchFile []"

text \<open>The checks of one image after its digest has matched.\<close>

definition check_image :: "verify_response \<Rightarrow> string \<Rightarrow> string list \<Rightarrow> image_pin \<Rightarrow> err + unit" where
  "check_image resp platform claimed img =
     bindr
       (if ImgRegisters img = [] then Inr ()
        else if \<not> HasRegisters platform
        then Inl (Wrap (Sentinel ErrRegistersNotAllowed) (Errorf ''platform has none''))
        else enforceRTMRsAgainst (Claims (RespResult resp)) (ImgRegisters img)) (\<lambda>_.
     bindr
       (case ImgAnchor img of
          None \<Rightarrow> Inr ()
        | Some a \<Rightarrow> wrap_err (Sentinel ErrAnchorNotAllowed)
            (enforceReplayedBinding MatchBindingPrefix (RespResult resp) a claimed (ImgAccept img))) (\<lambda>_.
     bindr
       (case ImgLaunchFile img of
          None \<Rightarrow> Inr ()
        | Some f \<Rightarrow> wrap_err (Sentinel ErrLaunchFileNotAllowed) (enforceLaunchFile (RespResult resp) f)) (\<lambda>_.
       (case ImgLaunchFileDigest img of
          None \<Rightarrow> Inr ()
        | Some d \<Rightarrow> wrap_err (Sentinel ErrLaunchFileNotAllowed)
            (enforceReplayedBinding MatchLaunchFileDigestPrefix (RespResult resp) d claimed (ImgAccept img))))))"

fun images_loop ::
    "verify_response \<Rightarrow> string \<Rightarrow> string list \<Rightarrow> bytes \<Rightarrow> image_pin list \<Rightarrow> err option \<Rightarrow> err + unit" where
  "images_loop resp platform claimed digest [] lastErr =
     (case lastErr of
        Some e \<Rightarrow> Inl e
      | None \<Rightarrow> Inl (Wrap (Sentinel ErrMeasurementNotAllowed) (Errorf ''no pinned image'')))"
| "images_loop resp platform claimed digest (img # imgs) lastErr =
     (if digest \<noteq> ImgDigest img then images_loop resp platform claimed digest imgs lastErr
      else case check_image resp platform claimed img of
          Inl e \<Rightarrow> images_loop resp platform claimed digest imgs (Some e)
        | Inr _ \<Rightarrow> Inr ())"

definition EnforceImagesWithRuntimeLog ::
    "verify_response \<Rightarrow> image_pin list \<Rightarrow> string \<Rightarrow> string list \<Rightarrow> err + unit" where
  "EnforceImagesWithRuntimeLog resp images platform claimed =
     (if images = [] then Inr ()
      else
        bindr (checkVerifiedPlatform resp platform) (\<lambda>_.
        bindr (checkLaunchBindingPins images (Family platform)) (\<lambda>_.
        bindr (launchDigest resp) (\<lambda>digest.
        images_loop resp platform claimed digest images None))))"

definition EnforceImages :: "verify_response \<Rightarrow> image_pin list \<Rightarrow> string \<Rightarrow> err + unit" where
  "EnforceImages resp images platform = EnforceImagesWithRuntimeLog resp images platform []"

definition EnforcePinsWithRuntimeLog ::
    "(bytes \<Rightarrow> err + raw_tpm_quote option) \<Rightarrow> verify_response \<Rightarrow> policy \<Rightarrow> attestation_evidence \<Rightarrow>
     string list \<Rightarrow> err + unit" where
  "EnforcePinsWithRuntimeLog quote_of resp pol ev claimed =
     (let platform = EvPlatform ev in
      bindr (checkVerifiedPlatform resp platform) (\<lambda>_.
      bindr (EnforcePCRs quote_of ev (Claims (RespResult resp)) (PolPCRs pol)) (\<lambda>_.
      if PolImages pol \<noteq> [] then EnforceImagesWithRuntimeLog resp (PolImages pol) platform claimed
      else
        bindr (EnforceLaunchMeasurement resp (PolMeasurements pol)) (\<lambda>_.
        if HasRegisters platform then EnforceRTMRs resp (PolRegisters pol)
        else if PolRegisters pol \<noteq> []
        then Inl (Wrap (Sentinel ErrRegistersNotAllowed) (Errorf ''platform has none''))
        else Inr ()))))"

definition EnforcePins ::
    "(bytes \<Rightarrow> err + raw_tpm_quote option) \<Rightarrow> verify_response \<Rightarrow> policy \<Rightarrow> attestation_evidence \<Rightarrow> err + unit" where
  "EnforcePins quote_of resp pol ev = EnforcePinsWithRuntimeLog quote_of resp pol ev []"

definition policy_params :: "policy \<Rightarrow> req_params" where
  "policy_params pol =
     \<lparr>ReqReportData = PolReportData pol, ReqInitDataHash = PolInitDataHash pol,
      ReqAllowDebug = Some (PolAllowDebug pol), ReqMinTcb = PolMinTcb pol, ReqLaunchDigest = [],
      ReqMRTD = [], ReqRTMR0 = [], ReqRTMR1 = [], ReqRTMR2 = [], ReqRTMR3 = []\<rparr>"

definition VerifyEvidenceWithRuntimeLog ::
    "(bytes \<Rightarrow> err + raw_tpm_quote option) \<Rightarrow> (verify_request \<Rightarrow> err + verify_response) \<Rightarrow>
     attestation_evidence \<Rightarrow> policy \<Rightarrow> string list \<Rightarrow> err + verify_response" where
  "VerifyEvidenceWithRuntimeLog quote_of svc ev pol claimed =
     (let f = Family (EvPlatform ev) in
      if f = FamilyUnknown then Inl (Wrap (Sentinel ErrUnsupportedPlatform) (Errorf ''platform''))
      else if PolMinTcb pol \<noteq> None \<and> f \<noteq> FamilySNP
      then Inl (Wrap (Sentinel ErrMinTcbNotAllowed) (Errorf ''platform has no SEV-SNP TCB''))
      else
        bindr (VerifyEnforced svc (NewVerifyRequestNoToken ev (Some (policy_params pol)))) (\<lambda>resp.
        bindr (EnforcePinsWithRuntimeLog quote_of resp pol ev claimed) (\<lambda>_. Inr resp)))"

definition VerifyEvidence ::
    "(bytes \<Rightarrow> err + raw_tpm_quote option) \<Rightarrow> (verify_request \<Rightarrow> err + verify_response) \<Rightarrow>
     attestation_evidence \<Rightarrow> policy \<Rightarrow> err + verify_response" where
  "VerifyEvidence quote_of svc ev pol = VerifyEvidenceWithRuntimeLog quote_of svc ev pol []"

section \<open>What the checks decide\<close>

lemma for_each_Inr_list_all: "for_each f xs = Inr u \<longleftrightarrow> list_all (\<lambda>x. f x = Inr ()) xs"
  by (simp add: list_all_iff)

lemma LaunchMeasurement_nonblank:
  "LaunchMeasurement c = Inr m \<Longrightarrow> trim_space (LaunchDigest c) \<noteq> []"
proof
  assume "LaunchMeasurement c = Inr m" "trim_space (LaunchDigest c) = []"
  then have "length m = 48" "to_lower [] = hex_encode m" by (simp_all add: LaunchMeasurement_Inr)
  moreover have "to_lower [] = []" by (rule to_lower_plain) simp
  ultimately show False by (simp add: eq_commute [of "[]"])
qed

lemma launchDigest_Inr [simp]:
  "launchDigest resp = Inr m \<longleftrightarrow> LaunchMeasurement (Claims (RespResult resp)) = Inr m"
  by (auto simp: launchDigest_def LaunchMeasurement_nonblank)

lemma EnforceLaunchMeasurement_Inr:
  "EnforceLaunchMeasurement resp allowed = Inr u \<longleftrightarrow>
     (if allowed = []
      then LaunchDigest (Claims (RespResult resp)) = [] \<or>
           (\<exists>m. LaunchMeasurement (Claims (RespResult resp)) = Inr m)
      else \<exists>m\<in>set allowed. LaunchMeasurement (Claims (RespResult resp)) = Inr m)"
  using LaunchMeasurement_nonblank [of "Claims (RespResult resp)"]
  by (auto simp: EnforceLaunchMeasurement_def MeasurementAllowed_def)

lemma enforceRTMRsAgainst_Inr [simp]: "enforceRTMRsAgainst c pinned = Inr u \<longleftrightarrow> pins_hold c pinned"
  by (simp add: enforceRTMRsAgainst_def CheckRTMRs_Inr)

lemma EnforceRTMRs_Inr [simp]:
  "EnforceRTMRs resp pinned = Inr u \<longleftrightarrow> pins_hold (Claims (RespResult resp)) pinned"
  by (auto simp: EnforceRTMRs_def pins_hold_def)

definition platform_agrees :: "verify_response \<Rightarrow> string \<Rightarrow> bool" where
  "platform_agrees resp platform \<longleftrightarrow>
     ResPlatform (RespResult resp) = [] \<or>
     NormalizePlatform (ResPlatform (RespResult resp)) = NormalizePlatform platform"

lemma checkVerifiedPlatform_Inr [simp]:
  "checkVerifiedPlatform resp platform = Inr u \<longleftrightarrow> platform_agrees resp platform"
  by (auto simp: checkVerifiedPlatform_def platform_agrees_def)

text \<open>Every pinned register of a vTPM is in the signed selection and has its pinned value.\<close>

definition pcr_pins_hold ::
    "(bytes \<Rightarrow> err + raw_tpm_quote option) \<Rightarrow> attestation_evidence \<Rightarrow> claims \<Rightarrow> pins \<Rightarrow> bool" where
  "pcr_pins_hold quote_of ev c pinned \<longleftrightarrow>
     pinned = [] \<or>
     HasVTPMQuote (EvPlatform ev) \<and>
     (\<exists>raw msg sel. quote_of (EvEvidence ev) = Inr (Some raw) \<and> hex_decode (RawMessage raw) = Inr msg \<and>
        SignedPCRSelection msg = Inr sel \<and>
        (\<forall>i b. map_of pinned i = Some b \<longrightarrow> i \<in> int ` set sel \<and> PCR c i = Inr b))"

lemma signedPCRSelection_Inr:
  "signedPCRSelection quote_of e = Inr sel \<longleftrightarrow>
     (\<exists>raw msg. quote_of e = Inr (Some raw) \<and> hex_decode (RawMessage raw) = Inr msg \<and>
        SignedPCRSelection msg = Inr sel)"
  by (auto simp: signedPCRSelection_def split: option.splits)

lemma sorted_keys_all: "(\<forall>i\<in>set (sorted_keys m). P i) \<longleftrightarrow> (\<forall>i b. map_of m i = Some b \<longrightarrow> P i)"
  by (metis map_of_sorted_keys)

lemma EnforcePCRs_Inr [simp]:
  "EnforcePCRs quote_of ev c pinned = Inr u \<longleftrightarrow> pcr_pins_hold quote_of ev c pinned"
  by (auto simp: EnforcePCRs_def pcr_pins_hold_def signedPCRSelection_Inr sorted_keys_all
      simp del: set_sorted_keys)

section \<open>Images\<close>

definition pin_ok :: "family \<Rightarrow> image_pin \<Rightarrow> bool" where
  "pin_ok f img \<longleftrightarrow>
     (ImgAnchor img = None \<or> ImgLaunchFile img = None) \<and>
     (ImgAnchor img = None \<or> ImgLaunchFileDigest img = None) \<and>
     (ImgLaunchFile img = None \<or> ImgLaunchFileDigest img = None) \<and>
     ImgLaunchFile img \<noteq> Some [] \<and> (ImgLaunchFile img = None \<or> ImgAccept img = None) \<and>
     (case ImgLaunchFileDigest img of None \<Rightarrow> True | Some d \<Rightarrow> launch_digest_ok f d)"

lemma check_launch_pin_Inr: "check_launch_pin f img = Inr u \<longleftrightarrow> pin_ok f img"
  by (cases "ImgAnchor img"; cases "ImgLaunchFile img"; cases "ImgLaunchFileDigest img")
    (auto simp: check_launch_pin_def pin_ok_def)

lemma checkLaunchBindingPins_Inr [simp]:
  "checkLaunchBindingPins images f = Inr u \<longleftrightarrow> list_all (pin_ok f) images"
  by (simp add: checkLaunchBindingPins_def check_launch_pin_Inr list_all_iff)

text \<open>
  A launch digest with runtime extensions: the verified result is bound to the digest and a prefix
  of the claimed list, the shortest one, and the pin accepts every entry of it.
\<close>

definition accepts :: "(string \<Rightarrow> err option) option \<Rightarrow> string \<Rightarrow> bool" where
  "accepts accept w \<longleftrightarrow> (case accept of None \<Rightarrow> False | Some f \<Rightarrow> f w = None)"

definition extension_accepted ::
    "verification_result \<Rightarrow> string list \<Rightarrow> (string \<Rightarrow> err option) option \<Rightarrow> bytes \<Rightarrow> bool" where
  "extension_accepted v claimed accept d \<longleftrightarrow>
     list_all canonical claimed \<and>
     (\<exists>k\<le>length claimed. bound_to v d (take k claimed) \<and> (\<forall>j<k. \<not> bound_to v d (take j claimed)) \<and>
        list_all (accepts accept) (take k claimed))"

lemma enforceReplayedBinding_Inr:
  "enforceReplayedBinding match v bound claimed accept = Inr u \<longleftrightarrow>
     (\<exists>k\<le>length claimed. match (Some v) bound claimed = Inr k \<and> list_all (accepts accept) (take k claimed))"
proof (cases accept)
  case None
  then show ?thesis
    by (auto simp: enforceReplayedBinding_def accepts_def list_all_iff)
next
  case (Some f)
  have "(case f d of None \<Rightarrow> Inr () | Some e \<Rightarrow> Inl (Wrap (Errorf ''refused'') e)) = Inr () \<longleftrightarrow> f d = None" for d
    by (cases "f d") auto
  with Some show ?thesis
    by (auto simp: enforceReplayedBinding_def accepts_def list_all_iff)
qed

lemma replayed_anchor_Inr:
  "enforceReplayedBinding MatchBindingPrefix v a claimed accept = Inr u \<longleftrightarrow>
     a \<noteq> [] \<and> extension_accepted v claimed accept (launch_hash (Family (ResPlatform v)) a)"
  by (auto simp: enforceReplayedBinding_Inr MatchBindingPrefix_Inr extension_accepted_def list_all_iff Let_def)

lemma replayed_digest_Inr:
  "enforceReplayedBinding MatchLaunchFileDigestPrefix v d claimed accept = Inr u \<longleftrightarrow>
     extension_accepted v claimed accept d"
  by (auto simp: enforceReplayedBinding_Inr MatchLaunchFileDigestPrefix_Inr extension_accepted_def list_all_iff)

definition launch_pins_hold :: "verification_result \<Rightarrow> string list \<Rightarrow> image_pin \<Rightarrow> bool" where
  "launch_pins_hold v claimed img \<longleftrightarrow>
     (case ImgAnchor img of None \<Rightarrow> True
      | Some a \<Rightarrow> a \<noteq> [] \<and> extension_accepted v claimed (ImgAccept img) (launch_hash (Family (ResPlatform v)) a)) \<and>
     (case ImgLaunchFile img of None \<Rightarrow> True
      | Some f \<Rightarrow> f \<noteq> [] \<and> bound_to v (launch_hash (Family (ResPlatform v)) f) []) \<and>
     (case ImgLaunchFileDigest img of None \<Rightarrow> True
      | Some d \<Rightarrow> extension_accepted v claimed (ImgAccept img) d)"

definition image_matches :: "verify_response \<Rightarrow> string \<Rightarrow> string list \<Rightarrow> image_pin \<Rightarrow> bool" where
  "image_matches resp platform claimed img \<longleftrightarrow>
     LaunchMeasurement (Claims (RespResult resp)) = Inr (ImgDigest img) \<and>
     (ImgRegisters img = [] \<or> HasRegisters platform \<and> pins_hold (Claims (RespResult resp)) (ImgRegisters img)) \<and>
     launch_pins_hold (RespResult resp) claimed img"

lemma case_wrap_Inr:
  "(case x of None \<Rightarrow> Inr () | Some a \<Rightarrow> wrap_err w (f a)) = Inr u \<longleftrightarrow>
     (case x of None \<Rightarrow> True | Some a \<Rightarrow> f a = Inr ())"
  by (cases x) simp_all

lemma check_image_Inr:
  "check_image resp platform claimed img = Inr u \<longleftrightarrow>
     (ImgRegisters img = [] \<or> HasRegisters platform \<and> pins_hold (Claims (RespResult resp)) (ImgRegisters img)) \<and>
     launch_pins_hold (RespResult resp) claimed img"
proof -
  have "(if ImgRegisters img = [] then Inr ()
         else if \<not> HasRegisters platform then Inl e
         else enforceRTMRsAgainst (Claims (RespResult resp)) (ImgRegisters img)) = Inr w \<longleftrightarrow>
      (ImgRegisters img = [] \<or> HasRegisters platform \<and> pins_hold (Claims (RespResult resp)) (ImgRegisters img))"
    for e w by simp
  then show ?thesis
    by (simp add: check_image_def case_wrap_Inr replayed_anchor_Inr replayed_digest_Inr enforceLaunchFile_def
        VerifyBinding_Inr launch_pins_hold_def cong: option.case_cong)
qed

lemma images_loop_Inr:
  "images_loop resp platform claimed digest images lastErr = Inr u \<longleftrightarrow>
     (\<exists>img\<in>set images. digest = ImgDigest img \<and> check_image resp platform claimed img = Inr ())"
  by (induction images arbitrary: lastErr) (auto split: option.splits sum.splits)

lemma EnforceImagesWithRuntimeLog_Inr:
  "EnforceImagesWithRuntimeLog resp images platform claimed = Inr u \<longleftrightarrow>
     images = [] \<or>
     platform_agrees resp platform \<and> list_all (pin_ok (Family platform)) images \<and>
     (\<exists>img\<in>set images. image_matches resp platform claimed img)"
  by (auto simp: EnforceImagesWithRuntimeLog_def images_loop_Inr check_image_Inr image_matches_def)

section \<open>Policies and verdicts\<close>

definition flat_pins_hold :: "verify_response \<Rightarrow> string \<Rightarrow> policy \<Rightarrow> bool" where
  "flat_pins_hold resp platform pol \<longleftrightarrow>
     EnforceLaunchMeasurement resp (PolMeasurements pol) = Inr () \<and>
     (PolRegisters pol = [] \<or> HasRegisters platform \<and> pins_hold (Claims (RespResult resp)) (PolRegisters pol))"

lemma EnforcePinsWithRuntimeLog_Inr:
  "EnforcePinsWithRuntimeLog quote_of resp pol ev claimed = Inr u \<longleftrightarrow>
     platform_agrees resp (EvPlatform ev) \<and>
     pcr_pins_hold quote_of ev (Claims (RespResult resp)) (PolPCRs pol) \<and>
     (if PolImages pol = [] then flat_pins_hold resp (EvPlatform ev) pol
      else list_all (pin_ok (Family (EvPlatform ev))) (PolImages pol) \<and>
        (\<exists>img\<in>set (PolImages pol). image_matches resp (EvPlatform ev) claimed img))"
  by (auto simp: EnforcePinsWithRuntimeLog_def EnforceImagesWithRuntimeLog_Inr flat_pins_hold_def Let_def
      split: if_splits)

definition verdict_ok :: "req_params \<Rightarrow> verify_response \<Rightarrow> bool" where
  "verdict_ok params resp \<longleftrightarrow>
     (ReqReportData params = [] \<or> ReportDataMatch (RespResult resp) = Some True) \<and>
     (ReqInitDataHash params = [] \<or> InitDataMatch (RespResult resp) = Some True)"

lemma EnforceVerdict_Inr:
  "EnforceVerdict req resp = Inr u \<longleftrightarrow>
     SignatureValid (RespResult resp) \<and>
     (case ReqParams req of None \<Rightarrow> True
      | Some params \<Rightarrow> verdict_ok params resp \<and> enforceExpectedMeasurements params resp = Inr ())"
  by (auto simp: EnforceVerdict_def Check_def verdict_ok_def split: option.splits)

lemma enforceExpectedMeasurements_none [simp]:
  "enforceExpectedMeasurements (policy_params pol) resp = Inr ()"
  by (simp add: enforceExpectedMeasurements_def policy_params_def)

lemma VerifyEvidenceWithRuntimeLog_Inr:
  "VerifyEvidenceWithRuntimeLog quote_of svc ev pol claimed = Inr resp \<longleftrightarrow>
     Family (EvPlatform ev) \<noteq> FamilyUnknown \<and>
     (PolMinTcb pol = None \<or> Family (EvPlatform ev) = FamilySNP) \<and>
     svc (NewVerifyRequestNoToken ev (Some (policy_params pol))) = Inr resp \<and>
     SignatureValid (RespResult resp) \<and> verdict_ok (policy_params pol) resp \<and>
     EnforcePinsWithRuntimeLog quote_of resp pol ev claimed = Inr ()"
  by (auto simp: VerifyEvidenceWithRuntimeLog_def VerifyEnforced_def EnforceVerdict_Inr
      NewVerifyRequestNoToken_def Let_def)

section \<open>Expected measurements\<close>

definition pin_of :: "pins \<Rightarrow> int \<Rightarrow> bytes" where
  "pin_of rtmrs i = (case map_of rtmrs i of Some b \<Rightarrow> b | None \<Rightarrow> [])"

lemma checkMeasurementWidth_Inr [simp]: "checkMeasurementWidth b = Inr u \<longleftrightarrow> b = [] \<or> length b = 48"
  by (auto simp: checkMeasurementWidth_def)

lemma fill_registers_Inr:
  "length registers = 4 \<Longrightarrow> fill_registers rtmrs is registers = Inr out \<longleftrightarrow>
     (\<forall>i\<in>set is. 0 \<le> i \<and> i < 4 \<and> (pin_of rtmrs i = [] \<or> length (pin_of rtmrs i) = 48)) \<and>
     out = map (\<lambda>n. if int n \<in> set is then pin_of rtmrs (int n) else registers ! n) [0..<4]"
proof (induction "is" arbitrary: registers)
  case Nil
  have "map (\<lambda>n. registers ! n) [0..<4] = registers" using Nil by (metis map_nth)
  then show ?case by auto
next
  case (Cons i "is")
  let ?ok = "0 \<le> i \<and> i < 4 \<and> (pin_of rtmrs i = [] \<or> length (pin_of rtmrs i) = 48)"
  have "map (\<lambda>n. if int n \<in> set is then pin_of rtmrs (int n) else registers[nat i := pin_of rtmrs i] ! n) [0..<4] =
      map (\<lambda>n. if int n \<in> set (i # is) then pin_of rtmrs (int n) else registers ! n) [0..<4]" if ?ok
    using that Cons.prems by (auto simp: nth_list_update)
  then show ?case
    using Cons.IH [of "registers[nat i := pin_of rtmrs i]"] Cons.prems
    by (auto simp: Let_def pin_of_def [symmetric] not_le not_less simp del: map_eq_conv)
qed

lemma pin_of_sorted: "i \<notin> set (sorted_keys rtmrs) \<Longrightarrow> pin_of rtmrs i = []"
  using map_of_sorted_keys [of i rtmrs] by (auto simp: pin_of_def simp del: set_sorted_keys split: option.splits)

lemma fill_all_registers:
  "fill_registers rtmrs (sorted_keys rtmrs) [[], [], [], []] = Inr out \<longleftrightarrow>
     (\<forall>i b. map_of rtmrs i = Some b \<longrightarrow> 0 \<le> i \<and> i < 4 \<and> (b = [] \<or> length b = 48)) \<and>
     out = [pin_of rtmrs 0, pin_of rtmrs 1, pin_of rtmrs 2, pin_of rtmrs 3]"
proof -
  have four: "[0..<4] = [0, 1, 2, 3::nat]" by (simp add: upt_rec)
  have len: "length ([[], [], [], []] :: bytes list) = 4" by simp
  have eq: "map (\<lambda>n. if int n \<in> set (sorted_keys rtmrs) then pin_of rtmrs (int n) else [[], [], [], []] ! n) [0..<4] =
      [pin_of rtmrs 0, pin_of rtmrs 1, pin_of rtmrs 2, pin_of rtmrs 3]"
    using pin_of_sorted [of _ rtmrs] by (simp add: four del: set_sorted_keys)
  have "fill_registers rtmrs (sorted_keys rtmrs) [[], [], [], []] = Inr out \<longleftrightarrow>
      (\<forall>i\<in>set (sorted_keys rtmrs). 0 \<le> i \<and> i < 4 \<and> (pin_of rtmrs i = [] \<or> length (pin_of rtmrs i) = 48)) \<and>
      out = [pin_of rtmrs 0, pin_of rtmrs 1, pin_of rtmrs 2, pin_of rtmrs 3]"
    by (simp only: fill_registers_Inr [OF len] eq)
  moreover have "map_of rtmrs i = Some b \<Longrightarrow> pin_of rtmrs i = b" for i b by (simp add: pin_of_def)
  ultimately show ?thesis unfolding sorted_keys_all by metis
qed

lemma SetExpectedMeasurements_Inr:
  "SetExpectedMeasurements p platform m rtmrs = Inr q \<longleftrightarrow>
     (m = [] \<or> length m = 48) \<and> (rtmrs = [] \<or> HasRegisters platform) \<and> Family platform \<noteq> FamilyUnknown \<and>
     (\<forall>i b. map_of rtmrs i = Some b \<longrightarrow> 0 \<le> i \<and> i < 4 \<and> (b = [] \<or> length b = 48)) \<and>
     q = p\<lparr>ReqMRTD := if Family platform = FamilyTDX then m else [],
           ReqLaunchDigest := if Family platform = FamilyTDX then [] else m,
           ReqRTMR0 := pin_of rtmrs 0, ReqRTMR1 := pin_of rtmrs 1,
           ReqRTMR2 := pin_of rtmrs 2, ReqRTMR3 := pin_of rtmrs 3\<rparr>"
  by (cases "Family platform") (auto simp: SetExpectedMeasurements_def fill_all_registers)

lemma map_of_filter_pins:
  "map_of (filter (\<lambda>p. 0 < length (snd p)) [(0, a), (1, b), (2, c), (3::int, d)]) i = Some v \<longleftrightarrow>
     v \<noteq> [] \<and> (i = 0 \<and> v = a \<or> i = 1 \<and> v = b \<or> i = 2 \<and> v = c \<or> i = 3 \<and> v = d)"
  by auto

lemma enforceExpectedMeasurements_Inr:
  "enforceExpectedMeasurements params resp = Inr u \<longleftrightarrow>
     (ReqLaunchDigest params = [] \<and> ReqMRTD params = [] \<or>
      (\<exists>m \<in> {ReqLaunchDigest params, ReqMRTD params} - {[]}.
         LaunchMeasurement (Claims (RespResult resp)) = Inr m)) \<and>
     (\<forall>i b. b \<noteq> [] \<and> (i = 0 \<and> b = ReqRTMR0 params \<or> i = 1 \<and> b = ReqRTMR1 params \<or>
        i = 2 \<and> b = ReqRTMR2 params \<or> i = 3 \<and> b = ReqRTMR3 params) \<longrightarrow>
        RTMR (Claims (RespResult resp)) i = Inr b)"
proof -
  have "EnforceRTMRs resp (filter (\<lambda>p. 0 < length (snd p))
      [(0, ReqRTMR0 params), (1, ReqRTMR1 params), (2, ReqRTMR2 params), (3, ReqRTMR3 params)]) = Inr u \<longleftrightarrow>
    (\<forall>i b. b \<noteq> [] \<and> (i = 0 \<and> b = ReqRTMR0 params \<or> i = 1 \<and> b = ReqRTMR1 params \<or>
        i = 2 \<and> b = ReqRTMR2 params \<or> i = 3 \<and> b = ReqRTMR3 params) \<longrightarrow>
        RTMR (Claims (RespResult resp)) i = Inr b)"
    unfolding EnforceRTMRs_Inr pins_hold_def map_of_filter_pins by blast
  moreover have "(if allowed \<noteq> [] then EnforceLaunchMeasurement resp allowed else Inr ()) = Inr w \<longleftrightarrow>
      allowed = [] \<or> (\<exists>m\<in>set allowed. LaunchMeasurement (Claims (RespResult resp)) = Inr m)" for allowed w
    by (simp add: EnforceLaunchMeasurement_Inr)
  ultimately show ?thesis
    by (simp add: enforceExpectedMeasurements_def Let_def del: filter.simps EnforceRTMRs_Inr) auto
qed

section \<open>Properties\<close>

text \<open>
  C5: whole-image pins. \<open>EnforceImagesWithRuntimeLog\<close> succeeds exactly when no image is pinned, or
  the verified platform agrees with the submitted one, every pin is well-formed for its family, and
  one single image matches the evidence as a whole: its launch digest, every one of its registers,
  and its launch binding with the shortest replayed extension, every entry of which that same pin
  accepts.
\<close>

theorem EnforceImages_whole:
  "EnforceImagesWithRuntimeLog resp images platform claimed = Inr () \<longleftrightarrow>
     images = [] \<or>
     platform_agrees resp platform \<and> list_all (pin_ok (Family platform)) images \<and>
     (\<exists>img\<in>set images. image_matches resp platform claimed img)"
  by (rule EnforceImagesWithRuntimeLog_Inr)


text \<open>
  Server-side pins are re-checked. After \<open>SetExpectedMeasurements\<close> succeeded, the client's own
  check of a response is exactly that the reported launch measurement is the pinned one (if any)
  and every register pinned to a non-empty value has that value, on either family.
\<close>

lemma SetExpectedMeasurements_enforced:
  assumes "SetExpectedMeasurements p platform m rtmrs = Inr q"
  shows "enforceExpectedMeasurements q resp = Inr () \<longleftrightarrow>
    (m = [] \<or> LaunchMeasurement (Claims (RespResult resp)) = Inr m) \<and>
    (\<forall>i b. map_of rtmrs i = Some b \<and> b \<noteq> [] \<longrightarrow> RTMR (Claims (RespResult resp)) i = Inr b)"
proof -
  from assms have rng: "0 \<le> i \<and> i < 4" if "map_of rtmrs i = Some b" for i b
    using that by (simp add: SetExpectedMeasurements_Inr)
  have "(b \<noteq> [] \<and> (i = 0 \<and> b = pin_of rtmrs 0 \<or> i = 1 \<and> b = pin_of rtmrs 1 \<or>
      i = 2 \<and> b = pin_of rtmrs 2 \<or> i = 3 \<and> b = pin_of rtmrs 3)) \<longleftrightarrow> map_of rtmrs i = Some b \<and> b \<noteq> []" for i b
  proof -
    have "map_of rtmrs i = Some b \<Longrightarrow> i = 0 \<or> i = 1 \<or> i = 2 \<or> i = 3" using rng [of i b] by linarith
    moreover have "b \<noteq> [] \<Longrightarrow> b = pin_of rtmrs j \<longleftrightarrow> map_of rtmrs j = Some b" for j
      by (auto simp: pin_of_def split: option.splits)
    ultimately show ?thesis by blast
  qed
  moreover from assms have "ReqRTMR0 q = pin_of rtmrs 0" "ReqRTMR1 q = pin_of rtmrs 1"
    "ReqRTMR2 q = pin_of rtmrs 2" "ReqRTMR3 q = pin_of rtmrs 3"
    "ReqMRTD q = m \<and> ReqLaunchDigest q = [] \<or> ReqMRTD q = [] \<and> ReqLaunchDigest q = m"
    by (auto simp: SetExpectedMeasurements_Inr)
  ultimately show ?thesis unfolding enforceExpectedMeasurements_Inr by auto
qed

definition sample_params :: req_params where
  "sample_params = \<lparr>ReqReportData = [], ReqInitDataHash = [], ReqAllowDebug = None, ReqMinTcb = None,
     ReqLaunchDigest = [], ReqMRTD = [], ReqRTMR0 = [], ReqRTMR1 = [], ReqRTMR2 = [], ReqRTMR3 = []\<rparr>"

definition sample_response :: "bytes \<Rightarrow> verify_response" where
  "sample_response m =
     \<lparr>RespResult = zero_result\<lparr>SignatureValid := True,
        Claims := zero_claims\<lparr>LaunchDigest := hex_encode m\<rparr>\<rparr>, RespToken = None\<rparr>"

lemma SetExpectedMeasurements_enforced_example:
  "enforceExpectedMeasurements
     (sample_params\<lparr>ReqMRTD := replicate 48 1, ReqLaunchDigest := [], ReqRTMR0 := [], ReqRTMR1 := replicate 48 2,
        ReqRTMR2 := [], ReqRTMR3 := []\<rparr>) (sample_response (replicate 48 1)) \<noteq> Inr ()"
proof -
  have "SetExpectedMeasurements sample_params PlatformTDX (replicate 48 1) [(1, replicate 48 2)] =
      Inr (sample_params\<lparr>ReqMRTD := replicate 48 1, ReqLaunchDigest := [], ReqRTMR0 := [],
        ReqRTMR1 := replicate 48 2, ReqRTMR2 := [], ReqRTMR3 := []\<rparr>)"
    by (subst SetExpectedMeasurements_Inr) (simp add: HasRegisters_def pin_of_def)
  from SetExpectedMeasurements_enforced [OF this] show ?thesis
    by (simp add: sample_response_def RTMR_Inr)
qed

text \<open>
  Expected launch measurements are alternatives. A request that carries both an expected launch
  digest and an expected MRTD is accepted on a claim that equals only one of them, although the
  comment on \<open>EnforceVerdict\<close> says that every expected measurement must equal the claim.
\<close>

lemma EnforceVerdict_either_measurement:
  "\<exists>req resp params. ReqParams req = Some params \<and> ReqMRTD params \<noteq> [] \<and>
     LaunchMeasurement (Claims (RespResult resp)) \<noteq> Inr (ReqMRTD params) \<and>
     EnforceVerdict req resp = Inr ()"
proof -
  let ?params = "sample_params\<lparr>ReqLaunchDigest := replicate 48 1, ReqMRTD := replicate 48 2\<rparr>"
  let ?req = "\<lparr>ReqPlatform = PlatformSNP, ReqEvidence = [], ReqParams = Some ?params, ReqIssueToken = None\<rparr>"
  have m: "LaunchMeasurement (Claims (RespResult (sample_response (replicate 48 1)))) = Inr (replicate 48 1)"
    by (simp add: sample_response_def)
  have "EnforceVerdict ?req (sample_response (replicate 48 1)) = Inr ()"
    using m by (simp add: EnforceVerdict_Inr verdict_ok_def enforceExpectedMeasurements_Inr sample_params_def)
      (auto simp: sample_response_def)
  with m show ?thesis by (intro exI [of _ ?req] exI [of _ "sample_response (replicate 48 1)"] exI [of _ ?params]) simp
qed

text \<open>
  VTPM pins over published claims. When the response's claims were built by \<open>ApplyTPMClaims\<close>
  from the register bank and the very quote message the evidence carries, the PCR pins hold exactly
  when every pinned register is in the quote's signed selection and the bank has the pinned 32 bytes
  for it: a register outside the selection can never satisfy a pin.
\<close>

lemma EnforcePCRs_signed:
  assumes "HasVTPMQuote (EvPlatform ev)" and "pinned \<noteq> []"
    and "quote_of (EvEvidence ev) = Inr (Some raw)" and "RawMessage raw = hex_encode msg"
    and "SignedPCRSelection msg = Inr sel"
  shows "EnforcePCRs quote_of ev (ApplyTPMClaims c pcrs msg) pinned = Inr () \<longleftrightarrow>
    (\<forall>i b. map_of pinned i = Some b \<longrightarrow>
       i \<in> int ` set sel \<and> i < PCRCount \<and> i < int (length pcrs) \<and> pcrs ! nat i = b \<and> length b = 32)"
  using assms by (auto simp: pcr_pins_hold_def ApplyTPMClaims_PCR)

definition sample_raw_quote :: "bytes \<Rightarrow> raw_tpm_quote" where
  "sample_raw_quote m = \<lparr>RawSignature = [], RawMessage = hex_encode m, RawPCRs = []\<rparr>"

lemma EnforcePCRs_signed_example:
  "EnforcePCRs (\<lambda>_. Inr (Some (sample_raw_quote (sample_quote [] (replicate 32 7)))))
     \<lparr>EvPlatform = PlatformAzTDX, EvEvidence = []\<rparr>
     (ApplyTPMClaims zero_claims (sample_bank (replicate 32 7)) (sample_quote [] (replicate 32 7)))
     [(7, replicate 32 0)] \<noteq> Inr ()"
proof -
  have "SignedPCRSelection (sample_quote [] (replicate 32 7)) = Inr [8]"
    by (simp add: SignedPCRSelection_def parse_sample)
  moreover have "HasVTPMQuote (EvPlatform \<lparr>EvPlatform = PlatformAzTDX, EvEvidence = []\<rparr>)"
    by (simp add: HasVTPMQuote_def)
  ultimately show ?thesis
    using EnforcePCRs_signed [of "\<lparr>EvPlatform = PlatformAzTDX, EvEvidence = []\<rparr>" "[(7, replicate 32 0)]"
        "\<lambda>_. Inr (Some (sample_raw_quote (sample_quote [] (replicate 32 7))))"
        "sample_raw_quote (sample_quote [] (replicate 32 7))" "sample_quote [] (replicate 32 7)" "[8]"
        zero_claims "sample_bank (replicate 32 7)"]
    by (simp add: sample_raw_quote_def)
qed

end
