(* ===== verification/Ccel.thy ===== *)
theory Ccel
  imports Binding
begin

text \<open>
  The CC event log of \<open>attestation/tdx/ccel.go\<close>: parsing, replay into the four runtime registers
  and the check against a quote.

  \<open>ccel_event_at\<close> is one turn of the parsing loop; \<open>parse_events\<close> is the loop, which ends because
  every turn that continues moves the offset forward. \<open>ccel_image\<close> is the layout the parser
  inverts.
\<close>

section \<open>Events\<close>

record ccel_event =
  MRIndex :: nat
  EventType :: nat
  SHA384Digest :: bytes
  EventData :: bytes

abbreviation (input) maxDigestAlgorithms :: nat where "maxDigestAlgorithms \<equiv> 16"
abbreviation (input) algoSHA1 :: nat where "algoSHA1 \<equiv> 4"
abbreviation (input) algoSHA256 :: nat where "algoSHA256 \<equiv> 11"
abbreviation (input) algoSHA384 :: nat where "algoSHA384 \<equiv> 12"
abbreviation (input) algoSHA512 :: nat where "algoSHA512 \<equiv> 13"

definition digestSize :: "nat \<Rightarrow> nat option" where
  "digestSize algoID =
     (if algoID = algoSHA384 then Some 48
      else if algoID = algoSHA512 then Some 64
      else if algoID = algoSHA256 then Some 32
      else if algoID = algoSHA1 then Some 20
      else None)"

definition exceeds :: "bytes \<Rightarrow> nat \<Rightarrow> nat \<Rightarrow> bool" where
  "exceeds b off n \<longleftrightarrow> length b < off + n"

definition le_at :: "bytes \<Rightarrow> nat \<Rightarrow> nat \<Rightarrow> err + nat" where
  "le_at data off n = bindr (subslice data off (off + n)) (\<lambda>b. Inr (le_nat b))"

section \<open>Parsing\<close>

text \<open>The digests of one event; \<open>None\<close> is the flag \<open>truncated\<close>.\<close>

fun ccel_digests :: "nat \<Rightarrow> bytes \<Rightarrow> nat \<Rightarrow> bytes \<Rightarrow> err + (nat \<times> bytes) option" where
  "ccel_digests 0 data pos sha384Digest = Inr (Some (pos, sha384Digest))"
| "ccel_digests (Suc n) data pos sha384Digest =
     (if exceeds data pos 2 then Inr None
      else
        bindr (le_at data pos 2) (\<lambda>algoID.
        case digestSize algoID of
          None \<Rightarrow> Inl (Errorf ''unsupported CCEL digest algorithm'')
        | Some sz \<Rightarrow>
            if exceeds data (pos + 2) sz then Inr None
            else
              bindr (subslice data (pos + 2) (pos + 2 + sz)) (\<lambda>d.
              ccel_digests n data (pos + 2 + sz) (if algoID = algoSHA384 then d else sha384Digest))))"

datatype ccel_step = Stop | Next "ccel_event option" nat

text \<open>The rest of an event once its digests are read.\<close>

definition ccel_payload :: "bytes \<Rightarrow> nat \<Rightarrow> nat \<Rightarrow> nat \<Rightarrow> bytes \<Rightarrow> err + ccel_step" where
  "ccel_payload data mrIndex eventType pos sha384Digest =
     (if exceeds data pos 4 then Inr Stop
      else
        bindr (le_at data pos 4) (\<lambda>eventDataSize.
        let eventEnd = pos + 4 + eventDataSize in
        if length data < eventEnd then Inr Stop
        else if eventType = 0 \<and> mrIndex = 0 \<and> eventDataSize = 0 then Inr Stop
        else if sha384Digest = [] then Inr (Next None eventEnd)
        else
          bindr (subslice data (pos + 4) eventEnd) (\<lambda>eventData.
          Inr (Next
            (Some \<lparr>MRIndex = mrIndex, EventType = eventType, SHA384Digest = sha384Digest,
                   EventData = eventData\<rparr>)
            eventEnd))))"

definition ccel_event_at :: "bytes \<Rightarrow> nat \<Rightarrow> err + ccel_step" where
  "ccel_event_at data offset =
     (if exceeds data offset 8 then Inr Stop
      else
        bindr (le_at data offset 4) (\<lambda>mrIndex.
        bindr (le_at data (offset + 4) 4) (\<lambda>eventType.
        if exceeds data (offset + 8) 4 then Inr Stop
        else
          bindr (le_at data (offset + 8) 4) (\<lambda>digestCount.
          if maxDigestAlgorithms < digestCount then Inr Stop
          else
            bindr (ccel_digests digestCount data (offset + 12) []) (\<lambda>r.
            case r of
              None \<Rightarrow> Inr Stop
            | Some (pos, sha384Digest) \<Rightarrow> ccel_payload data mrIndex eventType pos sha384Digest)))))"

lemma ccel_digests_pos:
  "ccel_digests n data pos d = Inr (Some (pos', d')) \<Longrightarrow>
     pos \<le> pos' \<and> (length d \<in> {0, 48} \<longrightarrow> length d' \<in> {0, 48})"
proof (induction n arbitrary: pos d)
  case (Suc n)
  then obtain algo sz d1 where r: "digestSize algo = Some sz" "\<not> exceeds data (pos + 2) sz"
    "d1 = take sz (drop (pos + 2) data)"
    "ccel_digests n data (pos + 2 + sz) (if algo = algoSHA384 then d1 else d) = Inr (Some (pos', d'))"
    by (auto split: option.splits if_splits)
  then have "algo = algoSHA384 \<Longrightarrow> length d1 = 48"
    by (auto simp: digestSize_def exceeds_def)
  with Suc.IH [OF r(4)] show ?case by (auto split: if_splits)
qed simp

lemma ccel_payload_Next:
  assumes "ccel_payload data mr ty pos d = Inr (Next ev off')"
  shows "pos < off' \<and> off' \<le> length data \<and>
    (case ev of None \<Rightarrow> d = [] | Some e \<Rightarrow> d \<noteq> [] \<and> SHA384Digest e = d)"
  using assms by (auto simp: ccel_payload_def Let_def split: if_splits)

lemma ccel_event_at_Next:
  assumes "ccel_event_at data off = Inr (Next ev off')"
  obtains n mr ty pos d where "ccel_digests n data (off + 12) [] = Inr (Some (pos, d))"
    "ccel_payload data mr ty pos d = Inr (Next ev off')"
  using assms by (auto simp: ccel_event_at_def split: option.splits prod.splits if_splits)

lemma ccel_event_at_forward:
  assumes "ccel_event_at data off = Inr (Next ev off')"
  shows "off < off' \<and> off' \<le> length data \<and> (case ev of None \<Rightarrow> True | Some e \<Rightarrow> length (SHA384Digest e) = 48)"
proof -
  from assms obtain n mr ty pos d where "ccel_digests n data (off + 12) [] = Inr (Some (pos, d))"
    "ccel_payload data mr ty pos d = Inr (Next ev off')" by (rule ccel_event_at_Next)
  with ccel_digests_pos [OF this(1)] ccel_payload_Next [OF this(2)] show ?thesis
    by (auto split: option.splits)
qed

function parse_events :: "bytes \<Rightarrow> nat \<Rightarrow> err + ccel_event list" where
  "parse_events data offset =
     (if length data \<le> offset then Inr []
      else
        case ccel_event_at data offset of
          Inl e \<Rightarrow> Inl e
        | Inr Stop \<Rightarrow> Inr []
        | Inr (Next None eventEnd) \<Rightarrow> parse_events data eventEnd
        | Inr (Next (Some ev) eventEnd) \<Rightarrow>
            bindr (parse_events data eventEnd) (\<lambda>events. Inr (ev # events)))"
  by pat_completeness auto
termination
  by (relation "measure (\<lambda>(data, offset). length data - offset)")
    (auto dest!: ccel_event_at_forward)

declare parse_events.simps [simp del]

definition ParseCCEL :: "bytes \<Rightarrow> err + ccel_event list" where
  "ParseCCEL data =
     (if length data < 32 then Inl (Errorf ''CCEL data too short'')
      else
        bindr (le_at data 28 4) (\<lambda>eventSize.
        if length data < 32 + eventSize then Inl (Errorf ''CCEL Spec ID Event size exceeds data'')
        else parse_events data (32 + eventSize)))"

section \<open>Replay\<close>

definition extend_rtmr :: "bytes list \<Rightarrow> ccel_event \<Rightarrow> bytes list" where
  "extend_rtmr rtmrs ev =
     (if MRIndex ev < 1 \<or> 4 < MRIndex ev then rtmrs
      else let idx = MRIndex ev - 1 in rtmrs[idx := sha384 (rtmrs ! idx @ SHA384Digest ev)])"

definition ReplayRTMRs :: "ccel_event list \<Rightarrow> bytes list" where
  "ReplayRTMRs events = foldl extend_rtmr [Zero, Zero, Zero, Zero] events"

definition VerifyCCELAgainstRTMRs :: "bytes \<Rightarrow> bytes \<Rightarrow> bytes \<Rightarrow> bytes \<Rightarrow> bytes \<Rightarrow> err + bool" where
  "VerifyCCELAgainstRTMRs ccelData rtmr0 rtmr1 rtmr2 rtmr3 =
     bindr (for_each (\<lambda>r. if length r \<noteq> 48 then Inl (Errorf ''RTMR width'') else Inr ())
              [rtmr0, rtmr1, rtmr2, rtmr3]) (\<lambda>_.
     bindr (ParseCCEL ccelData) (\<lambda>events.
     let replayed = ReplayRTMRs events in
     bindr (for_each
              (\<lambda>(i, want). if replayed ! i \<noteq> want then Inl (Errorf ''CCEL eventlog integrity check failed'')
                           else Inr ())
              [(0, rtmr0), (1, rtmr1), (2, rtmr2)]) (\<lambda>_.
     Inr (replayed ! 3 = rtmr3))))"

section \<open>Replay by register\<close>

text \<open>The digests the log extends into register \<open>i\<close>, and the fold of them.\<close>

definition register_digests :: "nat \<Rightarrow> ccel_event list \<Rightarrow> bytes list" where
  "register_digests i events = map SHA384Digest (filter (\<lambda>ev. MRIndex ev = i + 1) events)"

definition fold_digests :: "bytes list \<Rightarrow> bytes" where
  "fold_digests ds = foldl Extend Zero ds"

lemma fold_digests_simps [simp]:
  "fold_digests [] = Zero" "fold_digests (ds @ [d]) = Extend (fold_digests ds) d"
  by (simp_all add: fold_digests_def)

lemma register_digests_simps [simp]:
  "register_digests i [] = []"
  "register_digests i (es @ [e]) = register_digests i es @ (if MRIndex e = i + 1 then [SHA384Digest e] else [])"
  by (simp_all add: register_digests_def)

lemma ReplayRTMRs_snoc: "ReplayRTMRs (es @ [e]) = extend_rtmr (ReplayRTMRs es) e"
  by (simp add: ReplayRTMRs_def)

lemma length_ReplayRTMRs [simp]: "length (ReplayRTMRs es) = 4"
  by (induction es rule: rev_induct)
    (simp_all add: ReplayRTMRs_snoc extend_rtmr_def Let_def, simp add: ReplayRTMRs_def)

lemma ReplayRTMRs_nth: "i < 4 \<Longrightarrow> ReplayRTMRs es ! i = fold_digests (register_digests i es)"
proof (induction es rule: rev_induct)
  case Nil
  then have "i = 0 \<or> i = 1 \<or> i = 2 \<or> i = 3" by linarith
  then show ?case by (auto simp: ReplayRTMRs_def)
next
  case (snoc e es)
  have "1 \<le> m \<Longrightarrow> m - 1 = i \<longleftrightarrow> m = i + 1" for m by linarith
  with snoc show ?case
    by (auto simp: ReplayRTMRs_snoc extend_rtmr_def Let_def Extend_def nth_list_update)
qed

lemma VerifyCCEL_Inr:
  "VerifyCCELAgainstRTMRs data r0 r1 r2 r3 = Inr m \<longleftrightarrow>
     length r0 = 48 \<and> length r1 = 48 \<and> length r2 = 48 \<and> length r3 = 48 \<and>
     (\<exists>events. ParseCCEL data = Inr events \<and>
        r0 = fold_digests (register_digests 0 events) \<and> r1 = fold_digests (register_digests 1 events) \<and>
        r2 = fold_digests (register_digests 2 events) \<and>
        m = (r3 = fold_digests (register_digests 3 events)))"
  by (auto simp: VerifyCCELAgainstRTMRs_def ReplayRTMRs_nth Let_def)

text \<open>What a fold of event digests hashes, and that it determines the digests.\<close>

fun fold_inputs :: "bytes \<Rightarrow> bytes list \<Rightarrow> bytes list" where
  "fold_inputs reg [] = []"
| "fold_inputs reg (d # ds) = (reg @ d) # fold_inputs (Extend reg d) ds"

lemma fold_inputs_snoc:
  "fold_inputs reg (ds @ [d]) = fold_inputs reg ds @ [foldl Extend reg ds @ d]"
  by (induction ds arbitrary: reg) simp_all

lemma fold_nonempty_hash:
  "ds \<noteq> [] \<Longrightarrow> \<exists>x\<in>set (fold_inputs Zero ds). fold_digests ds = sha384 x"
  by (cases ds rule: rev_cases) (auto simp: fold_inputs_snoc fold_digests_def Extend_def)

lemma fold_digests_inj:
  assumes nb: "\<not> hash_break S"
    and "set (fold_inputs Zero ds) \<subseteq> set S" "set (fold_inputs Zero es) \<subseteq> set S"
    and "\<forall>d\<in>set ds. length d = 48" "\<forall>d\<in>set es. length d = 48"
    and "fold_digests ds = fold_digests es"
  shows "ds = es"
  using assms(2-)
proof (induction ds arbitrary: es rule: rev_induct)
  case Nil
  show ?case
  proof (rule ccontr)
    assume "[] \<noteq> es"
    with fold_nonempty_hash Nil nb show False by (auto simp: hash_break_def) (metis subsetD)
  qed
next
  case (snoc d ds)
  show ?case
  proof (cases es rule: rev_cases)
    case Nil
    with snoc.prems fold_nonempty_hash [of "ds @ [d]"] nb show ?thesis
      by (auto simp: hash_break_def) (metis fold_digests_simps(1) subsetD)
  next
    case es: (snoc es' e)
    have "fold_digests ds @ d \<in> set S" "fold_digests es' @ e \<in> set S"
      using snoc.prems es by (auto simp: fold_inputs_snoc fold_digests_def)
    with snoc.prems es have "fold_digests ds = fold_digests es' \<and> d = e"
      using extend_inj [OF nb, of "fold_digests ds" d "fold_digests es'" e] by auto
    moreover have "ds = es'"
      using snoc.prems es calculation by (intro snoc.IH) (auto simp: fold_inputs_snoc)
    ultimately show ?thesis using es by simp
  qed
qed

section \<open>Events that come from the parser\<close>

lemma parse_events_digests:
  "parse_events data off = Inr events \<Longrightarrow> \<forall>e\<in>set events. length (SHA384Digest e) = 48"
proof (induction data off arbitrary: events rule: parse_events.induct)
  case (1 data off)
  show ?case
  proof (cases "length data \<le> off")
    case True
    with "1.prems" show ?thesis by (simp add: parse_events.simps)
  next
    case False
    with 1 ccel_event_at_forward [of data off] show ?thesis
      by (auto simp: parse_events.simps [of data off] split: sum.splits ccel_step.splits option.splits)
  qed
qed

lemma register_digests_width:
  "ParseCCEL data = Inr events \<Longrightarrow> \<forall>d\<in>set (register_digests i events). length d = 48"
  using parse_events_digests by (fastforce simp: ParseCCEL_def register_digests_def)

section \<open>The layout of a log\<close>

definition event_image :: "ccel_event \<Rightarrow> bytes" where
  "event_image e =
     le_bytes 4 (MRIndex e) @ le_bytes 4 (EventType e) @ le_bytes 4 1 @ le_bytes 2 algoSHA384 @
     SHA384Digest e @ le_bytes 4 (length (EventData e)) @ EventData e"

definition event_ok :: "ccel_event \<Rightarrow> bool" where
  "event_ok e \<longleftrightarrow>
     MRIndex e < 4294967296 \<and> EventType e < 4294967296 \<and> length (SHA384Digest e) = 48 \<and>
     length (EventData e) < 4294967296 \<and> (MRIndex e \<noteq> 0 \<or> EventType e \<noteq> 0 \<or> EventData e \<noteq> [])"

text \<open>A header record, the events, and the zero padding of the table.\<close>

definition ccel_image :: "bytes \<Rightarrow> bytes \<Rightarrow> ccel_event list \<Rightarrow> nat \<Rightarrow> bytes" where
  "ccel_image header spec events pad =
     header @ le_bytes 4 (length spec) @ spec @ concat (map event_image events) @ replicate pad 0"

lemma le_at_cursor: "v < 256 ^ n \<Longrightarrow> off = length p \<Longrightarrow> le_at (p @ le_bytes n v @ r) off n = Inr v"
  using subslice_mid [of off p "off + n" "le_bytes n v" r] by (simp add: le_at_def)

lemma ccel_digests_one:
  assumes "le_at data pos 2 = Inr algoSHA384" and "subslice data a b = Inr d"
    and "a = pos + 2" and "b = pos + 50"
  shows "ccel_digests 1 data pos [] = Inr (Some (b, d))"
  using assms by (simp add: exceeds_def digestSize_def)

lemma ccel_payload_some:
  assumes "le_at data pos 4 = Inr n" and "subslice data a b = Inr x"
    and "a = pos + 4" and "b = pos + 4 + n" and "d \<noteq> []" and "mr \<noteq> 0 \<or> ty \<noteq> 0 \<or> n \<noteq> 0"
  shows "ccel_payload data mr ty pos d =
    Inr (Next (Some \<lparr>MRIndex = mr, EventType = ty, SHA384Digest = d, EventData = x\<rparr>) b)"
  using assms by (auto simp: ccel_payload_def exceeds_def Let_def)

lemma event_at_image:
  assumes ok: "event_ok e"
  shows "ccel_event_at (p @ event_image e @ r) (length p) = Inr (Next (Some e) (length (p @ event_image e)))"
proof -
  let ?m = "le_bytes 4 (MRIndex e)" and ?t = "le_bytes 4 (EventType e)" and ?n = "le_bytes 4 1 :: bytes"
    and ?a = "le_bytes 2 algoSHA384 :: bytes" and ?d = "SHA384Digest e"
    and ?s = "le_bytes 4 (length (EventData e))" and ?x = "EventData e"
  let ?data = "p @ event_image e @ r"
  have len: "length ?d = 48" using ok by (simp add: event_ok_def)
  have data: "?data = p @ ?m @ ?t @ ?n @ ?a @ ?d @ ?s @ ?x @ r" by (simp add: event_image_def)
  have "le_at ?data (length p) 4 = Inr (MRIndex e)"
    using ok le_at_cursor [of "MRIndex e" 4 "length p" p] unfolding data by (simp add: event_ok_def)
  moreover have "le_at ?data (length p + 4) 4 = Inr (EventType e)"
    using ok le_at_cursor [of "EventType e" 4 "length p + 4" "p @ ?m"] unfolding data by (simp add: event_ok_def)
  moreover have "le_at ?data (length p + 8) 4 = Inr 1"
    using le_at_cursor [of 1 4 "length p + 8" "p @ ?m @ ?t"] unfolding data by simp
  moreover have "ccel_digests 1 ?data (length p + 12) [] = Inr (Some (length p + 62, ?d))"
  proof -
    have "le_at ?data (length p + 12) 2 = Inr algoSHA384"
      using le_at_cursor [of algoSHA384 2 "length p + 12" "p @ ?m @ ?t @ ?n"] unfolding data by simp
    moreover have "subslice ?data (length p + 14) (length p + 62) = Inr ?d"
      using subslice_mid [of "length p + 14" "p @ ?m @ ?t @ ?n @ ?a" "length p + 62" ?d "?s @ ?x @ r"] len
      unfolding data by simp
    ultimately show ?thesis by (rule ccel_digests_one) simp_all
  qed
  moreover have "ccel_payload ?data (MRIndex e) (EventType e) (length p + 62) ?d =
      Inr (Next (Some e) (length (p @ event_image e)))"
  proof -
    have "le_at ?data (length p + 62) 4 = Inr (length ?x)"
      using ok len le_at_cursor [of "length ?x" 4 "length p + 62" "p @ ?m @ ?t @ ?n @ ?a @ ?d"] unfolding data
      by (simp add: event_ok_def)
    moreover have "subslice ?data (length p + 66) (length p + 66 + length ?x) = Inr ?x"
      using subslice_mid [of "length p + 66" "p @ ?m @ ?t @ ?n @ ?a @ ?d @ ?s" "length p + 66 + length ?x" ?x r] len
      unfolding data by simp
    ultimately have "ccel_payload ?data (MRIndex e) (EventType e) (length p + 62) ?d =
        Inr (Next (Some \<lparr>MRIndex = MRIndex e, EventType = EventType e, SHA384Digest = ?d, EventData = ?x\<rparr>)
          (length p + 66 + length ?x))"
      by (rule ccel_payload_some) (use ok len in \<open>auto simp: event_ok_def\<close>)
    then show ?thesis using len by (simp add: event_image_def)
  qed
  ultimately show ?thesis using len
    by (simp add: ccel_event_at_def exceeds_def event_image_def del: ccel_digests.simps)
qed

lemma le_nat_zeros [simp]: "le_nat (replicate n 0) = 0"
proof -
  have "be_nat (replicate n 0) = 0" by (induction n) (simp_all add: be_nat_def)
  then show ?thesis by (simp add: le_nat_def)
qed

lemma le_at_zeros: "k + m \<le> n \<Longrightarrow> le_at (p @ replicate n 0) (length p + k) m = Inr 0"
  by (simp add: le_at_def subslice_def)

lemma event_at_padding: "ccel_event_at (p @ replicate n 0) (length p) = Inr Stop"
proof (cases "n < 16")
  case True
  then show ?thesis
    using le_at_zeros [of 0 4 n p] le_at_zeros [of 4 4 n p] le_at_zeros [of 8 4 n p]
    by (auto simp: ccel_event_at_def ccel_payload_def exceeds_def)
next
  case False
  then show ?thesis
    using le_at_zeros [of 0 4 n p] le_at_zeros [of 4 4 n p] le_at_zeros [of 8 4 n p] le_at_zeros [of 12 4 n p]
    by (auto simp: ccel_event_at_def ccel_payload_def exceeds_def)
qed

lemma parse_events_image:
  "list_all event_ok events \<Longrightarrow>
     parse_events (p @ concat (map event_image events) @ replicate pad 0) (length p) = Inr events"
proof (induction events arbitrary: p)
  case Nil
  then show ?case by (auto simp: parse_events.simps [of "p @ replicate pad 0"] event_at_padding)
next
  case (Cons e events)
  let ?r = "concat (map event_image events) @ replicate pad 0"
  have "ccel_event_at (p @ event_image e @ ?r) (length p) = Inr (Next (Some e) (length (p @ event_image e)))"
    using Cons.prems by (intro event_at_image) simp
  moreover have "parse_events ((p @ event_image e) @ ?r) (length (p @ event_image e)) = Inr events"
    using Cons.IH [of "p @ event_image e"] Cons.prems by simp
  moreover have "0 < length (event_image e)" by (simp add: event_image_def)
  ultimately show ?case by (simp add: parse_events.simps [of "p @ event_image e @ ?r"])
qed

section \<open>No log makes the parser panic\<close>

lemma le_at_no_panic: "\<not> exceeds data off n \<Longrightarrow> \<not> panics_result (le_at data off n)"
  by (simp add: le_at_def exceeds_def)

lemma ccel_digests_no_panic [simp]: "\<not> panics_result (ccel_digests n data pos d)"
  by (induction n arbitrary: pos d) (auto simp: le_at_no_panic exceeds_def split: option.splits)

lemma ccel_payload_no_panic [simp]: "\<not> panics_result (ccel_payload data mr ty pos d)"
  by (auto simp: ccel_payload_def le_at_no_panic Let_def)

lemma ccel_event_at_no_panic [simp]: "\<not> panics_result (ccel_event_at data off)"
proof -
  have "\<not> exceeds data off 8 \<Longrightarrow> \<not> exceeds data off 4 \<and> \<not> exceeds data (off + 4) 4"
    by (simp add: exceeds_def)
  then show ?thesis
    by (auto simp: ccel_event_at_def le_at_no_panic split: option.splits)
qed

lemma parse_events_no_panic [simp]: "\<not> panics_result (parse_events data off)"
proof (induction data off rule: parse_events.induct)
  case (1 data off)
  moreover have "ccel_event_at data off = Inl x \<Longrightarrow> \<not> panics x" for x
    using ccel_event_at_no_panic [of data off] by (metis panics_result_simps(1))
  ultimately show ?case
    by (auto simp: parse_events.simps [of data off] split: sum.splits ccel_step.splits option.splits)
qed

lemma ParseCCEL_no_panic [simp]: "\<not> panics_result (ParseCCEL data)"
  by (auto simp: ParseCCEL_def le_at_def)

section \<open>Properties\<close>

text \<open>
  C31: the event log parser inverts the layout. A log of well-formed events after its header record,
  followed by any amount of the table's zero padding, parses to exactly those events in order.
\<close>

theorem ParseCCEL_round_trip:
  assumes "length header = 28" and "length spec < 4294967296" and "list_all event_ok events"
  shows "ParseCCEL (ccel_image header spec events pad) = Inr events"
proof -
  let ?p = "header @ le_bytes 4 (length spec) @ spec"
  let ?r = "concat (map event_image events) @ replicate pad 0"
  have "le_at (?p @ ?r) 28 4 = Inr (length spec)"
    using le_at_cursor [of "length spec" 4 28 header "spec @ ?r"] assms by simp
  moreover have "parse_events (?p @ ?r) (32 + length spec) = Inr events"
    using parse_events_image [OF assms(3), of ?p pad] assms by (simp add: add.commute)
  ultimately show ?thesis using assms by (simp add: ParseCCEL_def ccel_image_def)
qed

definition sample_event :: "nat \<Rightarrow> byte \<Rightarrow> ccel_event" where
  "sample_event mr b = \<lparr>MRIndex = mr, EventType = 13, SHA384Digest = replicate 48 b, EventData = [1, 2]\<rparr>"

theorem ParseCCEL_round_trip_witness:
  "ParseCCEL (ccel_image (replicate 28 0) [7, 7] [sample_event 1 5, sample_event 4 6] 100) =
     Inr [sample_event 1 5, sample_event 4 6]"
  by (rule ParseCCEL_round_trip) (simp_all add: sample_event_def event_ok_def)

text \<open>
  The log check. \<open>VerifyCCELAgainstRTMRs\<close> succeeds exactly when the four registers are 48
  bytes wide, the log parses, and registers 0, 1 and 2 are the folds from zero of the digests the
  log extends into them; its result says whether register 3 is the fold of its own.
\<close>

lemma VerifyCCEL_exact:
  "VerifyCCELAgainstRTMRs data r0 r1 r2 r3 = Inr m \<longleftrightarrow>
     length r0 = 48 \<and> length r1 = 48 \<and> length r2 = 48 \<and> length r3 = 48 \<and>
     (\<exists>events. ParseCCEL data = Inr events \<and>
        r0 = fold_digests (register_digests 0 events) \<and> r1 = fold_digests (register_digests 1 events) \<and>
        r2 = fold_digests (register_digests 2 events) \<and>
        m = (r3 = fold_digests (register_digests 3 events)))"
  by (rule VerifyCCEL_Inr)

text \<open>
  A quote determines the log's digests. Two logs that both verify against the same registers
  extend the same digests in the same order into each of registers 0, 1 and 2, or the strings
  hashed by their replays break SHA-384 (a collision, or a preimage of the zero register).
\<close>

lemma VerifyCCEL_unique:
  assumes "VerifyCCELAgainstRTMRs data r0 r1 r2 r3 = Inr m" and "ParseCCEL data = Inr events"
    and "VerifyCCELAgainstRTMRs data' r0 r1 r2 r3' = Inr m'" and "ParseCCEL data' = Inr events'"
    and "i < 3"
  shows "register_digests i events = register_digests i events' \<or>
    hash_break (fold_inputs Zero (register_digests i events) @ fold_inputs Zero (register_digests i events'))"
proof -
  have "i = 0 \<or> i = 1 \<or> i = 2" using assms(5) by linarith
  with assms have "fold_digests (register_digests i events) = fold_digests (register_digests i events')"
    by (auto simp: VerifyCCEL_Inr)
  with register_digests_width [OF assms(2), of i] register_digests_width [OF assms(4), of i] show ?thesis
    using fold_digests_inj [of "fold_inputs Zero (register_digests i events) @
        fold_inputs Zero (register_digests i events')"] by auto
qed

lemma VerifyCCEL_unique_example:
  "register_digests 0 [sample_event 4 6] = register_digests 0 [sample_event 4 7] \<or>
   hash_break (fold_inputs Zero (register_digests 0 [sample_event 4 6]) @
     fold_inputs Zero (register_digests 0 [sample_event 4 7]))"
proof (rule VerifyCCEL_unique)
  let ?log = "\<lambda>b. ccel_image (replicate 28 0) [] [sample_event 4 b] 0"
  have "ccel_event_at (replicate 32 0 @ event_image (sample_event 4 b) @ []) (length (replicate 32 (0::byte))) =
      Inr (Next (Some (sample_event 4 b)) (length (replicate 32 0 @ event_image (sample_event 4 b))))" for b
    by (rule event_at_image) (simp add: sample_event_def event_ok_def)
  have hdr: "replicate 28 0 @ le_bytes 4 0 = (replicate 32 0 :: bytes)"
    by code_simp
  have parse: "ParseCCEL (?log b) = Inr [sample_event 4 b]" for b
    using parse_events_image [of "[sample_event 4 b]" "replicate 28 0 @ le_bytes 4 0" 0]
      le_at_cursor [of 0 4 28 "replicate 28 0" "event_image (sample_event 4 b)"]
    by (simp add: ParseCCEL_def ccel_image_def sample_event_def event_ok_def)
  then show "ParseCCEL (?log 6) = Inr [sample_event 4 6]" "ParseCCEL (?log 7) = Inr [sample_event 4 7]"
    by blast+
  have "register_digests j [sample_event 4 b] = []" if "j < 3" for j b
    using that by (simp add: register_digests_def sample_event_def)
  then show "VerifyCCELAgainstRTMRs (?log 6) Zero Zero Zero Zero =
      Inr (Zero = fold_digests (register_digests 3 [sample_event 4 6]))"
    "VerifyCCELAgainstRTMRs (?log 7) Zero Zero Zero Zero =
      Inr (Zero = fold_digests (register_digests 3 [sample_event 4 7]))"
    using parse by (auto simp: VerifyCCEL_Inr)
qed simp

text \<open>
  No event log, however malformed, makes the parser read out of range; it always returns events
  or an error.
\<close>

lemma ccel_no_panic: "\<not> panics_result (ParseCCEL data) \<and> \<not> panics_result (VerifyCCELAgainstRTMRs data r0 r1 r2 r3)"
  by (auto simp: VerifyCCELAgainstRTMRs_def Let_def)

end
