(* ===== verification/TcbStatus.thy ===== *)
theory TcbStatus
  imports TeeTypes
begin

text \<open>
  TDX TCB statuses of \<open>attestation/tdx/tcbstatus.go\<close>: which level each component of a quote meets
  and the status the result reports.

  A status is a string in Intel's spelling, as in the code; \<open>tcb_status\<close> is the type of the seven
  known ones, ordered from most to least favourable (an instance of \<open>linorder\<close>), which the
  specification of the reported status uses. The records are the fields the code reads of the
  structures of the third-party packages \<open>pcs\<close> and \<open>verify\<close>; what those packages compute from a
  quote and a response body is passed in as functions.
\<close>

section \<open>Statuses\<close>

datatype tcb_status =
    UpToDate | SWHardeningNeeded | ConfigurationNeeded | ConfigurationAndSWHardeningNeeded
  | OutOfDate | OutOfDateConfigurationNeeded | Revoked

fun status_name :: "tcb_status \<Rightarrow> string" where
  "status_name UpToDate = ''UpToDate''"
| "status_name SWHardeningNeeded = ''SWHardeningNeeded''"
| "status_name ConfigurationNeeded = ''ConfigurationNeeded''"
| "status_name ConfigurationAndSWHardeningNeeded = ''ConfigurationAndSWHardeningNeeded''"
| "status_name OutOfDate = ''OutOfDate''"
| "status_name OutOfDateConfigurationNeeded = ''OutOfDateConfigurationNeeded''"
| "status_name Revoked = ''Revoked''"

definition tcbStatusOrder :: "string list" where
  "tcbStatusOrder =
     [status_name UpToDate, status_name SWHardeningNeeded, status_name ConfigurationNeeded,
      status_name ConfigurationAndSWHardeningNeeded, status_name OutOfDate,
      status_name OutOfDateConfigurationNeeded, status_name Revoked]"

fun status_rank :: "tcb_status \<Rightarrow> nat" where
  "status_rank UpToDate = 0"
| "status_rank SWHardeningNeeded = 1"
| "status_rank ConfigurationNeeded = 2"
| "status_rank ConfigurationAndSWHardeningNeeded = 3"
| "status_rank OutOfDate = 4"
| "status_rank OutOfDateConfigurationNeeded = 5"
| "status_rank Revoked = 6"

lemma status_rank_inj [simp]: "status_rank s = status_rank t \<longleftrightarrow> s = t"
  by (cases s; cases t) simp_all

instantiation tcb_status :: linorder
begin

definition less_eq_tcb_status :: "tcb_status \<Rightarrow> tcb_status \<Rightarrow> bool" where
  "less_eq_tcb_status s t \<longleftrightarrow> status_rank s \<le> status_rank t"

definition less_tcb_status :: "tcb_status \<Rightarrow> tcb_status \<Rightarrow> bool" where
  "less_tcb_status s t \<longleftrightarrow> status_rank s < status_rank t"

instance
  by standard (auto simp: less_eq_tcb_status_def less_tcb_status_def)

end

text \<open>\<open>slices.Index\<close>: -1 when absent.\<close>

fun index_from :: "int \<Rightarrow> 'a list \<Rightarrow> 'a \<Rightarrow> int" where
  "index_from i [] x = - 1"
| "index_from i (y # ys) x = (if x = y then i else index_from (i + 1) ys x)"

definition status_index :: "string \<Rightarrow> int" where
  "status_index s = index_from 0 tcbStatusOrder s"

definition ParseTCBStatus :: "string \<Rightarrow> err + string" where
  "ParseTCBStatus s =
     (if s \<notin> set tcbStatusOrder then Inl (Errorf ''unknown TDX TCB status'') else Inr s)"

record tdx_options =
  GetCollateral :: bool
  CheckRevocations :: bool
  AcceptedTCBStatuses :: "string list"

definition checkAcceptedTCBStatuses :: "tdx_options \<Rightarrow> err + unit" where
  "checkAcceptedTCBStatuses opts =
     (if AcceptedTCBStatuses opts = [] then Inr ()
      else if \<not> GetCollateral opts then Inl (Errorf ''AcceptedTCBStatuses requires GetCollateral'')
      else
        for_each
          (\<lambda>status.
             bindr (wrap_err (Errorf ''AcceptedTCBStatuses'') (ParseTCBStatus status)) (\<lambda>_.
             if status = status_name Revoked then Inl (Errorf ''AcceptedTCBStatuses cannot accept'')
             else Inr ()))
          (AcceptedTCBStatuses opts))"

section \<open>Levels\<close>

record tcb_level =
  SgxSvns :: "byte list"
  TdxSvns :: "byte list"
  Pcesvn :: nat
  Isvsvn :: nat
  LevelStatus :: string
  LevelAdvisories :: "string list"

record module_identity =
  ModuleID :: string
  ModuleLevels :: "tcb_level list"

record pck_tcb =
  CPUSvnComponents :: "byte list"
  PCESvn :: nat

record tcb_info_body =
  TcbLevels :: "tcb_level list"
  ModuleIdentities :: "module_identity list"

definition firstLevel :: "tcb_level list \<Rightarrow> (tcb_level \<Rightarrow> bool) \<Rightarrow> tcb_level option" where
  "firstLevel levels match = find match levels"

text \<open>The closure of \<open>matchPlatformLevel\<close>: no SVN of the level exceeds the platform's.\<close>

definition meets_platform :: "bytes \<Rightarrow> pck_tcb \<Rightarrow> nat \<Rightarrow> tcb_level \<Rightarrow> bool" where
  "meets_platform teeTcbSvn pck start l \<longleftrightarrow>
     length (SgxSvns l) = length (CPUSvnComponents pck) \<and> length (TdxSvns l) = length teeTcbSvn \<and>
     list_all (\<lambda>i. SgxSvns l ! i \<le> CPUSvnComponents pck ! i) [0..<length (SgxSvns l)] \<and>
     Pcesvn l \<le> PCESvn pck \<and>
     list_all (\<lambda>i. TdxSvns l ! i \<le> teeTcbSvn ! i) [start..<length teeTcbSvn]"

definition matchPlatformLevel :: "tcb_level list \<Rightarrow> bytes \<Rightarrow> pck_tcb \<Rightarrow> err + tcb_level" where
  "matchPlatformLevel levels teeTcbSvn pck =
     bindr (index_at teeTcbSvn 1) (\<lambda>m.
     let start = (if 0 < m then 2 else 0) in
     case firstLevel levels (meets_platform teeTcbSvn pck start) of
       None \<Rightarrow> Inl (Errorf ''no platform TCB level matches'')
     | Some level \<Rightarrow> Inr level)"

fun find_module :: "string \<Rightarrow> module_identity list \<Rightarrow> nat \<Rightarrow> err + tcb_level" where
  "find_module mid [] svn = Inl (Errorf ''TCB info has no TDX module identity'')"
| "find_module mid (m # ms) svn =
     (if ModuleID m \<noteq> mid then find_module mid ms svn
      else case firstLevel (ModuleLevels m) (\<lambda>l. Isvsvn l \<le> svn) of
          None \<Rightarrow> Inl (Errorf ''no TCB level matches module ISVSVN'')
        | Some level \<Rightarrow> Inr level)"

definition matchModuleLevel :: "module_identity list \<Rightarrow> bytes \<Rightarrow> err + tcb_level" where
  "matchModuleLevel identities teeTcbSvn =
     bindr (subslice teeTcbSvn 1 2) (\<lambda>version.
     bindr (index_at teeTcbSvn 0) (\<lambda>svn.
     find_module (''TDX_'' @ hex_encode version) identities (unat svn)))"

definition matchTCBLevels ::
    "tcb_info_body \<Rightarrow> tcb_level list \<Rightarrow> bytes \<Rightarrow> pck_tcb \<Rightarrow> nat \<Rightarrow> err + (string \<times> tcb_level) list" where
  "matchTCBLevels info qe teeTcbSvn pck qeIsvSvn =
     (if length teeTcbSvn \<noteq> 16 then Inl (Errorf ''TEE_TCB_SVN width'')
      else
        bindr (matchPlatformLevel (TcbLevels info) teeTcbSvn pck) (\<lambda>platform.
        bindr (index_at teeTcbSvn 1) (\<lambda>m.
        bindr
          (if 0 < m
           then bindr (matchModuleLevel (ModuleIdentities info) teeTcbSvn) (\<lambda>module.
             Inr [(''platform'', platform), (''TDX module'', module)])
           else Inr [(''platform'', platform)]) (\<lambda>levels.
        case firstLevel qe (\<lambda>l. Isvsvn l \<le> qeIsvSvn) of
          None \<Rightarrow> Inl (Errorf ''no QE identity TCB level matches'')
        | Some qeLevel \<Rightarrow> Inr (levels @ [(''QE'', qeLevel)])))))"

section \<open>The recorder and the evaluation\<close>

type_synonym recorder = "(string \<times> bytes) list"

definition recorder_Get ::
    "(string \<Rightarrow> err + bytes) \<Rightarrow> string \<Rightarrow> recorder \<Rightarrow> (err + bytes) \<times> recorder" where
  "recorder_Get inner url r =
     (case inner url of
        Inl e \<Rightarrow> (Inl e, r)
      | Inr body \<Rightarrow> (Inr body, (url, body) # r))"

definition recorder_body :: "recorder \<Rightarrow> string \<Rightarrow> err + bytes" where
  "recorder_body r url =
     (case map_of r url of
        None \<Rightarrow> Inl (Errorf ''collateral was not fetched'')
      | Some b \<Rightarrow> Inr b)"

record pck_extensions =
  ExtFMSPC :: string
  ExtTCB :: pck_tcb

record tdx_quote_tcb =
  QuoteExtensions :: "err + pck_extensions"
  TeeTcbSvn :: bytes
  QeIsvSvn :: nat

record tcb_collateral =
  TcbInfoURL :: "string \<Rightarrow> string"
  QeIdentityURL :: string
  ParseTcbInfo :: "bytes \<Rightarrow> err + tcb_info_body"
  ParseQeIdentity :: "bytes \<Rightarrow> err + tcb_level list"

text \<open>One turn of the loop over the matched levels: worst rank so far, status, advisories.\<close>

type_synonym status_acc = "int \<times> string \<times> string list"

definition add_advisories :: "string list \<Rightarrow> string list \<Rightarrow> string list" where
  "add_advisories ids new = foldl (\<lambda>acc id. if id \<in> set acc then acc else acc @ [id]) ids new"

fun fold_levels :: "string list \<Rightarrow> (string \<times> tcb_level) list \<Rightarrow> status_acc \<Rightarrow> err + status_acc" where
  "fold_levels accepted [] acc = Inr acc"
| "fold_levels accepted ((name, l) # ls) (worst, status, ids) =
     (let s = LevelStatus l in
      if s \<notin> set accepted then Inl (Errorf ''TCB status is not accepted'')
      else
        let rank = status_index s; ids' = add_advisories ids (LevelAdvisories l) in
        fold_levels accepted ls (if worst < rank then (rank, s, ids') else (worst, status, ids')))"

definition evaluateTCBStatus ::
    "tcb_collateral \<Rightarrow> tdx_quote_tcb \<Rightarrow> recorder \<Rightarrow> string list \<Rightarrow> err + dcap_status" where
  "evaluateTCBStatus col quote r accepted =
     bindr (wrap_err (Errorf ''TCB status'') (QuoteExtensions quote)) (\<lambda>exts.
     bindr (recorder_body r (TcbInfoURL col (ExtFMSPC exts))) (\<lambda>tcbInfoBody.
     bindr (recorder_body r (QeIdentityURL col)) (\<lambda>qeIdentityBody.
     bindr (wrap_err (Errorf ''parse TCB info'') (ParseTcbInfo col tcbInfoBody)) (\<lambda>tcbInfo.
     bindr (wrap_err (Errorf ''parse QE identity'') (ParseQeIdentity col qeIdentityBody)) (\<lambda>qeIdentity.
     bindr (wrap_err (Errorf ''TCB status'')
              (matchTCBLevels tcbInfo qeIdentity (TeeTcbSvn quote) (ExtTCB exts) (QeIsvSvn quote))) (\<lambda>levels.
     bindr (fold_levels accepted levels (- 1, [], [])) (\<lambda>(worst, status, ids).
     Inr \<lparr>TCBStatus = status, FMSPC = ExtFMSPC exts, AdvisoryIDs = ids, CollateralExpired = False\<rparr>)))))))"

section \<open>The order of statuses\<close>

lemma status_name_inj [simp]: "status_name s = status_name t \<longleftrightarrow> s = t"
  by (cases s; cases t) simp_all

lemma set_tcbStatusOrder: "x \<in> set tcbStatusOrder \<longleftrightarrow> (\<exists>s. x = status_name s)"
proof
  assume "x \<in> set tcbStatusOrder"
  then show "\<exists>s. x = status_name s" by (auto simp: tcbStatusOrder_def simp del: status_name.simps)
next
  assume "\<exists>s. x = status_name s"
  then obtain s where "x = status_name s" by blast
  then show "x \<in> set tcbStatusOrder"
    by (cases s) (simp_all add: tcbStatusOrder_def del: status_name.simps)
qed

lemma status_index_name [simp]: "status_index (status_name s) = int (status_rank s)"
  by (cases s) (simp_all add: status_index_def tcbStatusOrder_def del: status_name.simps)

lemma ParseTCBStatus_Inr: "ParseTCBStatus s = Inr t \<longleftrightarrow> t = s \<and> (\<exists>x. s = status_name x)"
  by (auto simp: ParseTCBStatus_def set_tcbStatusOrder)

lemma checkAcceptedTCBStatuses_Inr:
  "checkAcceptedTCBStatuses opts = Inr u \<longleftrightarrow>
     AcceptedTCBStatuses opts = [] \<or>
     GetCollateral opts \<and> set (AcceptedTCBStatuses opts) \<subseteq> status_name ` (UNIV - {Revoked})"
proof -
  have "(\<exists>x. s = status_name x) \<and> s \<noteq> status_name Revoked \<longleftrightarrow> s \<in> status_name ` (UNIV - {Revoked})" for s
    by (auto simp: image_iff simp del: status_name.simps)
  then show ?thesis
    by (auto simp: checkAcceptedTCBStatuses_def ParseTCBStatus_Inr subset_eq simp del: status_name.simps)
qed

section \<open>Matching\<close>

lemma firstLevel_Some:
  "firstLevel levels P = Some l \<longleftrightarrow> (\<exists>i<length levels. l = levels ! i \<and> P l \<and> (\<forall>j<i. \<not> P (levels ! j)))"
  unfolding firstLevel_def find_Some_iff by blast

lemma firstLevel_mono:
  assumes "firstLevel levels P = Some l" and "\<And>l. P l \<Longrightarrow> Q l"
  shows "\<exists>i j. i \<le> j \<and> j < length levels \<and> l = levels ! j \<and> firstLevel levels Q = Some (levels ! i)"
proof -
  from assms(1) obtain j where j: "j < length levels" "l = levels ! j" "P l"
    by (auto simp: firstLevel_Some)
  define i where "i = (LEAST i. Q (levels ! i))"
  from j assms(2) have Qj: "Q (levels ! j)" by simp
  then have "Q (levels ! i)" "i \<le> j" unfolding i_def by (rule LeastI, rule Least_le)
  moreover have "\<forall>k<i. \<not> Q (levels ! k)" unfolding i_def using not_less_Least by blast
  ultimately show ?thesis
    using j unfolding firstLevel_Some by (intro exI [of _ i] exI [of _ j] conjI) auto
qed

definition start_of :: "bytes \<Rightarrow> nat" where
  "start_of svn = (if 0 < svn ! 1 then 2 else 0)"

lemma matchPlatformLevel_Inr:
  "length svn = 16 \<Longrightarrow> matchPlatformLevel levels svn pck = Inr l \<longleftrightarrow>
     firstLevel levels (meets_platform svn pck (start_of svn)) = Some l"
  by (auto simp: matchPlatformLevel_def start_of_def Let_def split: option.splits)

lemma find_module_Inr:
  "find_module mid ms svn = Inr l \<longleftrightarrow>
     (\<exists>m. find (\<lambda>m. ModuleID m = mid) ms = Some m \<and> firstLevel (ModuleLevels m) (\<lambda>l. Isvsvn l \<le> svn) = Some l)"
  by (induction ms) (auto split: option.splits)

lemma matchTCBLevels_Inr:
  "matchTCBLevels info qe svn pck isv = Inr levels \<longleftrightarrow>
     length svn = 16 \<and>
     (\<exists>p q ms. firstLevel (TcbLevels info) (meets_platform svn pck (start_of svn)) = Some p \<and>
        firstLevel qe (\<lambda>l. Isvsvn l \<le> isv) = Some q \<and>
        (if 0 < svn ! 1
         then \<exists>m. matchModuleLevel (ModuleIdentities info) svn = Inr m \<and> ms = [(''TDX module'', m)]
         else ms = []) \<and>
        levels = [(''platform'', p)] @ ms @ [(''QE'', q)])"
proof (cases "length svn = 16")
  case True
  have if_Inr: "(if b then bindr x (\<lambda>m. Inr [a, (n, m)]) else Inr [a]) = Inr (ls :: (string \<times> tcb_level) list) \<longleftrightarrow>
      (\<exists>ms. (if b then \<exists>m. x = Inr m \<and> ms = [(n, m)] else ms = []) \<and> ls = a # ms)" for b x a n ls
    by auto
  from True show ?thesis
    by (simp add: matchTCBLevels_def matchPlatformLevel_Inr if_Inr split: option.splits) auto
qed (simp add: matchTCBLevels_def)

section \<open>The reported status\<close>

lemma set_add_advisories: "set (add_advisories ids new) = set ids \<union> set new"
proof (induction new arbitrary: ids)
  case (Cons a new)
  then show ?case by (auto simp: add_advisories_def)
qed (simp add: add_advisories_def)

lemma distinct_add_advisories: "distinct ids \<Longrightarrow> distinct (add_advisories ids new)"
proof (induction new arbitrary: ids)
  case (Cons a new)
  then show ?case by (auto simp: add_advisories_def)
qed (simp add: add_advisories_def)

text \<open>The accumulator after levels of statuses \<open>seen\<close> (in \<open>seen\<close> some status once one was folded).\<close>

definition acc_ok :: "tcb_status set \<Rightarrow> int \<Rightarrow> string \<Rightarrow> bool" where
  "acc_ok seen worst status \<longleftrightarrow>
     (if seen = {} then worst = - 1 else worst = int (status_rank (Max seen)) \<and> status = status_name (Max seen))"

lemma acc_ok_insert:
  assumes "finite seen" and "acc_ok seen worst status"
  shows "if worst < int (status_rank t) then acc_ok (insert t seen) (int (status_rank t)) (status_name t)
    else acc_ok (insert t seen) worst status"
proof (cases "seen = {}")
  case True
  with assms show ?thesis by (simp add: acc_ok_def)
next
  case False
  with assms have "worst < int (status_rank t) \<longleftrightarrow> Max seen < t"
    by (simp add: acc_ok_def less_tcb_status_def)
  with False assms show ?thesis
    by (auto simp: acc_ok_def max_def not_less less_eq_tcb_status_def less_tcb_status_def)
qed

lemma fold_levels_Inr:
  assumes "fold_levels accepted ls (worst, status, ids) = Inr (worst', status', ids')"
    and acc: "set accepted \<subseteq> range status_name" and "finite seen" and "acc_ok seen worst status" and "distinct ids"
  shows "\<exists>new. (\<lambda>l. LevelStatus (snd l)) ` set ls = status_name ` new \<and> finite new \<and>
    acc_ok (seen \<union> new) worst' status' \<and>
    set ids' = set ids \<union> (\<Union>l\<in>set ls. set (LevelAdvisories (snd l))) \<and> distinct ids' \<and>
    (\<forall>l\<in>set ls. LevelStatus (snd l) \<in> set accepted)"
  using assms(1,3-)
proof (induction ls arbitrary: worst status ids seen)
  case Nil
  then show ?case by (intro exI [of _ "{}"]) simp
next
  case (Cons p ls)
  obtain name l where p: "p = (name, l)" by (cases p)
  from Cons.prems(1) p have mem: "LevelStatus l \<in> set accepted" by (simp add: Let_def split: if_splits)
  with acc obtain t where t: "LevelStatus l = status_name t" by blast
  let ?w = "if worst < int (status_rank t) then int (status_rank t) else worst"
  let ?s = "if worst < int (status_rank t) then status_name t else status"
  let ?ids = "add_advisories ids (LevelAdvisories l)"
  have "fold_levels accepted ls (?w, ?s, ?ids) = Inr (worst', status', ids')"
    using Cons.prems(1) p mem t by (simp add: Let_def split: if_splits)
  moreover have "acc_ok (insert t seen) ?w ?s"
    using acc_ok_insert [OF Cons.prems(2,3), of t] by (simp split: if_splits)
  ultimately obtain new where "(\<lambda>l. LevelStatus (snd l)) ` set ls = status_name ` new" "finite new"
    "acc_ok (insert t seen \<union> new) worst' status'"
    "set ids' = set ?ids \<union> (\<Union>l\<in>set ls. set (LevelAdvisories (snd l)))" "distinct ids'"
    "\<forall>l\<in>set ls. LevelStatus (snd l) \<in> set accepted"
    using Cons.IH [of ?w ?s ?ids "insert t seen"] Cons.prems(2,4) by (auto simp: distinct_add_advisories)
  with p t mem show ?case
    by (intro exI [of _ "insert t new"]) (auto simp: set_add_advisories)
qed

lemma matchTCBLevels_nonempty: "matchTCBLevels info qe svn pck isv = Inr levels \<Longrightarrow> levels \<noteq> []"
  by (auto simp: matchTCBLevels_Inr)

lemma evaluateTCBStatus_Inr:
  "evaluateTCBStatus col quote r accepted = Inr st \<longleftrightarrow>
     (\<exists>exts b1 b2 info qe levels worst status ids.
        QuoteExtensions quote = Inr exts \<and> recorder_body r (TcbInfoURL col (ExtFMSPC exts)) = Inr b1 \<and>
        recorder_body r (QeIdentityURL col) = Inr b2 \<and> ParseTcbInfo col b1 = Inr info \<and>
        ParseQeIdentity col b2 = Inr qe \<and>
        matchTCBLevels info qe (TeeTcbSvn quote) (ExtTCB exts) (QeIsvSvn quote) = Inr levels \<and>
        fold_levels accepted levels (- 1, [], []) = Inr (worst, status, ids) \<and>
        st = \<lparr>TCBStatus = status, FMSPC = ExtFMSPC exts, AdvisoryIDs = ids, CollateralExpired = False\<rparr>)"
  by (auto simp: evaluateTCBStatus_def split: prod.splits)

text \<open>The levels a quote is judged by, from the bodies the recorder holds.\<close>

definition judged_levels ::
    "tcb_collateral \<Rightarrow> tdx_quote_tcb \<Rightarrow> recorder \<Rightarrow> (string \<times> tcb_level) list \<Rightarrow> bool" where
  "judged_levels col quote r levels \<longleftrightarrow>
     (\<exists>exts b1 b2 info qe. QuoteExtensions quote = Inr exts \<and>
        map_of r (TcbInfoURL col (ExtFMSPC exts)) = Some b1 \<and> map_of r (QeIdentityURL col) = Some b2 \<and>
        ParseTcbInfo col b1 = Inr info \<and> ParseQeIdentity col b2 = Inr qe \<and>
        matchTCBLevels info qe (TeeTcbSvn quote) (ExtTCB exts) (QeIsvSvn quote) = Inr levels)"

lemma recorder_body_Inr [simp]: "recorder_body r url = Inr b \<longleftrightarrow> map_of r url = Some b"
  by (simp add: recorder_body_def split: option.splits)

lemma evaluate_judged:
  assumes "checkAcceptedTCBStatuses opts = Inr ()"
    and "evaluateTCBStatus col quote r (AcceptedTCBStatuses opts) = Inr st"
  shows "\<exists>levels S. judged_levels col quote r levels \<and>
    (\<lambda>l. LevelStatus (snd l)) ` set levels = status_name ` S \<and> finite S \<and> S \<noteq> {} \<and>
    status_name ` S \<subseteq> set (AcceptedTCBStatuses opts) \<and> Revoked \<notin> S \<and>
    TCBStatus st = status_name (Max S) \<and> distinct (AdvisoryIDs st) \<and>
    set (AdvisoryIDs st) = (\<Union>l\<in>set levels. set (LevelAdvisories (snd l)))"
proof -
  from assms(2) obtain levels worst status ids where j: "judged_levels col quote r levels"
    and ne: "levels \<noteq> []" and f: "fold_levels (AcceptedTCBStatuses opts) levels (- 1, [], []) = Inr (worst, status, ids)"
    and st: "TCBStatus st = status" "AdvisoryIDs st = ids"
    using matchTCBLevels_nonempty unfolding evaluateTCBStatus_Inr judged_levels_def recorder_body_Inr
    by (metis dcap_status.select_convs(1,3))
  have sub: "set (AcceptedTCBStatuses opts) \<subseteq> status_name ` (UNIV - {Revoked})"
    using assms(1) by (auto simp: checkAcceptedTCBStatuses_Inr)
  then have "set (AcceptedTCBStatuses opts) \<subseteq> range status_name" by blast
  from fold_levels_Inr [OF f this, of "{}"] obtain S where S: "(\<lambda>l. LevelStatus (snd l)) ` set levels = status_name ` S"
    "finite S" "acc_ok S worst status" "set ids = (\<Union>l\<in>set levels. set (LevelAdvisories (snd l)))" "distinct ids"
    "\<forall>l\<in>set levels. LevelStatus (snd l) \<in> set (AcceptedTCBStatuses opts)"
    by (auto simp: acc_ok_def)
  from S ne have "S \<noteq> {}" by auto
  moreover from S have "status_name ` S \<subseteq> set (AcceptedTCBStatuses opts)" by (metis image_subsetI)
  moreover have "Revoked \<notin> S"
  proof
    assume "Revoked \<in> S"
    with calculation(2) sub have "status_name Revoked \<in> status_name ` (UNIV - {Revoked})" by blast
    then show False by (auto simp del: status_name.simps)
  qed
  ultimately show ?thesis using j S st by (intro exI [of _ levels] exI [of _ S]) (simp add: acc_ok_def)
qed

text \<open>In short: the reported status is an accepted one, and not Revoked.\<close>

lemma evaluate_accepted:
  assumes "checkAcceptedTCBStatuses opts = Inr ()"
    and "evaluateTCBStatus col quote r (AcceptedTCBStatuses opts) = Inr st"
  shows "TCBStatus st \<in> set (AcceptedTCBStatuses opts) \<and> TCBStatus st \<noteq> status_name Revoked"
proof -
  from evaluate_judged [OF assms] obtain S where "finite S" "S \<noteq> {}" "status_name ` S \<subseteq> set (AcceptedTCBStatuses opts)"
    "Revoked \<notin> S" "TCBStatus st = status_name (Max S)" by blast
  moreover from this have "Max S \<in> S" by simp
  ultimately show ?thesis by (metis image_subset_iff status_name_inj)
qed

section \<open>Properties\<close>

text \<open>
  C30: the reported TCB status. When the options pass their check and the evaluation succeeds, the
  reported status is the least favourable, in Intel's order, among the statuses of the levels
  matched against the recorded collateral; every one of them is among the accepted statuses, so
  none is Revoked; and the advisories are exactly those of the matched levels, each once.
\<close>

theorem evaluateTCBStatus_worst:
  assumes "checkAcceptedTCBStatuses opts = Inr ()"
    and "evaluateTCBStatus col quote r (AcceptedTCBStatuses opts) = Inr st"
  shows "\<exists>levels S. judged_levels col quote r levels \<and>
    (\<lambda>l. LevelStatus (snd l)) ` set levels = status_name ` S \<and> finite S \<and> S \<noteq> {} \<and>
    status_name ` S \<subseteq> set (AcceptedTCBStatuses opts) \<and> Revoked \<notin> S \<and>
    TCBStatus st = status_name (Max S) \<and> distinct (AdvisoryIDs st) \<and>
    set (AdvisoryIDs st) = (\<Union>l\<in>set levels. set (LevelAdvisories (snd l)))"
  using assms by (rule evaluate_judged)

definition sample_level :: "tcb_status \<Rightarrow> string \<Rightarrow> tcb_level" where
  "sample_level s adv = \<lparr>SgxSvns = replicate 16 1, TdxSvns = replicate 16 0, Pcesvn = 3, Isvsvn = 2,
     LevelStatus = status_name s, LevelAdvisories = [adv]\<rparr>"

definition sample_collateral :: tcb_collateral where
  "sample_collateral = \<lparr>TcbInfoURL = (\<lambda>f. ''tcb'' @ f), QeIdentityURL = ''qe'',
     ParseTcbInfo = (\<lambda>_. Inr \<lparr>TcbLevels = [sample_level SWHardeningNeeded ''SA-1''], ModuleIdentities = []\<rparr>),
     ParseQeIdentity = (\<lambda>_. Inr [sample_level UpToDate ''SA-2''])\<rparr>"

definition sample_quote_tcb :: tdx_quote_tcb where
  "sample_quote_tcb = \<lparr>QuoteExtensions = Inr \<lparr>ExtFMSPC = ''00'',
     ExtTCB = \<lparr>CPUSvnComponents = replicate 16 1, PCESvn = 4\<rparr>\<rparr>, TeeTcbSvn = replicate 16 0, QeIsvSvn = 2\<rparr>"

definition sample_options :: tdx_options where
  "sample_options = \<lparr>GetCollateral = True, CheckRevocations = False,
     AcceptedTCBStatuses = [status_name UpToDate, status_name SWHardeningNeeded]\<rparr>"

lemma sample_evaluates:
  "evaluateTCBStatus sample_collateral sample_quote_tcb [(''tcb00'', []), (''qe'', [])]
     (AcceptedTCBStatuses sample_options) =
   Inr \<lparr>TCBStatus = ''SWHardeningNeeded'', FMSPC = ''00'', AdvisoryIDs = [''SA-1'', ''SA-2''],
     CollateralExpired = False\<rparr>"
  by code_simp

theorem evaluateTCBStatus_worst_witness:
  "\<exists>levels S. judged_levels sample_collateral sample_quote_tcb [(''tcb00'', []), (''qe'', [])] levels \<and>
     (\<lambda>l. LevelStatus (snd l)) ` set levels = status_name ` S \<and> finite S \<and> S \<noteq> {} \<and>
     status_name ` S \<subseteq> set (AcceptedTCBStatuses sample_options) \<and> Revoked \<notin> S \<and>
     ''SWHardeningNeeded'' = status_name (Max S)"
proof -
  have "checkAcceptedTCBStatuses sample_options = Inr ()"
    by (auto simp: checkAcceptedTCBStatuses_Inr sample_options_def simp del: status_name.simps)
  from evaluateTCBStatus_worst [OF this sample_evaluates] show ?thesis
    by (elim ex_forward) (simp del: status_name.simps)
qed

text \<open>A platform no worse than another in every SVN, with the same module version.\<close>

definition svn_raised :: "bytes \<Rightarrow> pck_tcb \<Rightarrow> bytes \<Rightarrow> pck_tcb \<Rightarrow> bool" where
  "svn_raised svn pck svn' pck' \<longleftrightarrow>
     list_all2 (\<le>) svn svn' \<and> svn ! 1 = svn' ! 1 \<and>
     list_all2 (\<le>) (CPUSvnComponents pck) (CPUSvnComponents pck') \<and> PCESvn pck \<le> PCESvn pck'"

lemma meets_platform_mono:
  assumes "svn_raised svn pck svn' pck'" and "meets_platform svn pck start l"
  shows "meets_platform svn' pck' start l"
proof -
  from assms(1) have len: "length svn' = length svn" "length (CPUSvnComponents pck') = length (CPUSvnComponents pck)"
    and le: "\<And>i. i < length svn \<Longrightarrow> svn ! i \<le> svn' ! i"
      "\<And>i. i < length (CPUSvnComponents pck) \<Longrightarrow> CPUSvnComponents pck ! i \<le> CPUSvnComponents pck' ! i"
      "PCESvn pck \<le> PCESvn pck'"
    by (auto simp: svn_raised_def list_all2_conv_all_nth)
  have "SgxSvns l ! i \<le> CPUSvnComponents pck' ! i"
    if "i < length (CPUSvnComponents pck)" "SgxSvns l ! i \<le> CPUSvnComponents pck ! i" for i
    using that le(2) order_trans by blast
  moreover have "TdxSvns l ! i \<le> svn' ! i" if "i < length svn" "TdxSvns l ! i \<le> svn ! i" for i
    using that le(1) order_trans by blast
  ultimately show ?thesis using assms(2) len le(3)
    by (auto simp: meets_platform_def list_all_iff)
qed

text \<open>
  Raising SVNs never worsens the platform level. If a platform matches a level, a platform with
  no lower SVN anywhere (and the same module version) also matches one, and at the same position or
  an earlier one of Intel's list.
\<close>

lemma matchPlatformLevel_monotone:
  assumes "length svn = 16" and "svn_raised svn pck svn' pck'"
    and "matchPlatformLevel levels svn pck = Inr l"
  shows "\<exists>i j. i \<le> j \<and> j < length levels \<and> l = levels ! j \<and>
    matchPlatformLevel levels svn' pck' = Inr (levels ! i)"
proof -
  from assms(1,2) have len: "length svn' = 16" "start_of svn' = start_of svn"
    by (auto simp: svn_raised_def list_all2_lengthD start_of_def)
  from assms have "firstLevel levels (meets_platform svn pck (start_of svn)) = Some l"
    by (simp add: matchPlatformLevel_Inr)
  from firstLevel_mono [OF this, of "meets_platform svn' pck' (start_of svn)"]
    meets_platform_mono [OF assms(2)] len show ?thesis
    by (simp add: matchPlatformLevel_Inr)
qed

lemma matchPlatformLevel_monotone_example:
  "\<exists>i j. i \<le> j \<and> j < length [sample_level UpToDate ''SA-1''] \<and>
     sample_level UpToDate ''SA-1'' = [sample_level UpToDate ''SA-1''] ! j \<and>
     matchPlatformLevel [sample_level UpToDate ''SA-1''] (replicate 16 0)
       \<lparr>CPUSvnComponents = replicate 16 2, PCESvn = 5\<rparr> = Inr ([sample_level UpToDate ''SA-1''] ! i)"
proof (rule matchPlatformLevel_monotone)
  show "svn_raised (replicate 16 0) \<lparr>CPUSvnComponents = replicate 16 1, PCESvn = 4\<rparr>
      (replicate 16 0) \<lparr>CPUSvnComponents = replicate 16 2, PCESvn = 5\<rparr>"
    by (simp add: svn_raised_def list_all2_conv_all_nth)
  show "matchPlatformLevel [sample_level UpToDate ''SA-1''] (replicate 16 0)
      \<lparr>CPUSvnComponents = replicate 16 1, PCESvn = 4\<rparr> = Inr (sample_level UpToDate ''SA-1'')"
    by code_simp
qed simp

end
