(* ===== verification/Utf8.thy ===== *)
theory Utf8
  imports GoStrings
begin

text \<open>
  Validity of UTF-8 and what \<open>encoding/json\<close> does to bytes that are not: the string functions the
  config document and the certificate extension share.
\<close>

section \<open>UTF-8\<close>

definition code_in :: "nat \<Rightarrow> nat \<Rightarrow> string \<Rightarrow> nat \<Rightarrow> bool" where
  "code_in lo hi s i \<longleftrightarrow> i < length s \<and> lo \<le> of_char (s ! i) \<and> of_char (s ! i) \<le> hi"

text \<open>The length of the valid encoding at the front, 0 when there is none.\<close>

definition utf8_len :: "string \<Rightarrow> nat" where
  "utf8_len s =
     (let c = code_in 0x80 0xBF s in
      if code_in 0 0x7F s 0 then 1
      else if code_in 0xC2 0xDF s 0 \<and> c 1 then 2
      else if code_in 0xE0 0xE0 s 0 \<and> code_in 0xA0 0xBF s 1 \<and> c 2 then 3
      else if (code_in 0xE1 0xEC s 0 \<or> code_in 0xEE 0xEF s 0) \<and> c 1 \<and> c 2 then 3
      else if code_in 0xED 0xED s 0 \<and> code_in 0x80 0x9F s 1 \<and> c 2 then 3
      else if code_in 0xF0 0xF0 s 0 \<and> code_in 0x90 0xBF s 1 \<and> c 2 \<and> c 3 then 4
      else if code_in 0xF1 0xF3 s 0 \<and> c 1 \<and> c 2 \<and> c 3 then 4
      else if code_in 0xF4 0xF4 s 0 \<and> code_in 0x80 0x8F s 1 \<and> c 2 \<and> c 3 then 4
      else 0)"

definition replacement :: string where
  "replacement = [CHR 0xEF, CHR 0xBF, CHR 0xBD]"

text \<open>What a string is after \<open>json.Marshal\<close> and \<open>json.Unmarshal\<close>.\<close>

function coerce_utf8 :: "string \<Rightarrow> string" where
  "coerce_utf8 s =
     (if s = [] then []
      else if utf8_len s = 0 then replacement @ coerce_utf8 (tl s)
      else take (utf8_len s) s @ coerce_utf8 (drop (utf8_len s) s))"
  by pat_completeness auto
termination by (relation "measure length") auto

function utf8_valid :: "string \<Rightarrow> bool" where
  "utf8_valid s =
     (if s = [] then True else if utf8_len s = 0 then False else utf8_valid (drop (utf8_len s) s))"
  by pat_completeness auto
termination by (relation "measure length") auto

declare coerce_utf8.simps [simp del] utf8_valid.simps [simp del]

lemma coerce_valid: "utf8_valid s \<Longrightarrow> coerce_utf8 s = s"
proof (induction s rule: utf8_valid.induct)
  case (1 s)
  show ?case
  proof (cases "s = [] \<or> utf8_len s = 0")
    case True
    with 1 show ?thesis by (simp add: coerce_utf8.simps [of s] utf8_valid.simps [of s] split: if_splits)
  next
    case False
    with 1 show ?thesis by (simp add: coerce_utf8.simps [of s] utf8_valid.simps [of s])
  qed
qed

lemma utf8_valid_ascii: "list_all (\<lambda>c. of_char c < (128 :: nat)) s \<Longrightarrow> utf8_valid s"
proof (induction s)
  case (Cons c s)
  then have "utf8_len (c # s) = 1" by (simp add: utf8_len_def code_in_def)
  with Cons show ?case by (simp add: utf8_valid.simps [of "c # s"])
qed (simp add: utf8_valid.simps)

lemma plain_ascii: "set s \<subseteq> set plain_chars \<Longrightarrow> utf8_valid s"
proof -
  have "list_all (\<lambda>c. of_char c < (128 :: nat)) plain_chars" by code_simp
  then show "set s \<subseteq> set plain_chars \<Longrightarrow> utf8_valid s"
    by (intro utf8_valid_ascii) (auto simp: list_all_iff)
qed

end
