(* ===== verification/StrictJson.thy ===== *)
theory StrictJson
  imports EqualFold
begin

text \<open>
  The duplicate-key check of \<open>internal/strictjson/strictjson.go\<close>.

  The code walks the token stream of \<open>json.Decoder\<close>. The stream is a list of tokens, \<open>BadToken\<close>
  where the decoder reports a syntax error; at its end \<open>Token\<close> returns \<open>io.EOF\<close>. The walk recurses
  with fuel, two units per token and two more, which \<open>walk_fuel\<close> shows is never used up. The
  specification is over the value tree the stream spells. Keys are compared with \<open>equal_fold\<close>,
  which is \<open>strings.EqualFold\<close> (see \<open>EqualFold\<close>).
\<close>

section \<open>The token stream\<close>

datatype token = Delim char | StrTok string | AtomTok | BadToken

text \<open>\<open>dec.Token()\<close> and \<open>dec.More()\<close>.\<close>

definition next_token :: "token list \<Rightarrow> err + (token \<times> token list)" where
  "next_token toks =
     (case toks of
        [] \<Rightarrow> Inl (Errorf ''EOF'')
      | BadToken # _ \<Rightarrow> Inl (Errorf ''syntax error'')
      | t # ts \<Rightarrow> Inr (t, ts))"

definition more :: "token list \<Rightarrow> bool" where
  "more toks = (case toks of [] \<Rightarrow> False | t # _ \<Rightarrow> t \<noteq> Delim CHR ''}'' \<and> t \<noteq> Delim CHR '']'')"

text \<open>The assertion \<open>tok.(string)\<close>.\<close>

definition as_key :: "token \<Rightarrow> string option" where
  "as_key tok = (case tok of StrTok s \<Rightarrow> Some s | _ \<Rightarrow> None)"

lemma as_key_Some [simp]: "as_key tok = Some s \<longleftrightarrow> tok = StrTok s"
  by (auto simp: as_key_def split: token.splits)

lemma as_key_StrTok [simp]: "as_key (StrTok s) = Some s"
  by simp

section \<open>The walk\<close>

definition out_of_fuel :: err where
  "out_of_fuel = Errorf ''out of fuel''"

text \<open>
  \<open>walk_members\<close> is the loop of \<open>walkObject\<close> with the keys seen so far, \<open>walk_elements\<close> the loop
  over an array inside \<open>walkValue\<close>.
\<close>

fun walk_members :: "nat \<Rightarrow> string list \<Rightarrow> token list \<Rightarrow> err + (string list \<times> token list)"
and walk_value :: "nat \<Rightarrow> token list \<Rightarrow> err + token list"
and walk_elements :: "nat \<Rightarrow> token list \<Rightarrow> err + token list" where
  "walk_members 0 keys toks = Inl out_of_fuel"
| "walk_members (Suc n) keys toks =
     (if more toks then
        bindr (wrap_err (Errorf ''not valid JSON'') (next_token toks)) (\<lambda>(tok, ts).
        case as_key tok of
          Some key \<Rightarrow>
            (if list_ex (\<lambda>seen. equal_fold seen key) keys then Inl (Errorf ''duplicate key'')
             else bindr (walk_value n ts) (\<lambda>rest. walk_members n (keys @ [key]) rest))
        | None \<Rightarrow> Inl (Errorf ''not valid JSON: object key''))
      else
        bindr (wrap_err (Errorf ''not valid JSON'') (next_token toks)) (\<lambda>(_, ts). Inr (keys, ts)))"
| "walk_value 0 toks = Inl out_of_fuel"
| "walk_value (Suc n) toks =
     bindr (wrap_err (Errorf ''not valid JSON'') (next_token toks)) (\<lambda>(tok, ts).
     if tok = Delim CHR ''{'' then bindr (walk_members n [] ts) (\<lambda>(_, rest). Inr rest)
     else if tok = Delim CHR ''['' then
       bindr (walk_elements n ts) (\<lambda>rest.
       bindr (wrap_err (Errorf ''not valid JSON'') (next_token rest)) (\<lambda>(_, ts'). Inr ts'))
     else Inr ts)"
| "walk_elements 0 toks = Inl out_of_fuel"
| "walk_elements (Suc n) toks =
     (if more toks then bindr (walk_value n toks) (\<lambda>rest. walk_elements n rest) else Inr toks)"

definition walkObject :: "token list \<Rightarrow> err + (string list \<times> token list)" where
  "walkObject toks = walk_members (2 * length toks + 2) [] toks"

definition RejectDuplicateKeys :: "token list \<Rightarrow> err + string list" where
  "RejectDuplicateKeys data =
     (case next_token data of
        Inl e \<Rightarrow> Inr []
      | Inr (tok, ts) \<Rightarrow>
          if tok \<noteq> Delim CHR ''{'' then Inr []
          else bindr (walkObject ts) (\<lambda>(keys, _). Inr keys))"

section \<open>The fuel is enough\<close>

lemma next_token_length: "next_token toks = Inr (t, ts) \<Longrightarrow> length toks = Suc (length ts)"
  by (auto simp: next_token_def split: list.splits token.splits)

text \<open>One turn of each walk that succeeds, and the two ways the walks go on.\<close>

lemma walk_members_step:
  assumes "walk_members (Suc n) keys toks = Inr (keys', ts)"
  obtains (close) t where "\<not> more toks" "next_token toks = Inr (t, ts)" "keys' = keys"
  | (member) key ts1 rest where "more toks" "next_token toks = Inr (StrTok key, ts1)"
      "\<not> list_ex (\<lambda>seen. equal_fold seen key) keys" "walk_value n ts1 = Inr rest"
      "walk_members n (keys @ [key]) rest = Inr (keys', ts)"
  using assms by (auto split: if_splits option.splits)

lemma walk_value_step:
  assumes "walk_value (Suc n) toks = Inr ts"
  obtains (obj) ts1 keys where "next_token toks = Inr (Delim CHR ''{'', ts1)" "walk_members n [] ts1 = Inr (keys, ts)"
  | (arr) ts1 rest t where "next_token toks = Inr (Delim CHR ''['', ts1)" "walk_elements n ts1 = Inr rest"
      "next_token rest = Inr (t, ts)"
  | (atom) t where "next_token toks = Inr (t, ts)"
  using assms by (auto split: if_splits)

lemma walk_elements_step:
  assumes "walk_elements (Suc n) toks = Inr ts"
  obtains (close) "\<not> more toks" "ts = toks"
  | (element) rest where "more toks" "walk_value n toks = Inr rest" "walk_elements n rest = Inr ts"
  using assms by (auto split: if_splits)

lemma walk_length:
  "(walk_members n keys toks = Inr (keys', ts) \<longrightarrow> length ts < length toks) \<and>
   (walk_value n toks = Inr ts \<longrightarrow> length ts < length toks) \<and>
   (walk_elements n toks = Inr ts \<longrightarrow> length ts \<le> length toks)"
proof (induction n arbitrary: keys toks keys' ts)
  case (Suc n)
  have "length ts < length toks" if "walk_members (Suc n) keys toks = Inr (keys', ts)"
    using that
  proof (cases rule: walk_members_step)
    case (close t)
    then show ?thesis by (simp add: next_token_length)
  next
    case (member key ts1 rest)
    then have "length rest < length ts1" "length ts < length rest" using Suc.IH by blast+
    with member show ?thesis by (simp add: next_token_length)
  qed
  moreover have "length ts < length toks" if "walk_value (Suc n) toks = Inr ts"
    using that
  proof (cases rule: walk_value_step)
    case (obj ts1 keys)
    then have "length ts < length ts1" using Suc.IH by blast
    with obj show ?thesis by (simp add: next_token_length)
  next
    case (arr ts1 rest t)
    then have "length rest \<le> length ts1" using Suc.IH by blast
    with arr show ?thesis by (simp add: next_token_length)
  qed (simp add: next_token_length)
  moreover have "length ts \<le> length toks" if "walk_elements (Suc n) toks = Inr ts"
    using that
  proof (cases rule: walk_elements_step)
    case (element rest)
    then have "length rest < length toks" "length ts \<le> length rest" using Suc.IH by blast+
    then show ?thesis by simp
  qed simp
  ultimately show ?case by blast
qed simp

lemma next_token_not_fuel: "next_token toks \<noteq> Inl out_of_fuel"
  by (auto simp: next_token_def out_of_fuel_def split: list.splits token.splits)

lemma walk_fuel:
  "(2 * length toks < n \<longrightarrow> walk_members n keys toks \<noteq> Inl out_of_fuel) \<and>
   (2 * length toks < n \<longrightarrow> walk_value n toks \<noteq> Inl out_of_fuel) \<and>
   (2 * length toks + 1 < n \<longrightarrow> walk_elements n toks \<noteq> Inl out_of_fuel)"
proof (induction n arbitrary: keys toks)
  case (Suc n)
  have val: "walk_value n ts \<noteq> Inl out_of_fuel" if "2 * length ts < n" for ts using Suc.IH that by blast
  have mem: "walk_members n ks ts \<noteq> Inl out_of_fuel" if "2 * length ts < n" for ts ks using Suc.IH that by blast
  have els: "walk_elements n ts \<noteq> Inl out_of_fuel" if "2 * length ts + 1 < n" for ts using Suc.IH that by blast
  have len: "length ts < length ts'" if "walk_value n ts' = Inr ts" for ts ts' using walk_length that by blast
  have "walk_members (Suc n) keys toks \<noteq> Inl out_of_fuel" if n: "2 * length toks < Suc n"
  proof
    assume "walk_members (Suc n) keys toks = Inl out_of_fuel"
    then obtain key ts where "next_token toks = Inr (StrTok key, ts)"
      "walk_value n ts = Inl out_of_fuel \<or>
       (\<exists>rest. walk_value n ts = Inr rest \<and> walk_members n (keys @ [key]) rest = Inl out_of_fuel)"
      by (auto simp: bindr_eq_Inl wrap_err_eq_Inl out_of_fuel_def split: if_splits option.splits)
    with val [of ts] mem len n next_token_length show False by fastforce
  qed
  moreover have "walk_value (Suc n) toks \<noteq> Inl out_of_fuel" if n: "2 * length toks < Suc n"
  proof
    assume "walk_value (Suc n) toks = Inl out_of_fuel"
    then obtain t ts where "next_token toks = Inr (t, ts)"
      "walk_members n [] ts = Inl out_of_fuel \<or> walk_elements n ts = Inl out_of_fuel"
      by (auto simp: bindr_eq_Inl wrap_err_eq_Inl out_of_fuel_def split: if_splits)
    with mem [of ts] els [of ts] n next_token_length show False by fastforce
  qed
  moreover have "walk_elements (Suc n) toks \<noteq> Inl out_of_fuel" if n: "2 * length toks + 1 < Suc n"
  proof
    assume "walk_elements (Suc n) toks = Inl out_of_fuel"
    then have "walk_value n toks = Inl out_of_fuel \<or>
       (\<exists>rest. walk_value n toks = Inr rest \<and> walk_elements n rest = Inl out_of_fuel)"
      by (auto simp: bindr_eq_Inl split: if_splits)
    with val [of toks] els len n show False by fastforce
  qed
  ultimately show ?case by blast
qed simp

section \<open>Values\<close>

datatype json = JAtom | JStr string | JArr "json list" | JObj "(string \<times> json) list"

fun tokens :: "json \<Rightarrow> token list" where
  "tokens JAtom = [AtomTok]"
| "tokens (JStr s) = [StrTok s]"
| "tokens (JArr xs) = Delim CHR ''['' # concat (map tokens xs) @ [Delim CHR '']'']"
| "tokens (JObj ms) = Delim CHR ''{'' # concat (map (\<lambda>(k, v). StrTok k # tokens v) ms) @ [Delim CHR ''}'']"

text \<open>No object of the value names two keys that encoding/json would take for one field.\<close>

fun unique_keys :: "json \<Rightarrow> bool" where
  "unique_keys JAtom = True"
| "unique_keys (JStr s) = True"
| "unique_keys (JArr xs) = list_all unique_keys xs"
| "unique_keys (JObj ms) = (distinct (map (\<lambda>(k, v). fold_key k) ms) \<and> list_all (\<lambda>(k, v). unique_keys v) ms)"

definition dup_key :: err where
  "dup_key = Errorf ''duplicate key''"

lemma dup_key_fold [simp]: "Errorf ''duplicate key'' = dup_key"
  by (simp add: dup_key_def)

lemma more_tokens [simp]: "more (tokens j @ r)"
  by (cases j) (simp_all add: more_def)

lemma tokens_nonempty: "0 < length (tokens j)"
  by (cases j) simp_all

lemma seen_iff: "list_ex (\<lambda>seen. equal_fold seen key) keys \<longleftrightarrow> fold_key key \<in> fold_key ` set keys"
  unfolding list_ex_iff equal_fold_def image_iff by metis

text \<open>The walk over the tokens of a value, with what follows them.\<close>

definition value_walked :: "json \<Rightarrow> bool" where
  "value_walked j \<longleftrightarrow> (\<forall>n r. 2 * length (tokens j) < n \<longrightarrow>
     walk_value n (tokens j @ r) = (if unique_keys j then Inr r else Inl dup_key))"

lemma value_walkedD:
  "value_walked j \<Longrightarrow> 2 * length (tokens j) < n \<Longrightarrow>
     walk_value n (tokens j @ r) = (if unique_keys j then Inr r else Inl dup_key)"
  by (simp add: value_walked_def)

lemma elements_walked:
  assumes "\<forall>x\<in>set xs. value_walked x" and "2 * length (concat (map tokens xs)) + 1 < n"
  shows "walk_elements n (concat (map tokens xs) @ Delim CHR '']'' # r) =
    (if list_all unique_keys xs then Inr (Delim CHR '']'' # r) else Inl dup_key)"
  using assms
proof (induction xs arbitrary: n)
  case Nil
  then obtain m where "n = Suc m" by (cases n) auto
  then show ?case by (simp add: more_def)
next
  case (Cons x xs)
  then obtain m where n: "n = Suc m" by (cases n) auto
  let ?rest = "concat (map tokens xs) @ Delim CHR '']'' # r"
  have "walk_value m (tokens x @ ?rest) = (if unique_keys x then Inr ?rest else Inl dup_key)"
    using Cons.prems n tokens_nonempty [of x] by (intro value_walkedD) auto
  moreover have "2 * length (concat (map tokens xs)) + 1 < m"
    using Cons.prems n tokens_nonempty [of x] by (simp del: length_greater_0_conv)
  with Cons have "walk_elements m ?rest =
      (if list_all unique_keys xs then Inr (Delim CHR '']'' # r) else Inl dup_key)" by simp
  ultimately show ?case using n by simp
qed

definition member_tokens :: "string \<times> json \<Rightarrow> token list" where
  "member_tokens m = StrTok (fst m) # tokens (snd m)"

lemma members_walked:
  assumes "\<forall>m\<in>set ms. value_walked (snd m)" and "2 * length (concat (map member_tokens ms)) < n"
    and "distinct (map fold_key keys)"
  shows "walk_members n keys (concat (map member_tokens ms) @ Delim CHR ''}'' # r) =
    (if distinct (map fold_key (keys @ map fst ms)) \<and> list_all (\<lambda>m. unique_keys (snd m)) ms
     then Inr (keys @ map fst ms, r) else Inl dup_key)"
  using assms
proof (induction ms arbitrary: n keys)
  case Nil
  then obtain m where "n = Suc m" by (cases n) auto
  with Nil show ?case by (simp add: more_def next_token_def)
next
  case (Cons p ms)
  then obtain m where n: "n = Suc m" by (cases n) auto
  obtain k v where p: "p = (k, v)" by (cases p)
  let ?rest = "concat (map member_tokens ms) @ Delim CHR ''}'' # r"
  have front: "more (member_tokens p @ ?rest)"
      "next_token (member_tokens p @ ?rest) = Inr (StrTok k, tokens v @ ?rest)"
    by (simp_all add: p member_tokens_def more_def next_token_def)
  have val: "walk_value m (tokens v @ ?rest) = (if unique_keys v then Inr ?rest else Inl dup_key)"
    using Cons.prems n p by (intro value_walkedD) (auto simp: member_tokens_def)
  show ?case
  proof (cases "fold_key k \<in> fold_key ` set keys")
    case True
    with front n p show ?thesis by (simp add: seen_iff)
  next
    case False
    have "walk_members m (keys @ [k]) ?rest =
        (if distinct (map fold_key ((keys @ [k]) @ map fst ms)) \<and> list_all (\<lambda>m. unique_keys (snd m)) ms
         then Inr ((keys @ [k]) @ map fst ms, r) else Inl dup_key)"
      using Cons.prems n p False by (intro Cons.IH) (auto simp: member_tokens_def)
    with False front val n p show ?thesis by (simp add: seen_iff)
  qed
qed

lemma tokens_members: "tokens (JObj ms) = Delim CHR ''{'' # concat (map member_tokens ms) @ [Delim CHR ''}'']"
  by (simp add: member_tokens_def [abs_def] case_prod_beta')

lemma unique_keys_members:
  "unique_keys (JObj ms) \<longleftrightarrow> distinct (map fold_key (map fst ms)) \<and> list_all (\<lambda>m. unique_keys (snd m)) ms"
  by (simp add: case_prod_beta' o_def)

lemma every_value_walked: "value_walked j"
proof (induction j)
  case (JArr xs)
  show ?case unfolding value_walked_def
  proof (intro allI impI)
    fix n r assume n: "2 * length (tokens (JArr xs)) < n"
    then obtain m where m: "n = Suc m" by (cases n) auto
    have "walk_elements m (concat (map tokens xs) @ Delim CHR '']'' # r) =
        (if list_all unique_keys xs then Inr (Delim CHR '']'' # r) else Inl dup_key)"
      using JArr n m by (intro elements_walked) auto
    with m show "walk_value n (tokens (JArr xs) @ r) = (if unique_keys (JArr xs) then Inr r else Inl dup_key)"
      by (simp add: next_token_def)
  qed
next
  case (JObj ms)
  then have vals: "\<forall>m\<in>set ms. value_walked (snd m)" by (metis prod.collapse snds.intros)
  show ?case unfolding value_walked_def
  proof (intro allI impI)
    fix n r assume n: "2 * length (tokens (JObj ms)) < n"
    then obtain m where m: "n = Suc m" by (cases n) auto
    have "walk_members m [] (concat (map member_tokens ms) @ Delim CHR ''}'' # r) =
        (if distinct (map fold_key ([] @ map fst ms)) \<and> list_all (\<lambda>m. unique_keys (snd m)) ms
         then Inr ([] @ map fst ms, r) else Inl dup_key)"
      using vals n m unfolding tokens_members by (intro members_walked) auto
    with m show "walk_value n (tokens (JObj ms) @ r) = (if unique_keys (JObj ms) then Inr r else Inl dup_key)"
      unfolding tokens_members unique_keys_members by (simp add: next_token_def)
  qed
next
  case JAtom
  show ?case unfolding value_walked_def
    by (intro allI impI, case_tac n) (simp_all add: next_token_def)
next
  case (JStr s)
  show ?case unfolding value_walked_def
    by (intro allI impI, case_tac n) (simp_all add: next_token_def)
qed

section \<open>Properties\<close>

text \<open>
  C34: the duplicate-key check is exact. On the token stream of any JSON object, whatever follows it,
  \<open>RejectDuplicateKeys\<close> returns the top-level keys as written if no object anywhere in it, nested or
  inside arrays, names two keys that are equal up to Unicode simple case folding, and an error otherwise.
\<close>

theorem RejectDuplicateKeys_exact:
  "RejectDuplicateKeys (tokens (JObj ms) @ rest) =
     (if unique_keys (JObj ms) then Inr (map fst ms) else Inl dup_key)"
proof -
  have vals: "\<forall>m\<in>set ms. value_walked (snd m)" by (simp add: every_value_walked)
  let ?toks = "concat (map member_tokens ms) @ Delim CHR ''}'' # rest"
  have "walk_members (2 * length ?toks + 2) [] ?toks =
      (if distinct (map fold_key ([] @ map fst ms)) \<and> list_all (\<lambda>m. unique_keys (snd m)) ms
       then Inr ([] @ map fst ms, rest) else Inl dup_key)"
    using vals by (intro members_walked) auto
  then show ?thesis
    unfolding RejectDuplicateKeys_def walkObject_def tokens_members unique_keys_members
    by (simp add: next_token_def del: walk_members.simps)
qed

text \<open>
  C36: the walk terminates on every token stream. The fuel given, twice the number of tokens and two,
  is never used up, so no result comes from the bound instead of the code; and a document that is
  not an object yields neither keys nor an error.
\<close>

theorem RejectDuplicateKeys_terminates:
  "RejectDuplicateKeys toks \<noteq> Inl out_of_fuel \<and>
   (RejectDuplicateKeys toks = Inr [] \<or> (\<exists>ts. toks = Delim CHR ''{'' # ts))"
proof -
  have "walkObject ts \<noteq> Inl out_of_fuel" for ts
    using walk_fuel [of ts "2 * length ts + 2"] by (simp add: walkObject_def)
  then have "RejectDuplicateKeys toks \<noteq> Inl out_of_fuel"
    by (auto simp: RejectDuplicateKeys_def bindr_eq_Inl split: sum.splits)
  moreover have "next_token toks = Inr (Delim CHR ''{'', ts) \<Longrightarrow> toks = Delim CHR ''{'' # ts" for ts
    by (auto simp: next_token_def split: list.splits token.splits)
  then have "RejectDuplicateKeys toks = Inr [] \<or> (\<exists>ts. toks = Delim CHR ''{'' # ts)"
    by (auto simp: RejectDuplicateKeys_def split: sum.splits)
  ultimately show ?thesis ..
qed

end
