(* ===== verification/Identity.thy ===== *)
theory Identity
  imports Remote
begin

text \<open>
  Pinned image identities: \<open>runtimemeasure/identity.go\<close>, \<open>runtimemeasure/result.go\<close> and the pins
  derived from an identity in \<open>refvalues/manifest.go\<close>.

  The Go interface \<open>ImageIdentity\<close> is the locale \<open>image_identity\<close>, with the contract its four
  methods share; the TDX tuple and the SNP digest set interpret it. The client is the conversion to
  image pins: inside the locale, the pins of an identity accept exactly what \<open>Verify\<close> accepts.
\<close>

section \<open>The two shapes\<close>

record launch_variant =
  Label :: string
  Digest :: bytes

record tdx_pins =
  PinMRTD :: bytes
  PinRTMR1 :: bytes
  PinRTMR2 :: bytes

record snp_pins =
  BySMP :: pins
  Observed :: bool

definition checkFamily :: "string \<Rightarrow> family \<Rightarrow> err + unit" where
  "checkFamily p want =
     (if Family p \<noteq> want then Inl (Wrap (Sentinel ErrWrongFamily) (Errorf ''verification result''))
      else Inr ())"

definition tdx_LaunchDigests :: "tdx_pins \<Rightarrow> launch_variant list" where
  "tdx_LaunchDigests p = [\<lparr>Label = [], Digest = PinMRTD p\<rparr>]"

definition tdx_RTMRs :: "tdx_pins \<Rightarrow> pins" where
  "tdx_RTMRs p = [(1, PinRTMR1 p), (2, PinRTMR2 p)]"

definition tdx_Verify :: "tdx_pins \<Rightarrow> verification_result option \<Rightarrow> err + unit" where
  "tdx_Verify p r =
     bindr (Check r) (\<lambda>_.
     case r of
       None \<Rightarrow> Inl Panic
     | Some v \<Rightarrow>
         bindr (checkFamily (ResPlatform v) FamilyTDX) (\<lambda>_.
         if trim_space (LaunchDigest (Claims v)) = [] then Inl (Errorf ''no launch digest'')
         else
           bindr (wrap_err (Errorf ''MRTD'') (LaunchMeasurement (Claims v))) (\<lambda>launch.
           if launch \<noteq> PinMRTD p then Inl (Errorf ''MRTD mismatch'')
           else wrap_err (Errorf ''image pin mismatch'')
             (CheckRTMRs (Claims v) [(1, PinRTMR1 p), (2, PinRTMR2 p)]))))"

definition snp_LaunchDigests :: "snp_pins \<Rightarrow> launch_variant list" where
  "snp_LaunchDigests p =
     map (\<lambda>smp. \<lparr>Label = (if Observed p then [] else ''smp'' @ show_int smp),
                 Digest = (case map_of (BySMP p) smp of Some d \<Rightarrow> d | None \<Rightarrow> [])\<rparr>)
       (sorted_keys (BySMP p))"

definition snp_has :: "snp_pins \<Rightarrow> bytes \<Rightarrow> bool" where
  "snp_has p d \<longleftrightarrow> list_ex (\<lambda>smp. map_of (BySMP p) smp = Some d) (sorted_keys (BySMP p))"

definition snp_Verify :: "snp_pins \<Rightarrow> verification_result option \<Rightarrow> err + unit" where
  "snp_Verify p r =
     bindr (Check r) (\<lambda>_.
     case r of
       None \<Rightarrow> Inl Panic
     | Some v \<Rightarrow>
         bindr (checkFamily (ResPlatform v) FamilySNP) (\<lambda>_.
         if trim_space (LaunchDigest (Claims v)) = [] then Inl (Errorf ''no launch digest'')
         else
           bindr (LaunchMeasurement (Claims v)) (\<lambda>raw.
           if \<not> snp_has p (take Size (raw @ replicate Size 0)) then Inl (Errorf ''launch digest mismatch'')
           else Inr ())))"

datatype image_identity_value = TdxImagePins tdx_pins | SnpImagePins snp_pins

text \<open>The call \<open>identity.Verify(r)\<close> through the interface.\<close>

fun identity_Verify :: "image_identity_value \<Rightarrow> verification_result option \<Rightarrow> err + unit" where
  "identity_Verify (TdxImagePins p) r = tdx_Verify p r"
| "identity_Verify (SnpImagePins p) r = snp_Verify p r"

definition IdentityFromResult :: "verification_result option \<Rightarrow> err + image_identity_value" where
  "IdentityFromResult r =
     bindr (Check r) (\<lambda>_.
     case r of
       None \<Rightarrow> Inl Panic
     | Some v \<Rightarrow>
         let f = Family (ResPlatform v) in
         if f \<noteq> FamilyTDX \<and> f \<noteq> FamilySNP then Inl (Sentinel ErrUnknownPlatform)
         else
           bindr (LaunchMeasurement (Claims v)) (\<lambda>launch.
           bindr (to_array Size launch) (\<lambda>digest.
           if f = FamilySNP then Inr (SnpImagePins \<lparr>BySMP = [(0, digest)], Observed = True\<rparr>)
           else
             bindr (RTMR (Claims v) 1) (\<lambda>rtmr1.
             bindr (RTMR (Claims v) 2) (\<lambda>rtmr2.
             bindr (to_array Size rtmr1) (\<lambda>a1.
             bindr (to_array Size rtmr2) (\<lambda>a2.
             Inr (TdxImagePins \<lparr>PinMRTD = digest, PinRTMR1 = a1, PinRTMR2 = a2\<rparr>))))))))"

text \<open>\<open>FromImageManifest\<close> after the manifest is loaded: one pin per launch variant.\<close>

definition identity_images :: "string \<Rightarrow> launch_variant list \<Rightarrow> pins \<Rightarrow> image_pin list" where
  "identity_images name variants registers =
     map (\<lambda>v. \<lparr>ImgName = (if Label v \<noteq> [] then name @ ''-'' @ Label v else name),
               ImgDigest = Digest v, ImgRegisters = registers, ImgAnchor = None, ImgLaunchFile = None,
               ImgLaunchFileDigest = None, ImgAccept = None\<rparr>) variants"

section \<open>The interface\<close>

text \<open>
  What a client may rely on of an identity: which results it verifies, and that only a platform
  with registers has any pinned.
\<close>

locale image_identity =
  fixes Verify :: "'p \<Rightarrow> verification_result option \<Rightarrow> err + unit"
    and FamilyOf :: "'p \<Rightarrow> family"
    and LaunchDigests :: "'p \<Rightarrow> launch_variant list"
    and RTMRs :: "'p \<Rightarrow> pins"
    and identity_ok :: "'p \<Rightarrow> bool"
  assumes Verify_iff:
      "identity_ok p \<Longrightarrow> Verify p r = Inr () \<longleftrightarrow>
         (\<exists>v. r = Some v \<and> SignatureValid v \<and> Family (ResPlatform v) = FamilyOf p \<and>
            (\<exists>d\<in>set (LaunchDigests p). LaunchMeasurement (Claims v) = Inr (Digest d)) \<and>
            pins_hold (Claims v) (RTMRs p))"
    and RTMRs_only_TDX: "identity_ok p \<Longrightarrow> RTMRs p \<noteq> [] \<Longrightarrow> FamilyOf p = FamilyTDX"
    and LaunchDigests_some: "identity_ok p \<Longrightarrow> LaunchDigests p \<noteq> []"
begin

lemma identity_images_pins:
  "list_all (pin_ok f) (identity_images name (LaunchDigests p) (RTMRs p))"
  by (auto simp: list_all_iff identity_images_def pin_ok_def)

lemma images_accept_what_verifies:
  assumes ok: "identity_ok p" and fam: "Family (ResPlatform (RespResult resp)) = FamilyOf p"
    and sig: "SignatureValid (RespResult resp)"
  shows "EnforceImagesWithRuntimeLog resp (identity_images name (LaunchDigests p) (RTMRs p))
      (ResPlatform (RespResult resp)) claimed = Inr () \<longleftrightarrow> Verify p (Some (RespResult resp)) = Inr ()"
proof -
  let ?imgs = "identity_images name (LaunchDigests p) (RTMRs p)" and ?v = "RespResult resp"
  have "?imgs \<noteq> []" using LaunchDigests_some [OF ok] by (simp add: identity_images_def)
  moreover have "platform_agrees resp (ResPlatform ?v)" by (simp add: platform_agrees_def)
  moreover have "(\<exists>img\<in>set ?imgs. image_matches resp (ResPlatform ?v) claimed img) \<longleftrightarrow>
      (\<exists>d\<in>set (LaunchDigests p). LaunchMeasurement (Claims ?v) = Inr (Digest d)) \<and>
      pins_hold (Claims ?v) (RTMRs p)"
    using RTMRs_only_TDX [OF ok] fam
    by (auto simp: identity_images_def image_matches_def launch_pins_hold_def HasRegisters_def)
  ultimately show ?thesis
    using fam sig by (simp add: EnforceImagesWithRuntimeLog_Inr identity_images_pins Verify_iff [OF ok])
qed

lemma Verify_determines_digest:
  assumes "identity_ok p" and "Verify p (Some v) = Inr ()"
  shows "\<exists>d\<in>set (LaunchDigests p). LaunchMeasurement (Claims v) = Inr (Digest d) \<and>
    Family (ResPlatform v) = FamilyOf p"
  using assms by (auto simp: Verify_iff)

end

section \<open>The two interpretations\<close>

lemma checkFamily_Inr [simp]: "checkFamily p f = Inr u \<longleftrightarrow> Family p = f"
  by (auto simp: checkFamily_def)

lemma snp_has_iff: "snp_has p d \<longleftrightarrow> (\<exists>smp. map_of (BySMP p) smp = Some d)"
  using map_of_sorted_keys [of _ "BySMP p"] by (auto simp: snp_has_def list_ex_iff simp del: set_sorted_keys)

lemma map_of_some_key: "map_of m k = Some b \<Longrightarrow> k \<in> set (sorted_keys m)" for k :: int
  using map_of_sorted_keys [of k m] by simp

lemma snp_digest_in: "map_of (BySMP p) smp = Some b \<Longrightarrow> \<exists>d\<in>set (snp_LaunchDigests p). Digest d = b"
  unfolding snp_LaunchDigests_def set_map bex_simps
  by (rule bexI [OF _ map_of_some_key]) simp_all

lemma snp_digest_out: "d \<in> set (snp_LaunchDigests p) \<Longrightarrow> \<exists>smp. map_of (BySMP p) smp = Some (Digest d)"
  using map_of_sorted_keys [of _ "BySMP p"] by (force simp: snp_LaunchDigests_def simp del: set_sorted_keys)

lemma snp_LaunchDigests_iff:
  "(\<exists>d\<in>set (snp_LaunchDigests p). x = Inr (Digest d)) \<longleftrightarrow> (\<exists>smp b. map_of (BySMP p) smp = Some b \<and> x = Inr b)"
  using snp_digest_in snp_digest_out by blast

definition snp_pins_ok :: "snp_pins \<Rightarrow> bool" where
  "snp_pins_ok p \<longleftrightarrow> BySMP p \<noteq> []"

lemma tdx_Verify_Inr:
  "tdx_Verify p r = Inr () \<longleftrightarrow>
     (\<exists>v. r = Some v \<and> SignatureValid v \<and> Family (ResPlatform v) = FamilyTDX \<and>
        LaunchMeasurement (Claims v) = Inr (PinMRTD p) \<and> pins_hold (Claims v) (tdx_RTMRs p))"
  using LaunchMeasurement_nonblank by (auto simp: tdx_Verify_def tdx_RTMRs_def)

lemma snp_Verify_Inr:
  "snp_Verify p r = Inr () \<longleftrightarrow>
     (\<exists>v. r = Some v \<and> SignatureValid v \<and> Family (ResPlatform v) = FamilySNP \<and>
        (\<exists>smp b. map_of (BySMP p) smp = Some b \<and> LaunchMeasurement (Claims v) = Inr b))"
proof (cases r)
  case (Some v)
  show ?thesis
  proof (cases "LaunchMeasurement (Claims v)")
    case (Inl e)
    then show ?thesis by (simp add: Some snp_Verify_def)
  next
    case (Inr raw)
    then have "length raw = Size" and "trim_space (LaunchDigest (Claims v)) \<noteq> []"
      by (rule LaunchMeasurement_length, rule LaunchMeasurement_nonblank)
    then show ?thesis using Inr by (simp add: Some snp_Verify_def snp_has_iff)
  qed
qed (simp add: snp_Verify_def)

interpretation tdx_identity: image_identity tdx_Verify "\<lambda>_. FamilyTDX" tdx_LaunchDigests tdx_RTMRs "\<lambda>_. True"
  by unfold_locales (auto simp: tdx_Verify_Inr tdx_LaunchDigests_def tdx_RTMRs_def)

interpretation snp_identity: image_identity snp_Verify "\<lambda>_. FamilySNP" snp_LaunchDigests "\<lambda>_. []" snp_pins_ok
proof
  show "snp_Verify p r = Inr () \<longleftrightarrow>
      (\<exists>v. r = Some v \<and> SignatureValid v \<and> Family (ResPlatform v) = FamilySNP \<and>
         (\<exists>d\<in>set (snp_LaunchDigests p). LaunchMeasurement (Claims v) = Inr (Digest d)) \<and> pins_hold (Claims v) [])"
    if "snp_pins_ok p" for p r
    by (simp add: snp_Verify_Inr snp_LaunchDigests_iff)
  show "snp_LaunchDigests p \<noteq> []" if "snp_pins_ok p" for p
  proof -
    obtain smp b q where "BySMP p = (smp, b) # q"
      using \<open>snp_pins_ok p\<close> by (cases "BySMP p") (auto simp: snp_pins_ok_def)
    then have "map_of (BySMP p) smp = Some b" by simp
    from snp_digest_in [OF this] show ?thesis by auto
  qed
qed simp

lemmas tdx_images_accept = tdx_identity.images_accept_what_verifies [simplified]
lemmas snp_images_accept = snp_identity.images_accept_what_verifies

lemma to_array_Inr: "to_array n b = Inr a \<longleftrightarrow> n \<le> length b \<and> a = take n b"
  by (auto simp: to_array_def)

lemma RTMR_length: "RTMR c i = Inr b \<Longrightarrow> length b = 48"
  by (simp add: RTMR_Inr)

lemma IdentityFromResult_SNP:
  assumes "SignatureValid v" and "Family (ResPlatform v) = FamilySNP"
  shows "IdentityFromResult (Some v) = Inr ident \<longleftrightarrow>
    (\<exists>m. LaunchMeasurement (Claims v) = Inr m \<and> ident = SnpImagePins \<lparr>BySMP = [(0, m)], Observed = True\<rparr>)"
proof (cases "LaunchMeasurement (Claims v)")
  case (Inr m)
  then have "length m = Size" by (rule LaunchMeasurement_length)
  then show ?thesis using assms Inr by (auto simp: IdentityFromResult_def Check_def)
qed (use assms in \<open>simp add: IdentityFromResult_def Check_def\<close>)

lemma IdentityFromResult_TDX:
  assumes "SignatureValid v" and "Family (ResPlatform v) = FamilyTDX"
  shows "IdentityFromResult (Some v) = Inr ident \<longleftrightarrow>
    (\<exists>m r1 r2. LaunchMeasurement (Claims v) = Inr m \<and> RTMR (Claims v) 1 = Inr r1 \<and>
       RTMR (Claims v) 2 = Inr r2 \<and>
       ident = TdxImagePins \<lparr>PinMRTD = m, PinRTMR1 = r1, PinRTMR2 = r2\<rparr>)"
proof (cases "LaunchMeasurement (Claims v)")
  case (Inr m)
  then have "length m = Size" by (rule LaunchMeasurement_length)
  then show ?thesis using assms Inr RTMR_length [of "Claims v" 1] RTMR_length [of "Claims v" 2]
    by (cases "RTMR (Claims v) 1"; cases "RTMR (Claims v) 2")
      (auto simp: IdentityFromResult_def Check_def)
qed (use assms in \<open>simp add: IdentityFromResult_def Check_def\<close>)

lemma IdentityFromResult_signed: "IdentityFromResult (Some v) = Inr ident \<Longrightarrow> SignatureValid v"
  by (cases "SignatureValid v") (simp_all add: IdentityFromResult_def Check_def)

lemma IdentityFromResult_unknown:
  "SignatureValid v \<Longrightarrow> Family (ResPlatform v) = FamilyUnknown \<Longrightarrow>
     IdentityFromResult (Some v) = Inl (Sentinel ErrUnknownPlatform)"
  by (simp add: IdentityFromResult_def Check_def)

lemma IdentityFromResult_family:
  assumes "IdentityFromResult (Some v) = Inr ident"
  shows "Family (ResPlatform v) = FamilySNP \<or> Family (ResPlatform v) = FamilyTDX"
proof (cases "Family (ResPlatform v)")
  case FamilyUnknown
  with IdentityFromResult_unknown IdentityFromResult_signed [OF assms] assms show ?thesis by simp
qed blast+

lemma pins_hold_two: "pins_hold c [(1, a), (2, b)] \<longleftrightarrow> RTMR c 1 = Inr a \<and> RTMR c 2 = Inr b"
  unfolding pins_hold_def by (simp add: all_conj_distrib split: if_splits)

section \<open>Properties\<close>

text \<open>
  Pinning a TDX image with the pins derived from its identity (one pin, its MRTD with RTMR[1] and
  RTMR[2]) and checking a verified TDX result against them accepts exactly the results the identity
  itself verifies, whatever boot-log identity the response claims.
\<close>

lemma tdx_identity_pins:
  assumes "Family (ResPlatform (RespResult resp)) = FamilyTDX" and "SignatureValid (RespResult resp)"
  shows "EnforceImagesWithRuntimeLog resp (identity_images name (tdx_LaunchDigests p) (tdx_RTMRs p))
      (ResPlatform (RespResult resp)) claimed = Inr () \<longleftrightarrow> tdx_Verify p (Some (RespResult resp)) = Inr ()"
  using assms by (rule tdx_images_accept)

text \<open>
  The same for a SEV-SNP image: the pins derived per vCPU variant accept exactly the verified
  results whose launch measurement is one of the digests the build ships.
\<close>

lemma snp_identity_pins:
  assumes "snp_pins_ok p"
    and "Family (ResPlatform (RespResult resp)) = FamilySNP" and "SignatureValid (RespResult resp)"
  shows "EnforceImagesWithRuntimeLog resp (identity_images name (snp_LaunchDigests p) [])
      (ResPlatform (RespResult resp)) claimed = Inr () \<longleftrightarrow> snp_Verify p (Some (RespResult resp)) = Inr ()"
  using assms by (rule snp_images_accept)

text \<open>
  An identity observed from a verified result accepts exactly the verified results of the same
  family that carry the same launch measurement and, on TDX, the same RTMR[1] and RTMR[2]; in
  particular it accepts the result it came from.
\<close>

lemma IdentityFromResult_pins:
  assumes observed: "IdentityFromResult (Some v) = Inr ident"
  shows "identity_Verify ident (Some w) = Inr () \<longleftrightarrow>
     SignatureValid w \<and> Family (ResPlatform w) = Family (ResPlatform v) \<and>
     LaunchMeasurement (Claims w) = LaunchMeasurement (Claims v) \<and>
     (Family (ResPlatform v) = FamilyTDX \<longrightarrow>
        RTMR (Claims w) 1 = RTMR (Claims v) 1 \<and> RTMR (Claims w) 2 = RTMR (Claims v) 2)"
proof -
  note valid = IdentityFromResult_signed [OF observed]
  from IdentityFromResult_family [OF observed] show ?thesis
  proof
    assume fam: "Family (ResPlatform v) = FamilySNP"
    then obtain m where "LaunchMeasurement (Claims v) = Inr m"
        "ident = SnpImagePins \<lparr>BySMP = [(0, m)], Observed = True\<rparr>"
      using observed valid by (auto simp: IdentityFromResult_SNP)
    then show ?thesis using fam by (simp add: snp_Verify_Inr)
  next
    assume fam: "Family (ResPlatform v) = FamilyTDX"
    then obtain m r1 r2 where "LaunchMeasurement (Claims v) = Inr m" "RTMR (Claims v) 1 = Inr r1"
        "RTMR (Claims v) 2 = Inr r2" "ident = TdxImagePins \<lparr>PinMRTD = m, PinRTMR1 = r1, PinRTMR2 = r2\<rparr>"
      using observed valid by (auto simp: IdentityFromResult_TDX)
    then show ?thesis using fam by (simp add: tdx_Verify_Inr tdx_RTMRs_def pins_hold_two)
  qed
qed

definition sample_result :: "string \<Rightarrow> verification_result" where
  "sample_result p = zero_result\<lparr>SignatureValid := True, ResPlatform := p,
     Claims := zero_claims\<lparr>LaunchDigest := hex_encode (replicate 48 7),
       PlatformData := [(''rtmr_1'', AStr (hex_encode (replicate 48 1))),
                        (''rtmr_2'', AStr (hex_encode (replicate 48 2)))]\<rparr>\<rparr>"

lemma sample_result_sel [simp]:
  "SignatureValid (sample_result p)" "ResPlatform (sample_result p) = p"
  "LaunchMeasurement (Claims (sample_result p)) = Inr (replicate 48 7)"
  "RTMR (Claims (sample_result p)) 1 = Inr (replicate 48 1)"
  "RTMR (Claims (sample_result p)) 2 = Inr (replicate 48 2)"
  by (simp_all add: sample_result_def RTMR_Inr show_int_def show_nat.simps)

lemma tdx_identity_pins_example:
  "EnforceImagesWithRuntimeLog \<lparr>RespResult = sample_result PlatformTDX, RespToken = None\<rparr>
     (identity_images ''node'' (tdx_LaunchDigests \<lparr>PinMRTD = replicate 48 7, PinRTMR1 = replicate 48 1,
        PinRTMR2 = replicate 48 2\<rparr>) (tdx_RTMRs \<lparr>PinMRTD = replicate 48 7, PinRTMR1 = replicate 48 1,
        PinRTMR2 = replicate 48 2\<rparr>)) PlatformTDX [] = Inr ()"
  using tdx_identity_pins
    [of "\<lparr>RespResult = sample_result PlatformTDX, RespToken = None\<rparr>" "''node''"
      "\<lparr>PinMRTD = replicate 48 7, PinRTMR1 = replicate 48 1, PinRTMR2 = replicate 48 2\<rparr>" "[]"]
  by (simp add: tdx_Verify_Inr tdx_RTMRs_def pins_hold_two)

lemma snp_identity_pins_example:
  "EnforceImagesWithRuntimeLog \<lparr>RespResult = sample_result PlatformAzSNP, RespToken = None\<rparr>
     (identity_images ''node'' (snp_LaunchDigests \<lparr>BySMP = [(4, replicate 48 7), (2, replicate 48 9)],
        Observed = False\<rparr>) []) PlatformAzSNP [] = Inr ()"
  using snp_identity_pins
    [of "\<lparr>BySMP = [(4, replicate 48 7), (2, replicate 48 9)], Observed = False\<rparr>"
      "\<lparr>RespResult = sample_result PlatformAzSNP, RespToken = None\<rparr>" "''node''" "[]"]
  by (simp add: snp_Verify_Inr snp_pins_ok_def exI [of _ 4])

lemma IdentityFromResult_pins_example:
  "identity_Verify (TdxImagePins \<lparr>PinMRTD = replicate 48 7, PinRTMR1 = replicate 48 1,
     PinRTMR2 = replicate 48 2\<rparr>) (Some (sample_result PlatformGcpTDX)) = Inr ()"
  using IdentityFromResult_pins [of "sample_result PlatformTDX"
      "TdxImagePins \<lparr>PinMRTD = replicate 48 7, PinRTMR1 = replicate 48 1, PinRTMR2 = replicate 48 2\<rparr>"
      "sample_result PlatformGcpTDX"]
  by (simp add: IdentityFromResult_TDX)

end
