(* ===== verification/RefFlags.thy ===== *)
theory RefFlags
  imports Remote
begin

text \<open>
  Reference values: the set type and its conversions of \<open>refvalues/refvalues.go\<close> and the flag
  syntax of \<open>refvalues/flags.go\<close>.

  The family of a set is one of the three family constants. The lemmas compare the flat policy with
  the image policy through \<open>EnforcePinsWithRuntimeLog\<close>, so a conversion that drops a pin shows.
\<close>

section \<open>The set\<close>

abbreviation (input) DigestSize :: nat where "DigestSize \<equiv> Size"

record reference_values =
  RvFamily :: family
  RvImages :: "image_pin list"

definition rv_Empty :: "reference_values \<Rightarrow> bool" where
  "rv_Empty rv \<longleftrightarrow> length (RvImages rv) = 0"

definition HasAnchors :: "reference_values \<Rightarrow> bool" where
  "HasAnchors rv \<longleftrightarrow> list_ex (\<lambda>img. ImgAnchor img \<noteq> None) (RvImages rv)"

definition HasLaunchBindings :: "reference_values \<Rightarrow> bool" where
  "HasLaunchBindings rv \<longleftrightarrow>
     list_ex (\<lambda>img. ImgAnchor img \<noteq> None \<or> ImgLaunchFile img \<noteq> None \<or> ImgLaunchFileDigest img \<noteq> None)
       (RvImages rv)"

definition Policy :: "reference_values \<Rightarrow> policy" where
  "Policy rv = \<lparr>PolReportData = [], PolAllowDebug = False, PolMinTcb = None, PolImages = RvImages rv,
     PolMeasurements = [], PolRegisters = [], PolPCRs = [], PolInitDataHash = []\<rparr>"

definition rv_Digests :: "reference_values \<Rightarrow> bytes list" where
  "rv_Digests rv = map ImgDigest (RvImages rv)"

definition hexDigests :: "reference_values \<Rightarrow> string list" where
  "hexDigests rv = map (\<lambda>img. hex_encode (ImgDigest img)) (RvImages rv)"

text \<open>\<open>maps.EqualFunc(a, b, bytes.Equal)\<close>.\<close>

definition maps_equal :: "pins \<Rightarrow> pins \<Rightarrow> bool" where
  "maps_equal a b \<longleftrightarrow>
     length (sorted_keys a) = length (sorted_keys b) \<and> list_all (\<lambda>k. map_of b k = map_of a k) (sorted_keys a)"

definition CommonRegisters :: "reference_values \<Rightarrow> pins \<times> bool" where
  "CommonRegisters rv =
     (case RvImages rv of
        [] \<Rightarrow> ([], True)
      | img # rest \<Rightarrow>
          (if list_all (\<lambda>i. maps_equal (ImgRegisters img) (ImgRegisters i)) rest
           then (ImgRegisters img, True) else ([], False)))"

definition Flatten :: "reference_values \<Rightarrow> string list \<times> pins \<times> bool" where
  "Flatten rv =
     (case CommonRegisters rv of (common, uniform) \<Rightarrow>
        (hexDigests rv, common, uniform \<and> \<not> HasLaunchBindings rv))"

fun flag_images :: "pins \<Rightarrow> bytes list \<Rightarrow> bytes list \<Rightarrow> image_pin list \<Rightarrow> image_pin list" where
  "flag_images rtmrs [] seen images = images"
| "flag_images rtmrs (d # ds) seen images =
     (if d \<in> set seen then flag_images rtmrs ds seen images
      else flag_images rtmrs ds (d # seen)
        (images @ [\<lparr>ImgName = ''image-'' @ show_nat (length images + 1), ImgDigest = d,
           ImgRegisters = rtmrs, ImgAnchor = None, ImgLaunchFile = None, ImgLaunchFileDigest = None,
           ImgAccept = None\<rparr>]))"

definition FromFlags :: "bytes list \<Rightarrow> pins \<Rightarrow> reference_values" where
  "FromFlags digests rtmrs = \<lparr>RvFamily = FamilyUnknown, RvImages = flag_images rtmrs digests [] []\<rparr>"

section \<open>Flags\<close>

fun hex_measurements :: "string list \<Rightarrow> bytes list \<Rightarrow> err + bytes list" where
  "hex_measurements [] out = Inr out"
| "hex_measurements (raw # rest) out =
     (let p = trim_space raw in
      if p = [] then hex_measurements rest out
      else bindr (wrap_err (Errorf ''invalid hex measurement'') (ParseDigest p (int DigestSize))) (\<lambda>d.
        hex_measurements rest (out @ [d])))"

definition ParseHexMeasurementsList :: "string list \<Rightarrow> err + bytes list" where
  "ParseHexMeasurementsList raw = hex_measurements raw []"

definition ParseHexMeasurements :: "string \<Rightarrow> err + bytes list" where
  "ParseHexMeasurements raw = ParseHexMeasurementsList (split_on CHR '','' raw)"

text \<open>\<open>strconv.Atoi\<close> on a 64-bit platform: an optional sign and decimal digits in range.\<close>

definition atoi :: "string \<Rightarrow> int option" where
  "atoi s =
     (let digits = (if s \<noteq> [] \<and> (hd s = CHR ''+'' \<or> hd s = CHR ''-'') then tl s else s);
          v = int (value_of_digits digits);
          i = (if s \<noteq> [] \<and> hd s = CHR ''-'' then - v else v)
      in if digits = [] \<or> \<not> list_all (\<lambda>c. c \<in> set ''0123456789'') digits then None
         else if i < - (2 ^ 63) \<or> 2 ^ 63 - 1 < i then None else Some i)"

fun register_pins :: "string list \<Rightarrow> pins \<Rightarrow> err + pins" where
  "register_pins [] out = Inr out"
| "register_pins (raw # rest) out =
     (let p = trim_space raw in
      if p = [] then register_pins rest out
      else case cut_first CHR ''='' p of
          None \<Rightarrow> Inl (Errorf ''want <index>=<sha384-hex>'')
        | Some (idxStr, hexStr) \<Rightarrow>
            (case atoi (trim_space idxStr) of
               None \<Rightarrow> Inl (Errorf ''index is not a number'')
             | Some idx \<Rightarrow>
                 if idx = 0 then Inl (Errorf ''RTMR[0] is not pinnable'')
                 else if idx \<noteq> 1 \<and> idx \<noteq> 2 \<and> idx \<noteq> 3 then Inl (Errorf ''index must be 1, 2 or 3'')
                 else if map_of out idx \<noteq> None then Inl (Errorf ''pinned more than once'')
                 else bindr (wrap_err (Errorf ''rtmr pin'') (ParseDigest (trim_space hexStr) (int DigestSize)))
                   (\<lambda>v. register_pins rest ((idx, v) # out))))"

definition ParseRegisterPins :: "string list \<Rightarrow> err + pins" where
  "ParseRegisterPins raw = register_pins raw []"

definition ParseRegisterPinsString :: "string \<Rightarrow> err + pins" where
  "ParseRegisterPinsString raw =
     (if trim_space raw = [] then Inr [] else ParseRegisterPins (split_on CHR '','' raw))"

definition register_flag :: "int \<Rightarrow> bytes \<Rightarrow> string" where
  "register_flag idx v = show_int idx @ CHR ''='' # hex_encode v"

definition FormatRegisterPins :: "pins \<Rightarrow> string list" where
  "FormatRegisterPins rtmrs =
     map (\<lambda>idx. register_flag idx (case map_of rtmrs idx of Some v \<Rightarrow> v | None \<Rightarrow> []))
       (sorted_keys rtmrs)"

section \<open>Maps and pins\<close>

lemma map_of_rev_distinct: "distinct (map fst kvs) \<Longrightarrow> map_of (rev kvs) = map_of kvs"
proof -
  assume d: "distinct (map fst kvs)"
  then have "distinct (map fst (rev kvs))" by (simp add: rev_map [symmetric])
  from map_of_inject_set [OF this d] show "map_of (rev kvs) = map_of kvs" by simp
qed

lemma map_of_map_other: "k \<notin> set ks \<Longrightarrow> map_of (map (\<lambda>i. (i, f i)) ks) k = None"
  by (induction ks) auto

lemma map_of_map_keys: "k \<in> set ks \<Longrightarrow> map_of (map (\<lambda>i. (i, f i)) ks) k = Some (f k)"
  by (induction ks) auto

lemma sorted_keys_cong: "map_of a = map_of b \<Longrightarrow> sorted_keys a = sorted_keys b"
  unfolding sorted_keys_def set_map dom_map_of_conv_image_fst [symmetric] by simp

lemma pins_Nil_cong: "map_of a = map_of b \<Longrightarrow> a = [] \<longleftrightarrow> b = []"
  by (metis map_of.simps(1) map_of_eq_empty_iff)

lemma pins_hold_cong: "map_of a = map_of b \<Longrightarrow> pins_hold c a \<longleftrightarrow> pins_hold c b"
  by (simp add: pins_hold_def)

lemma maps_equal_iff: "maps_equal a b \<longleftrightarrow> map_of a = map_of b"
proof
  assume eq: "maps_equal a b"
  then have len: "length (sorted_keys a) = length (sorted_keys b)"
    and val: "\<And>k. k \<in> set (sorted_keys a) \<Longrightarrow> map_of b k = map_of a k"
    by (auto simp: maps_equal_def list_all_iff)
  have sub: "set (sorted_keys a) \<subseteq> set (sorted_keys b)"
    using val map_of_sorted_keys by (metis subsetI)
  have "card (set (sorted_keys a)) = card (set (sorted_keys b))"
    using len distinct_card [OF distinct_sorted_keys] by metis
  with sub have "set (sorted_keys a) = set (sorted_keys b)"
    by (metis List.finite_set card_subset_eq)
  then have keys: "k \<in> set (sorted_keys b) \<longleftrightarrow> k \<in> set (sorted_keys a)" for k by simp
  show "map_of a = map_of b"
  proof
    fix k
    show "map_of a k = map_of b k"
    proof (cases "k \<in> set (sorted_keys a)")
      case True
      then show ?thesis using val by simp
    next
      case False
      with keys have "k \<notin> set (sorted_keys b)" by blast
      with False show ?thesis unfolding map_of_sorted_keys by (metis not_None_eq)
    qed
  qed
next
  assume eq: "map_of a = map_of b"
  from eq sorted_keys_cong [OF eq] show "maps_equal a b" by (simp add: maps_equal_def list_all_iff)
qed

lemma pin_ok_unbound:
  "ImgAnchor img = None \<Longrightarrow> ImgLaunchFile img = None \<Longrightarrow> ImgLaunchFileDigest img = None \<Longrightarrow> pin_ok f img"
  by (simp add: pin_ok_def)

text \<open>An image without a launch binding matches on its digest and its registers alone.\<close>

lemma image_matches_unbound:
  assumes "ImgAnchor img = None" "ImgLaunchFile img = None" "ImgLaunchFileDigest img = None"
    and "map_of (ImgRegisters img) = map_of regs"
  shows "image_matches resp platform claimed img \<longleftrightarrow>
    LaunchMeasurement (Claims (RespResult resp)) = Inr (ImgDigest img) \<and>
    (regs = [] \<or> HasRegisters platform \<and> pins_hold (Claims (RespResult resp)) regs)"
  using assms pins_Nil_cong [OF assms(4)] pins_hold_cong [OF assms(4)]
  by (simp add: image_matches_def launch_pins_hold_def)

lemma EnforceLaunchMeasurement_listed:
  "ms \<noteq> [] \<Longrightarrow> EnforceLaunchMeasurement resp ms = Inr () \<longleftrightarrow>
     (\<exists>m\<in>set ms. LaunchMeasurement (Claims (RespResult resp)) = Inr m)"
  by (auto simp: EnforceLaunchMeasurement_Inr)

text \<open>Images that carry the same registers and no binding are the flat policy of their digests.\<close>

lemma uniform_images_flat:
  assumes "images \<noteq> []"
    and "\<And>img. img \<in> set images \<Longrightarrow> ImgAnchor img = None \<and> ImgLaunchFile img = None \<and>
      ImgLaunchFileDigest img = None \<and> map_of (ImgRegisters img) = map_of regs"
    and "set ms = ImgDigest ` set images"
  shows "EnforcePinsWithRuntimeLog q resp (pol\<lparr>PolImages := images\<rparr>) ev claimed = Inr () \<longleftrightarrow>
    EnforcePinsWithRuntimeLog q resp (pol\<lparr>PolImages := [], PolMeasurements := ms, PolRegisters := regs\<rparr>)
      ev claimed = Inr ()"
proof -
  let ?c = "Claims (RespResult resp)"
  have ms: "ms \<noteq> []" using assms(1,3) by auto
  have "(\<exists>img\<in>set images. image_matches resp (EvPlatform ev) claimed img) \<longleftrightarrow>
      (\<exists>img\<in>set images. LaunchMeasurement ?c = Inr (ImgDigest img)) \<and>
      (regs = [] \<or> HasRegisters (EvPlatform ev) \<and> pins_hold ?c regs)"
    using image_matches_unbound assms(2) by blast
  moreover have "(\<exists>img\<in>set images. LaunchMeasurement ?c = Inr (ImgDigest img)) \<longleftrightarrow>
      (\<exists>m\<in>set ms. LaunchMeasurement ?c = Inr m)"
    unfolding assms(3) by blast
  moreover have "list_all (pin_ok f) images" for f
    using assms(2) pin_ok_unbound by (simp add: list_all_iff)
  ultimately show ?thesis using assms(1) EnforceLaunchMeasurement_listed [OF ms]
    by (simp add: EnforcePinsWithRuntimeLog_Inr flat_pins_hold_def)
qed

section \<open>Flag syntax\<close>

lemma hex_digit_not_space: "c \<in> set hex_digits \<Longrightarrow> c \<notin> set space_bytes"
proof -
  have "list_all (\<lambda>c. c \<in> set plain_chars) hex_digits" by code_simp
  then show "c \<in> set hex_digits \<Longrightarrow> c \<notin> set space_bytes" by (auto simp: list_all_iff plain_not_space)
qed

lemma trim_hex [simp]: "trim_space (hex_encode b) = hex_encode b"
  by (rule trim_space_plain) (rule hex_encode_plain)

lemma ParseDigest_hex: "length v = Size \<Longrightarrow> ParseDigest (hex_encode v) 48 = Inr v"
  by simp

lemma hex_measurements_hex:
  "list_all (\<lambda>d. length d = Size) ds \<Longrightarrow> hex_measurements (map hex_encode ds) out = Inr (out @ ds)"
  by (induction ds arbitrary: out) (auto simp: Let_def)

lemma ParseHexMeasurementsList_hex:
  "list_all (\<lambda>d. length d = Size) ds \<Longrightarrow> ParseHexMeasurementsList (map hex_encode ds) = Inr ds"
  by (simp add: ParseHexMeasurementsList_def hex_measurements_hex)

text \<open>The three pinnable indices, their rendering and what \<open>Atoi\<close> makes of it.\<close>

definition pinnable :: "int \<Rightarrow> bool" where
  "pinnable i \<longleftrightarrow> i \<in> {1, 2, 3}"

lemma show_pinnable: "show_int 1 = ''1''" "show_int 2 = ''2''" "show_int 3 = ''3''"
  by (simp_all add: show_int_def show_nat.simps)

lemma atoi_pinnable: "atoi ''1'' = Some 1" "atoi ''2'' = Some 2" "atoi ''3'' = Some 3"
  by code_simp+

lemma digits_not_space: "CHR ''1'' \<notin> set space_bytes" "CHR ''2'' \<notin> set space_bytes" "CHR ''3'' \<notin> set space_bytes"
  by (rule plain_not_space, simp add: plain_chars_def)+

lemma trim_flag:
  assumes "pinnable i" and "v \<noteq> []"
  shows "trim_space (register_flag i v) = register_flag i v"
proof (rule trim_space_id, rule disjI2, rule conjI)
  have "last (hex_encode v) \<in> set hex_digits"
    using assms(2) hex_encode_digits [of v] by (metis hex_encode_Nil_iff last_in_set subsetD)
  then show "last (register_flag i v) \<notin> set space_bytes"
    using assms(2) by (simp add: register_flag_def hex_digit_not_space)
  show "hd (register_flag i v) \<notin> set space_bytes"
    using assms(1) by (auto simp: register_flag_def pinnable_def show_pinnable digits_not_space)
qed

lemma cut_flag: "pinnable i \<Longrightarrow> cut_first CHR ''='' (register_flag i v) = Some (show_int i, hex_encode v)"
  by (auto simp: cut_first_eq_Some register_flag_def pinnable_def show_pinnable)

lemma atoi_flag: "pinnable i \<Longrightarrow> atoi (trim_space (show_int i)) = Some i"
  using trim_space_plain [of "''1''"] trim_space_plain [of "''2''"] trim_space_plain [of "''3''"]
  by (auto simp: pinnable_def show_pinnable atoi_pinnable plain_chars_def)

lemma register_pins_flag:
  assumes "pinnable i" and "length v = Size" and "map_of out i = None"
  shows "register_pins (register_flag i v # rest) out = register_pins rest ((i, v) # out)"
proof -
  have "v \<noteq> []" using assms(2) by auto
  moreover have "register_flag i v \<noteq> []" by (simp add: register_flag_def)
  ultimately show ?thesis using assms
    by (auto simp: trim_flag cut_flag atoi_flag ParseDigest_hex pinnable_def)
qed

lemma register_pins_flags:
  assumes "list_all (\<lambda>(i, v). pinnable i \<and> length v = Size) kvs" and "distinct (map fst kvs)"
    and "\<And>i. i \<in> set (map fst kvs) \<Longrightarrow> map_of out i = None"
  shows "register_pins (map (\<lambda>(i, v). register_flag i v) kvs) out = Inr (rev kvs @ out)"
  using assms
proof (induction kvs arbitrary: out)
  case (Cons kv kvs)
  obtain i v where [simp]: "kv = (i, v)" by fastforce
  have "register_pins (map (\<lambda>(i, v). register_flag i v) (kv # kvs)) out =
      register_pins (map (\<lambda>(i, v). register_flag i v) kvs) ((i, v) # out)"
    using Cons.prems register_pins_flag [of i v out] by simp
  also have "\<dots> = Inr (rev kvs @ (i, v) # out)"
    using Cons.prems by (intro Cons.IH) auto
  finally show ?case by simp
qed simp

text \<open>What the parser returns: pinnable indices, each once, with 48-byte values.\<close>

definition register_pins_ok :: "pins \<Rightarrow> bool" where
  "register_pins_ok m \<longleftrightarrow> distinct (map fst m) \<and> list_all (\<lambda>(i, v). pinnable i \<and> length v = Size) m"

lemma register_pins_result:
  "register_pins raw out = Inr m \<Longrightarrow> register_pins_ok out \<Longrightarrow> register_pins_ok m"
proof (induction raw arbitrary: out)
  case (Cons r raw)
  show ?case
  proof (cases "trim_space r = []")
    case True
    then show ?thesis using Cons by simp
  next
    case False
    then obtain a b idx v where
        "cut_first CHR ''='' (trim_space r) = Some (a, b)" "atoi (trim_space a) = Some idx"
        "pinnable idx" "map_of out idx = None" "length v = Size" "register_pins raw ((idx, v) # out) = Inr m"
      using Cons.prems(1)
      by (auto simp: Let_def pinnable_def split: option.splits if_splits)
    moreover from this have "register_pins_ok ((idx, v) # out)"
      using Cons.prems(2) by (auto simp: register_pins_ok_def map_of_eq_None_iff)
    ultimately show ?thesis using Cons.IH by blast
  qed
qed simp

section \<open>Conversions\<close>

lemma CommonRegisters_uniform:
  "CommonRegisters rv = (regs, True) \<Longrightarrow> img \<in> set (RvImages rv) \<Longrightarrow> map_of (ImgRegisters img) = map_of regs"
  by (cases "RvImages rv") (auto simp: CommonRegisters_def list_all_iff maps_equal_iff split: if_splits)

lemma flag_images_fields:
  "img \<in> set (flag_images rtmrs ds seen images) \<Longrightarrow> img \<notin> set images \<Longrightarrow>
     ImgAnchor img = None \<and> ImgLaunchFile img = None \<and> ImgLaunchFileDigest img = None \<and>
     ImgRegisters img = rtmrs"
proof (induction ds arbitrary: seen images)
  case (Cons d ds)
  show ?case
  proof (cases "d \<in> set seen")
    case True
    then show ?thesis using Cons by simp
  next
    case False
    let ?new = "\<lparr>ImgName = ''image-'' @ show_nat (length images + 1), ImgDigest = d,
           ImgRegisters = rtmrs, ImgAnchor = None, ImgLaunchFile = None, ImgLaunchFileDigest = None,
           ImgAccept = None\<rparr>"
    show ?thesis
    proof (cases "img = ?new")
      case True
      then show ?thesis by simp
    next
      case False
      with \<open>d \<notin> set seen\<close> Cons.prems show ?thesis
        by (intro Cons.IH [of "d # seen" "images @ [?new]"]) simp_all
    qed
  qed
qed simp

lemma flag_images_digests:
  "set seen \<subseteq> ImgDigest ` set images \<Longrightarrow>
     ImgDigest ` set (flag_images rtmrs ds seen images) = set ds \<union> ImgDigest ` set images"
proof (induction ds arbitrary: seen images)
  case (Cons d ds)
  show ?case
  proof (cases "d \<in> set seen")
    case True
    then show ?thesis using Cons by auto
  next
    case False
    then show ?thesis using Cons.prems by (simp add: Cons.IH subset_insertI2)
  qed
qed simp

section \<open>Properties\<close>

text \<open>
  Flattening loses nothing when it says so. If \<open>Flatten\<close> reports a non-empty set of 48-byte
  digests as uniform, its hex list parses back as a flag, and the flat policy of the parsed digests
  and the common registers accepts exactly the evidence the image policy accepts.
\<close>

lemma Flatten_faithful:
  assumes "Flatten rv = (digests, rtmrs, True)" and "RvImages rv \<noteq> []"
    and "list_all (\<lambda>img. length (ImgDigest img) = DigestSize) (RvImages rv)"
  shows "\<exists>ms. ParseHexMeasurementsList digests = Inr ms \<and>
    (EnforcePinsWithRuntimeLog q resp (pol\<lparr>PolImages := RvImages rv\<rparr>) ev claimed = Inr () \<longleftrightarrow>
     EnforcePinsWithRuntimeLog q resp (pol\<lparr>PolImages := [], PolMeasurements := ms, PolRegisters := rtmrs\<rparr>)
       ev claimed = Inr ())"
proof (intro exI conjI)
  from assms(1) have "digests = map hex_encode (rv_Digests rv)" and common: "CommonRegisters rv = (rtmrs, True)"
    and bound: "\<not> HasLaunchBindings rv"
    by (auto simp: Flatten_def hexDigests_def rv_Digests_def split: prod.splits)
  then show "ParseHexMeasurementsList digests = Inr (rv_Digests rv)"
    using assms(3) ParseHexMeasurementsList_hex [of "rv_Digests rv"]
    by (simp add: rv_Digests_def list_all_iff)
  show "EnforcePinsWithRuntimeLog q resp (pol\<lparr>PolImages := RvImages rv\<rparr>) ev claimed = Inr () \<longleftrightarrow>
     EnforcePinsWithRuntimeLog q resp
       (pol\<lparr>PolImages := [], PolMeasurements := rv_Digests rv, PolRegisters := rtmrs\<rparr>) ev claimed = Inr ()"
    by (rule uniform_images_flat)
      (use assms(2) bound CommonRegisters_uniform [OF common] in
        \<open>auto simp: HasLaunchBindings_def rv_Digests_def list_ex_iff\<close>)
qed

text \<open>
  Flags become images faithfully. With at least one digest, the image policy \<open>FromFlags\<close>
  builds accepts exactly the evidence the flat policy of the same digests and registers accepts.
\<close>

lemma FromFlags_faithful:
  assumes "ms \<noteq> []"
  shows "EnforcePinsWithRuntimeLog q resp (pol\<lparr>PolImages := RvImages (FromFlags ms rtmrs)\<rparr>) ev claimed = Inr () \<longleftrightarrow>
     EnforcePinsWithRuntimeLog q resp (pol\<lparr>PolImages := [], PolMeasurements := ms, PolRegisters := rtmrs\<rparr>)
       ev claimed = Inr ()"
proof (rule uniform_images_flat)
  have digests: "ImgDigest ` set (RvImages (FromFlags ms rtmrs)) = set ms"
    by (simp add: FromFlags_def flag_images_digests)
  then show "set ms = ImgDigest ` set (RvImages (FromFlags ms rtmrs))" by simp
  from digests assms show "RvImages (FromFlags ms rtmrs) \<noteq> []" by auto
qed (auto simp: FromFlags_def dest: flag_images_fields)

text \<open>
  Register flags. Whatever list \<open>ParseRegisterPins\<close> accepts pins only RTMR[1], RTMR[2] and
  RTMR[3], each once and to 48 bytes, and formatting the pins and parsing them again gives the same
  pins.
\<close>

lemma ParseRegisterPins_round_trip:
  assumes "ParseRegisterPins raw = Inr m"
  shows "register_pins_ok m \<and>
    (\<exists>m'. ParseRegisterPins (FormatRegisterPins m) = Inr m' \<and> map_of m' = map_of m)"
proof
  show ok: "register_pins_ok m"
    using register_pins_result [of raw "[]" m] assms by (simp add: ParseRegisterPins_def register_pins_ok_def)
  let ?val = "\<lambda>i. case map_of m i of Some v \<Rightarrow> v | None \<Rightarrow> []"
  let ?kvs = "map (\<lambda>i. (i, ?val i)) (sorted_keys m)"
  have key: "\<exists>v. map_of m i = Some v \<and> pinnable i \<and> length v = Size" if "i \<in> set (sorted_keys m)" for i
    using that ok unfolding map_of_sorted_keys register_pins_ok_def list_all_iff by (force dest: map_of_SomeD)
  have dist: "distinct (map fst ?kvs)" by (simp add: o_def)
  have "ParseRegisterPins (FormatRegisterPins m) = register_pins (map (\<lambda>(i, v). register_flag i v) ?kvs) []"
    by (simp add: ParseRegisterPins_def FormatRegisterPins_def o_def)
  also have "\<dots> = Inr (rev ?kvs)"
  proof -
    have "list_all (\<lambda>(i, v). pinnable i \<and> length v = Size) ?kvs"
      using key by (force simp: list_all_iff simp del: set_sorted_keys)
    from register_pins_flags [OF this dist, of "[]"] show ?thesis by simp
  qed
  finally have parse: "ParseRegisterPins (FormatRegisterPins m) = Inr (rev ?kvs)" .
  have "map_of ?kvs = map_of m"
  proof
    fix i
    show "map_of ?kvs i = map_of m i"
    proof (cases "i \<in> set (sorted_keys m)")
      case True
      then obtain v where "map_of m i = Some v" using key by blast
      moreover have "map_of ?kvs i = Some (?val i)" using True by (simp add: map_of_map_keys)
      ultimately show ?thesis by simp
    next
      case False
      then have "map_of m i = None" unfolding map_of_sorted_keys by simp
      with map_of_map_other [OF False] show ?thesis by simp
    qed
  qed
  with parse map_of_rev_distinct [OF dist] show "\<exists>m'. ParseRegisterPins (FormatRegisterPins m) = Inr m' \<and> map_of m' = map_of m"
    by simp
qed

definition flag_set :: reference_values where
  "flag_set = FromFlags [replicate 48 7, replicate 48 9, replicate 48 7] [(1, replicate 48 1)]"

lemma Flatten_faithful_example:
  "\<forall>q resp pol ev claimed. \<exists>ms. ParseHexMeasurementsList [hex_encode (replicate 48 7), hex_encode (replicate 48 9)] = Inr ms \<and>
    (EnforcePinsWithRuntimeLog q resp (pol\<lparr>PolImages := RvImages flag_set\<rparr>) ev claimed = Inr () \<longleftrightarrow>
     EnforcePinsWithRuntimeLog q resp (pol\<lparr>PolImages := [], PolMeasurements := ms,
       PolRegisters := [(1, replicate 48 1)]\<rparr>) ev claimed = Inr ())"
proof (intro allI, rule Flatten_faithful)
  have ne: "replicate 48 (9 :: byte) \<noteq> replicate 48 7" by code_simp
  then show "Flatten flag_set = ([hex_encode (replicate 48 7), hex_encode (replicate 48 9)],
      [(1, replicate 48 1)], True)"
    by (simp add: flag_set_def FromFlags_def Flatten_def CommonRegisters_def hexDigests_def maps_equal_iff
        HasLaunchBindings_def)
  from ne show "RvImages flag_set \<noteq> []" "list_all (\<lambda>img. length (ImgDigest img) = 48) (RvImages flag_set)"
    by (simp_all add: flag_set_def FromFlags_def)
qed

lemma FromFlags_faithful_example:
  "\<forall>q resp pol ev claimed. EnforcePinsWithRuntimeLog q resp (pol\<lparr>PolImages := RvImages (FromFlags [replicate 48 7] [])\<rparr>) ev claimed = Inr () \<longleftrightarrow>
   EnforcePinsWithRuntimeLog q resp (pol\<lparr>PolImages := [], PolMeasurements := [replicate 48 7], PolRegisters := []\<rparr>)
     ev claimed = Inr ()"
  by (intro allI, rule FromFlags_faithful) simp

lemma ParseRegisterPins_round_trip_example:
  "\<exists>m'. ParseRegisterPins (FormatRegisterPins [(3, replicate 48 5), (1, replicate 48 4)]) = Inr m' \<and>
     map_of m' = map_of [(3, replicate 48 5), (1, replicate 48 4)]"
proof -
  have "ParseRegisterPins [register_flag 1 (replicate 48 4), register_flag 3 (replicate 48 5)] =
      Inr [(3, replicate 48 5), (1, replicate 48 4)]"
    by (simp add: ParseRegisterPins_def register_pins_flag pinnable_def del: register_pins.simps(2))
  from ParseRegisterPins_round_trip [OF this] show ?thesis ..
qed

end
