(* ===== verification/RefConfig.thy ===== *)
theory RefConfig
  imports RefFlags StrictJson Utf8 "HOL-Library.List_Lexorder" "HOL-Library.Char_ord"
begin

text \<open>
  The measurements config document: \<open>refvalues/config.go\<close> and \<open>refvalues/render.go\<close>.

  The document is modelled between the JSON codec and the reference values: the record \<open>wire\<close>
  mirrors the Go struct, a \<open>json.RawMessage\<close> field is absent, null, a string or something else. The
  codec of \<open>encoding/json\<close> is the parameter \<open>json_lib\<close>; what the round trip relies on of it is the
  predicate \<open>json_faithful\<close>, in which the only change is the one the library documents: bytes that
  are not UTF-8 come back as U+FFFD. PEM parsing of an approver key is the parameter \<open>pem_ok\<close>.
\<close>

section \<open>The document\<close>

abbreviation schemaVersion1 :: string where "schemaVersion1 \<equiv> ''1''"
abbreviation schemaVersion2 :: string where "schemaVersion2 \<equiv> ''2''"
abbreviation (input) maxRTMRs :: nat where "maxRTMRs \<equiv> 4"

datatype raw_json = JNull | JString string | JOther

record wire_image =
  WName :: string
  WMeasurement :: "string option"
  WMRTD :: "string option"
  WRTMR :: "string option list option"
  WApproverKey :: "raw_json option"
  WLaunchFile :: "raw_json option"
  WLaunchFileDigest :: "raw_json option"

record wire =
  WSchemaVersion :: string
  WTEE :: string
  WMeasurements :: "wire_image list"

text \<open>
  \<open>encoding/json\<close>: the token stream of a document, the strict decoding of a document into \<open>wire\<close>
  with whether the input ends there, and the indented encoding.
\<close>

record json_lib =
  JsonTokens :: "bytes \<Rightarrow> token list"
  JsonDecode :: "bytes \<Rightarrow> err + (wire \<times> bool)"
  JsonEncode :: "wire \<Rightarrow> bytes"

definition pinsLaunchFile :: "reference_values \<Rightarrow> bool" where
  "pinsLaunchFile rv \<longleftrightarrow>
     list_ex (\<lambda>img. ImgLaunchFile img \<noteq> None \<or> ImgLaunchFileDigest img \<noteq> None) (RvImages rv)"

definition checkLaunchFileSchema :: "string \<Rightarrow> reference_values \<Rightarrow> err + unit" where
  "checkLaunchFileSchema version rv =
     (if pinsLaunchFile rv \<and> version \<noteq> schemaVersion2
      then Inl (Errorf ''launch_file and launch_file_digest require schema 2'') else Inr ())"

definition schemaVersionFor :: "reference_values \<Rightarrow> string" where
  "schemaVersionFor rv = (if pinsLaunchFile rv then schemaVersion2 else schemaVersion1)"

definition isJSONNull :: "raw_json option \<Rightarrow> bool" where
  "isJSONNull raw \<longleftrightarrow> raw = Some JNull"

text \<open>\<open>json.Unmarshal(raw, &text)\<close> into a string: null leaves it empty.\<close>

definition unmarshal_text :: "raw_json \<Rightarrow> err + string" where
  "unmarshal_text raw =
     (case raw of JNull \<Rightarrow> Inr [] | JString s \<Rightarrow> Inr s | JOther \<Rightarrow> Inl (Errorf ''not a string''))"

definition launchBytes :: "raw_json \<Rightarrow> err + bytes" where
  "launchBytes raw =
     bindr (unmarshal_text raw) (\<lambda>text.
     if text = [] then Inl (Errorf ''is empty'') else Inr (bytes_of_string text))"

definition cfg_decodeRegister :: "string \<Rightarrow> err + bytes" where
  "cfg_decodeRegister s = ParseDigest s (int DigestSize)"

text \<open>The loop of \<open>decodeRTMRs\<close> from register \<open>idx\<close> on.\<close>

fun rtmr_entries :: "nat \<Rightarrow> string option list \<Rightarrow> pins \<Rightarrow> err + pins" where
  "rtmr_entries idx [] out = Inr out"
| "rtmr_entries idx (None # rest) out = rtmr_entries (Suc idx) rest out"
| "rtmr_entries idx (Some v # rest) out =
     (if idx = 0 then Inl (Errorf ''rtmr[0] must be null'')
      else if v = [] then rtmr_entries (Suc idx) rest ((int idx, replicate DigestSize 0) # out)
      else bindr (wrap_err (Errorf ''rtmr'') (cfg_decodeRegister v)) (\<lambda>d.
        rtmr_entries (Suc idx) rest ((int idx, d) # out)))"

definition decodeRTMRs :: "string option list option \<Rightarrow> err + pins" where
  "decodeRTMRs raw =
     (let entries = (case raw of None \<Rightarrow> [] | Some es \<Rightarrow> es) in
      if length entries = 0 then Inr []
      else if maxRTMRs < length entries then Inl (Errorf ''too many rtmr entries'')
      else rtmr_entries 0 entries [])"

definition pinLaunchBinding ::
    "(bytes \<Rightarrow> bool) \<Rightarrow> wire_image \<Rightarrow> image_pin \<Rightarrow> family \<Rightarrow> err + image_pin" where
  "pinLaunchBinding pem_ok we img fam =
     (let fields = [WApproverKey we, WLaunchFile we, WLaunchFileDigest we];
          bindings = length (filter (\<lambda>raw. raw \<noteq> None) fields)
      in if list_ex isJSONNull fields then Inl (Errorf ''is null'')
         else if 1 < bindings then Inl (Errorf ''want at most one launch binding'')
         else case WApproverKey we of
             Some raw \<Rightarrow>
               bindr (wrap_err (Errorf ''approver_key'') (launchBytes raw)) (\<lambda>key.
               if \<not> pem_ok key then Inl (Errorf ''approver_key'') else Inr (img\<lparr>ImgAnchor := Some key\<rparr>))
           | None \<Rightarrow>
               (case WLaunchFile we of
                  Some raw \<Rightarrow>
                    bindr (wrap_err (Errorf ''launch_file'') (launchBytes raw)) (\<lambda>content.
                    Inr (img\<lparr>ImgLaunchFile := Some content\<rparr>))
                | None \<Rightarrow>
                    (case WLaunchFileDigest we of
                       Some raw \<Rightarrow>
                         bindr (wrap_err (Errorf ''launch_file_digest'') (unmarshal_text raw)) (\<lambda>text.
                         bindr (wrap_err (Errorf ''launch_file_digest'') (ParseLaunchFileDigest fam text)) (\<lambda>digest.
                         Inr (img\<lparr>ImgLaunchFileDigest := Some digest\<rparr>)))
                     | None \<Rightarrow> Inr img)))"

definition new_image :: "string \<Rightarrow> bytes \<Rightarrow> pins \<Rightarrow> image_pin" where
  "new_image name digest registers =
     \<lparr>ImgName = name, ImgDigest = digest, ImgRegisters = registers, ImgAnchor = None,
      ImgLaunchFile = None, ImgLaunchFileDigest = None, ImgAccept = None\<rparr>"

definition wire_image_validate :: "(bytes \<Rightarrow> bool) \<Rightarrow> family \<Rightarrow> wire_image \<Rightarrow> err + image_pin" where
  "wire_image_validate pem_ok fam we =
     (if trim_space (WName we) = [] then Inl (Errorf ''name is required'')
      else
        bindr
          (case fam of
             FamilySNP \<Rightarrow>
               (if WMRTD we \<noteq> None \<or> WRTMR we \<noteq> None then Inl (Errorf ''mrtd and rtmr are tdx fields'')
                else case WMeasurement we of
                    None \<Rightarrow> Inl (Errorf ''measurement is required'')
                  | Some s \<Rightarrow>
                      bindr (wrap_err (Errorf ''measurement'') (cfg_decodeRegister s)) (\<lambda>d.
                      Inr (new_image (WName we) d [])))
           | FamilyTDX \<Rightarrow>
               (if WMeasurement we \<noteq> None then Inl (Errorf ''measurement is a sev-snp field'')
                else case WMRTD we of
                    None \<Rightarrow> Inl (Errorf ''mrtd is required'')
                  | Some s \<Rightarrow>
                      bindr (wrap_err (Errorf ''mrtd'') (cfg_decodeRegister s)) (\<lambda>d.
                      bindr (decodeRTMRs (WRTMR we)) (\<lambda>rtmrs.
                      Inr (new_image (WName we) d rtmrs))))
           | FamilyUnknown \<Rightarrow> Inl (Errorf ''no known pin shape''))
          (\<lambda>img. pinLaunchBinding pem_ok we img fam))"

text \<open>\<open>tupleKey\<close>: the digest, the registers and the launch binding, with separators.\<close>

definition key_fields :: "image_pin \<Rightarrow> string list" where
  "key_fields img =
     map (\<lambda>i. register_flag i (case map_of (ImgRegisters img) i of Some v \<Rightarrow> v | None \<Rightarrow> []))
       (sorted_keys (ImgRegisters img)) @
     (case ImgAnchor img of None \<Rightarrow> [] | Some b \<Rightarrow> [''anchor='' @ hex_encode b]) @
     (case ImgLaunchFile img of None \<Rightarrow> [] | Some b \<Rightarrow> [''launch_file='' @ hex_encode b]) @
     (case ImgLaunchFileDigest img of None \<Rightarrow> [] | Some b \<Rightarrow> [''launch_file_digest='' @ hex_encode b])"

definition tupleKey :: "image_pin \<Rightarrow> string" where
  "tupleKey img = hex_encode (ImgDigest img) @ concat (map (\<lambda>f. CHR ''|'' # f) (key_fields img))"

fun validate_images ::
    "(bytes \<Rightarrow> bool) \<Rightarrow> family \<Rightarrow> wire_image list \<Rightarrow> string list \<Rightarrow> string list \<Rightarrow> image_pin list \<Rightarrow>
     err + image_pin list" where
  "validate_images pem_ok fam [] names tuples images = Inr images"
| "validate_images pem_ok fam (we # rest) names tuples images =
     bindr (wire_image_validate pem_ok fam we) (\<lambda>img.
     if ImgName img \<in> set names then Inl (Errorf ''duplicate name'')
     else
       let key = tupleKey img in
       if key \<in> set tuples then Inl (Errorf ''pins the same tuple'')
       else validate_images pem_ok fam rest (ImgName img # names) (key # tuples) (images @ [img]))"

definition wire_validate :: "(bytes \<Rightarrow> bool) \<Rightarrow> wire \<Rightarrow> bool \<Rightarrow> err + reference_values" where
  "wire_validate pem_ok f allowEmpty =
     (if WSchemaVersion f \<noteq> schemaVersion1 \<and> WSchemaVersion f \<noteq> schemaVersion2
      then Inl (Errorf ''schema_version'')
      else
        bindr (wrap_err (Errorf ''tee'') (ParseFamily (WTEE f))) (\<lambda>fam.
        if length (WMeasurements f) = 0 \<and> \<not> allowEmpty then Inl (Errorf ''measurements is empty'')
        else
          bindr (validate_images pem_ok fam (WMeasurements f) [] [] []) (\<lambda>images.
          let rv = \<lparr>RvFamily = fam, RvImages = images\<rparr> in
          bindr (checkLaunchFileSchema (WSchemaVersion f) rv) (\<lambda>_. Inr rv))))"

definition cfg_parse :: "json_lib \<Rightarrow> (bytes \<Rightarrow> bool) \<Rightarrow> bytes \<Rightarrow> bool \<Rightarrow> err + reference_values" where
  "cfg_parse J pem_ok data allowEmpty =
     bindr (RejectDuplicateKeys (JsonTokens J data)) (\<lambda>_.
     bindr (wrap_err (Errorf ''decode'') (JsonDecode J data)) (\<lambda>(f, at_end).
     if \<not> at_end then Inl (Errorf ''trailing data after the JSON object'')
     else wire_validate pem_ok f allowEmpty))"

definition cfg_Parse :: "json_lib \<Rightarrow> (bytes \<Rightarrow> bool) \<Rightarrow> bytes \<Rightarrow> err + reference_values" where
  "cfg_Parse J pem_ok data = cfg_parse J pem_ok data False"

definition cfg_Load ::
    "json_lib \<Rightarrow> (bytes \<Rightarrow> bool) \<Rightarrow> (string \<Rightarrow> err + bytes) \<Rightarrow> string \<Rightarrow> err + reference_values" where
  "cfg_Load J pem_ok readFile path =
     bindr (wrap_err (Errorf ''read measurements config'') (readFile path)) (\<lambda>data.
     wrap_err (Errorf ''measurements config'') (cfg_Parse J pem_ok data))"

section \<open>Formatting\<close>

definition jsonString :: "bytes \<Rightarrow> err + raw_json" where
  "jsonString b =
     (if \<not> utf8_valid (string_of_bytes b) then Inl (Errorf ''invalid UTF-8'')
      else Inr (JString (string_of_bytes b)))"

definition optional :: "('a \<Rightarrow> err + 'b) \<Rightarrow> 'a option \<Rightarrow> err + 'b option" where
  "optional f x = (case x of None \<Rightarrow> Inr None | Some a \<Rightarrow> bindr (f a) (\<lambda>b. Inr (Some b)))"

definition format_registers :: "pins \<Rightarrow> err + string option list option" where
  "format_registers regs =
     (if length regs = 0 then Inr None
      else
        bindr
          (for_each
            (\<lambda>idx. if idx \<le> 0 \<or> int maxRTMRs \<le> idx then Inl (Errorf ''rtmr is not pinnable'')
                   else case map_of regs idx of
                       Some v \<Rightarrow> (if length v \<noteq> DigestSize then Inl (Errorf ''rtmr width'') else Inr ())
                     | None \<Rightarrow> Inr ())
            (sorted_keys regs)) (\<lambda>_.
        Inr (Some (map (\<lambda>i. map_option hex_encode (map_of regs (int i))) [0..<maxRTMRs]))))"

definition format_image :: "family \<Rightarrow> image_pin \<Rightarrow> err + wire_image" where
  "format_image fam img =
     bindr (wrap_err (Errorf ''approver_key'') (optional jsonString (ImgAnchor img))) (\<lambda>key.
     bindr (wrap_err (Errorf ''launch_file'') (optional jsonString (ImgLaunchFile img))) (\<lambda>content.
     bindr (wrap_err (Errorf ''launch_file_digest'')
             (optional (\<lambda>d. bindr (CheckLaunchFileDigest fam d) (\<lambda>_. Inr (JString (hex_encode d))))
               (ImgLaunchFileDigest img))) (\<lambda>digest.
     let we = \<lparr>WName = ImgName img, WMeasurement = None, WMRTD = None, WRTMR = None,
               WApproverKey = key, WLaunchFile = content, WLaunchFileDigest = digest\<rparr>;
         d = hex_encode (ImgDigest img)
     in case fam of
          FamilySNP \<Rightarrow>
            (if 0 < length (ImgRegisters img) then Inl (Errorf ''rtmr pins on an image without registers'')
             else Inr (we\<lparr>WMeasurement := Some d\<rparr>))
        | FamilyTDX \<Rightarrow>
            bindr (format_registers (ImgRegisters img)) (\<lambda>rtmr.
            Inr (we\<lparr>WMRTD := Some d, WRTMR := rtmr\<rparr>))
        | FamilyUnknown \<Rightarrow> Inl (Errorf ''tee''))))"

definition format_wire :: "(bytes \<Rightarrow> bool) \<Rightarrow> reference_values \<Rightarrow> err + wire" where
  "format_wire pem_ok rv =
     bindr (map_each (format_image (RvFamily rv)) (RvImages rv)) (\<lambda>ms.
     let f = \<lparr>WSchemaVersion = schemaVersionFor rv, WTEE = family_name (RvFamily rv), WMeasurements = ms\<rparr> in
     bindr (wire_validate pem_ok f False) (\<lambda>_. Inr f))"

definition cfg_Format :: "json_lib \<Rightarrow> (bytes \<Rightarrow> bool) \<Rightarrow> reference_values \<Rightarrow> err + bytes" where
  "cfg_Format J pem_ok rv =
     bindr (format_wire pem_ok rv) (\<lambda>f. Inr (JsonEncode J f @ [10]))"

definition Render :: "json_lib \<Rightarrow> (bytes \<Rightarrow> bool) \<Rightarrow> reference_values \<Rightarrow> err + bytes" where
  "Render J pem_ok rv =
     (if length (RvImages rv) = 0 then
        let f = \<lparr>WSchemaVersion = schemaVersion1, WTEE = family_name (RvFamily rv), WMeasurements = []\<rparr> in
        bindr (wire_validate pem_ok f True) (\<lambda>_. Inr (JsonEncode J f @ [10]))
      else cfg_Format J pem_ok rv)"

definition ParseRendered :: "json_lib \<Rightarrow> (bytes \<Rightarrow> bool) \<Rightarrow> bytes \<Rightarrow> err + reference_values" where
  "ParseRendered J pem_ok data = cfg_parse J pem_ok data True"

text \<open>\<open>Diff\<close>: the map from keys to images (a later image with the key wins), both differences in key order.\<close>

definition tuple_index :: "reference_values \<Rightarrow> (string \<times> image_pin) list" where
  "tuple_index rv = rev (map (\<lambda>img. (tupleKey img, img)) (RvImages rv))"

definition only_in :: "(string \<times> image_pin) list \<Rightarrow> (string \<times> image_pin) list \<Rightarrow> image_pin list" where
  "only_in w g = map (\<lambda>k. the (map_of w k)) (filter (\<lambda>k. map_of g k = None) (sorted_keys w))"

definition Diff :: "reference_values \<Rightarrow> reference_values \<Rightarrow> image_pin list \<times> image_pin list" where
  "Diff want got =
     (let w = tuple_index want; g = tuple_index got in (only_in w g, only_in g w))"

section \<open>Strings in a document\<close>

lemma coerce_hex [simp]: "coerce_utf8 (hex_encode b) = hex_encode b"
  by (rule coerce_valid) (rule plain_ascii, rule hex_encode_plain)

lemma coerce_tags [simp]:
  "coerce_utf8 schemaVersion1 = schemaVersion1" "coerce_utf8 schemaVersion2 = schemaVersion2"
  "coerce_utf8 (family_name f) = family_name f"
proof -
  show "coerce_utf8 schemaVersion1 = schemaVersion1" "coerce_utf8 schemaVersion2 = schemaVersion2"
    by (rule coerce_valid, rule plain_ascii, simp add: plain_chars_def)+
  show "coerce_utf8 (family_name f) = family_name f"
    by (rule coerce_valid, rule plain_ascii) (cases f, simp_all add: plain_chars_def)
qed

definition round_raw :: "raw_json \<Rightarrow> raw_json" where
  "round_raw r = (case r of JString s \<Rightarrow> JString (coerce_utf8 s) | _ \<Rightarrow> r)"

definition round_image :: "wire_image \<Rightarrow> wire_image" where
  "round_image we =
     \<lparr>WName = coerce_utf8 (WName we), WMeasurement = map_option coerce_utf8 (WMeasurement we),
      WMRTD = map_option coerce_utf8 (WMRTD we),
      WRTMR = map_option (map (map_option coerce_utf8)) (WRTMR we),
      WApproverKey = map_option round_raw (WApproverKey we),
      WLaunchFile = map_option round_raw (WLaunchFile we),
      WLaunchFileDigest = map_option round_raw (WLaunchFileDigest we)\<rparr>"

definition json_round :: "wire \<Rightarrow> wire" where
  "json_round f =
     \<lparr>WSchemaVersion = coerce_utf8 (WSchemaVersion f), WTEE = coerce_utf8 (WTEE f),
      WMeasurements = map round_image (WMeasurements f)\<rparr>"

text \<open>What the round trip relies on of \<open>encoding/json\<close>, for one document.\<close>

definition json_faithful :: "json_lib \<Rightarrow> wire \<Rightarrow> bool" where
  "json_faithful J f \<longleftrightarrow>
     (\<exists>keys. RejectDuplicateKeys (JsonTokens J (JsonEncode J f @ [10])) = Inr keys) \<and>
     JsonDecode J (JsonEncode J f @ [10]) = Inr (json_round f, True)"

lemma parse_formatted:
  "json_faithful J f \<Longrightarrow> cfg_parse J pem_ok (JsonEncode J f @ [10]) e = wire_validate pem_ok (json_round f) e"
  by (auto simp: cfg_parse_def json_faithful_def)

lemma optional_Inr [simp]:
  "optional f x = Inr y \<longleftrightarrow> (case x of None \<Rightarrow> y = None | Some a \<Rightarrow> \<exists>b. f a = Inr b \<and> y = Some b)"
  by (auto simp: optional_def split: option.splits)

lemma round_jsonString: "jsonString b = Inr r \<Longrightarrow> round_raw r = r"
  by (auto simp: jsonString_def round_raw_def coerce_valid)

lemma round_format_image:
  assumes "format_image fam img = Inr we" and "utf8_valid (ImgName img)"
  shows "round_image we = we"
proof -
  have 1: "map_option round_raw k = k" if "optional jsonString x = Inr k" for x k
    using that round_jsonString by (cases x) auto
  have 2: "map_option round_raw k = k"
    if "optional (\<lambda>d. bindr (CheckLaunchFileDigest fam d) (\<lambda>_. Inr (JString (hex_encode d)))) x = Inr k" for x k
    using that by (cases x) (auto simp: round_raw_def)
  have 3: "map_option (map (map_option coerce_utf8)) r = r" if "format_registers regs = Inr r" for regs r
  proof -
    have "map_option coerce_utf8 (map_option hex_encode x) = map_option hex_encode x" for x
      by (cases x) simp_all
    then show ?thesis using that by (auto simp: format_registers_def split: if_splits)
  qed
  show ?thesis
    using assms 1 2 3
    by (cases fam) (auto simp: format_image_def round_image_def coerce_valid Let_def)
qed

section \<open>Pins and their keys\<close>

text \<open>Two pins that differ only in how their register map is laid out.\<close>

definition same_pin :: "image_pin \<Rightarrow> image_pin \<Rightarrow> bool" where
  "same_pin a b \<longleftrightarrow>
     ImgName a = ImgName b \<and> ImgDigest a = ImgDigest b \<and> map_of (ImgRegisters a) = map_of (ImgRegisters b) \<and>
     ImgAnchor a = ImgAnchor b \<and> ImgLaunchFile a = ImgLaunchFile b \<and>
     ImgLaunchFileDigest a = ImgLaunchFileDigest b"

lemma same_pin_matches:
  assumes "same_pin a b" and "ImgAccept a = ImgAccept b"
  shows "image_matches resp platform claimed a \<longleftrightarrow> image_matches resp platform claimed b"
    and "pin_ok f a \<longleftrightarrow> pin_ok f b"
proof -
  have regs: "map_of (ImgRegisters a) = map_of (ImgRegisters b)" using assms(1) by (simp add: same_pin_def)
  show "image_matches resp platform claimed a \<longleftrightarrow> image_matches resp platform claimed b"
    using assms pins_Nil_cong [OF regs] pins_hold_cong [OF regs]
    by (simp add: same_pin_def image_matches_def launch_pins_hold_def cong: option.case_cong)
  show "pin_ok f a \<longleftrightarrow> pin_ok f b"
    using assms by (simp add: same_pin_def pin_ok_def)
qed

text \<open>What the key identifies.\<close>

definition tuple_of :: "image_pin \<Rightarrow> bytes \<times> (int \<Rightarrow> bytes option) \<times> bytes option \<times> bytes option \<times> bytes option" where
  "tuple_of img = (ImgDigest img, map_of (ImgRegisters img), ImgAnchor img, ImgLaunchFile img, ImgLaunchFileDigest img)"

text \<open>No field of a key contains the separator, so splitting at it takes a key apart.\<close>

lemma hex_no_sep: "c \<notin> set hex_digits \<Longrightarrow> c \<notin> set (hex_encode b)"
  using hex_encode_digits [of b] by blast

lemma sep_chars:
  "CHR ''|'' \<notin> set hex_digits" "CHR ''='' \<notin> set hex_digits"
  by (simp_all add: hex_digits_def)

lemma show_int_chars: "set (show_int i) \<subseteq> set ''-0123456789''"
proof -
  have "set ''0123456789'' \<subseteq> set ''-0123456789''" by auto
  then have "set (show_nat n) \<subseteq> set ''-0123456789''" for n
    using show_nat_digits [of n] by (rule order_trans [rotated])
  moreover have "CHR ''-'' \<in> set ''-0123456789''" by simp
  ultimately show ?thesis unfolding show_int_def by (cases "i < 0") (simp_all del: list.set, simp)
qed

lemma show_int_not_Nil [simp]: "show_int i \<noteq> []"
  by (simp add: show_int_def)

lemma split_fields:
  assumes "c \<notin> set d" and "\<forall>f\<in>set fs. c \<notin> set f"
  shows "split_on c (d @ concat (map (\<lambda>f. c # f) fs)) = d # fs"
  using assms by (induction fs arbitrary: d) (simp_all add: split_on_no_sep split_on_append)

definition binding_fields :: "image_pin \<Rightarrow> string list" where
  "binding_fields img =
     (case ImgAnchor img of None \<Rightarrow> [] | Some b \<Rightarrow> [''anchor='' @ hex_encode b]) @
     (case ImgLaunchFile img of None \<Rightarrow> [] | Some b \<Rightarrow> [''launch_file='' @ hex_encode b]) @
     (case ImgLaunchFileDigest img of None \<Rightarrow> [] | Some b \<Rightarrow> [''launch_file_digest='' @ hex_encode b])"

definition register_fields :: "pins \<Rightarrow> string list" where
  "register_fields regs =
     map (\<lambda>i. register_flag i (case map_of regs i of Some v \<Rightarrow> v | None \<Rightarrow> [])) (sorted_keys regs)"

lemma key_fields_split: "key_fields img = register_fields (ImgRegisters img) @ binding_fields img"
  by (simp add: key_fields_def register_fields_def binding_fields_def)

lemma register_flag_no_sep: "CHR ''|'' \<notin> set (register_flag i v)"
  using show_int_chars [of i] hex_no_sep [OF sep_chars(1), of v] by (auto simp: register_flag_def)

lemma key_field_no_sep: "f \<in> set (key_fields img) \<Longrightarrow> CHR ''|'' \<notin> set f"
proof -
  have "CHR ''|'' \<notin> set f" if "f \<in> set (binding_fields img)"
    using that hex_no_sep [OF sep_chars(1)] by (auto simp: binding_fields_def split: option.splits)
  then show "f \<in> set (key_fields img) \<Longrightarrow> CHR ''|'' \<notin> set f"
    using register_flag_no_sep by (auto simp: key_fields_split register_fields_def simp del: set_sorted_keys)
qed

lemma tupleKey_fields:
  "tupleKey a = tupleKey b \<longleftrightarrow> ImgDigest a = ImgDigest b \<and> key_fields a = key_fields b"
proof
  have split: "split_on CHR ''|'' (tupleKey img) = hex_encode (ImgDigest img) # key_fields img" for img
    unfolding tupleKey_def using key_field_no_sep hex_no_sep [OF sep_chars(1)] by (intro split_fields) blast+
  assume "tupleKey a = tupleKey b"
  then show "ImgDigest a = ImgDigest b \<and> key_fields a = key_fields b"
    using split [of a] split [of b] by simp
qed (simp add: tupleKey_def)

text \<open>A register field starts with a digit or a sign, a binding field with a letter.\<close>

definition reg_start :: "string \<Rightarrow> bool" where
  "reg_start f \<longleftrightarrow> hd f \<in> set ''-0123456789''"

lemma reg_start_flag: "reg_start (register_flag i v)"
proof -
  have "hd (show_int i) \<in> set (show_int i)" by simp
  then have "hd (show_int i) \<in> set ''-0123456789''" using show_int_chars by blast
  then show ?thesis by (simp add: reg_start_def register_flag_def del: list.set)
qed

lemma key_fields_parts:
  "filter reg_start (key_fields img) = register_fields (ImgRegisters img)"
  "filter (\<lambda>f. \<not> reg_start f) (key_fields img) = binding_fields img"
proof -
  have "\<forall>f\<in>set (register_fields regs). reg_start f" for regs
    by (auto simp: register_fields_def reg_start_flag)
  then have 1: "filter reg_start (register_fields regs) = register_fields regs"
    "filter (\<lambda>f. \<not> reg_start f) (register_fields regs) = []" for regs
    by (simp_all add: filter_id_conv filter_empty_conv)
  have "\<forall>f\<in>set (binding_fields img). \<not> reg_start f"
    by (auto simp: binding_fields_def reg_start_def split: option.splits)
  then have 2: "filter reg_start (binding_fields img) = []"
    "filter (\<lambda>f. \<not> reg_start f) (binding_fields img) = binding_fields img"
    by (simp_all add: filter_id_conv filter_empty_conv)
  from 1 2 show "filter reg_start (key_fields img) = register_fields (ImgRegisters img)"
    "filter (\<lambda>f. \<not> reg_start f) (key_fields img) = binding_fields img"
    by (simp_all add: key_fields_split)
qed

lemma register_flag_inj: "register_flag i v = register_flag j w \<longleftrightarrow> i = j \<and> v = w"
proof
  have eq: "CHR ''='' \<notin> set (show_int k)" for k using show_int_chars [of k] by auto
  have "cut_first CHR ''='' (register_flag k u) = Some (show_int k, hex_encode u)" for k u
    by (simp add: cut_first_eq_Some register_flag_def eq)
  moreover assume "register_flag i v = register_flag j w"
  ultimately have "Some (show_int i, hex_encode v) = Some (show_int j, hex_encode w)" by metis
  then show "i = j \<and> v = w" by simp
qed simp

lemma register_fields_inj: "register_fields a = register_fields b \<longleftrightarrow> map_of a = map_of b"
proof
  assume eq: "register_fields a = register_fields b"
  let ?val = "\<lambda>m i. case map_of m i of Some v \<Rightarrow> v | None \<Rightarrow> []"
  have pairs: "map (\<lambda>i. (i, ?val a i)) (sorted_keys a) = map (\<lambda>i. (i, ?val b i)) (sorted_keys b)"
  proof (rule map_injective)
    show "map (\<lambda>(i, v). register_flag i v) (map (\<lambda>i. (i, ?val a i)) (sorted_keys a)) =
        map (\<lambda>(i, v). register_flag i v) (map (\<lambda>i. (i, ?val b i)) (sorted_keys b))"
      using eq by (simp add: register_fields_def o_def)
    show "inj (\<lambda>(i, v). register_flag i v)" by (auto intro!: injI simp: register_flag_inj)
  qed
  have "map fst (map (\<lambda>i. (i, ?val a i)) (sorted_keys a)) = map fst (map (\<lambda>i. (i, ?val b i)) (sorted_keys b))"
    unfolding pairs ..
  then have keys: "sorted_keys a = sorted_keys b" by (simp add: o_def)
  have val: "?val a i = ?val b i" if "i \<in> set (sorted_keys b)" for i
    using pairs that unfolding keys map_eq_conv by blast
  have "map_of b i = map_of a i" if i: "i \<in> set (sorted_keys a)" for i
  proof -
    obtain v w where "map_of a i = Some v" "map_of b i = Some w"
      using i i [unfolded keys] unfolding map_of_sorted_keys by blast
    with val [OF i [unfolded keys]] show ?thesis by simp
  qed
  then show "map_of a = map_of b"
    unfolding maps_equal_iff [symmetric] maps_equal_def keys list_all_iff by blast
next
  assume eq: "map_of a = map_of b"
  from eq sorted_keys_cong [OF eq] show "register_fields a = register_fields b"
    by (simp add: register_fields_def)
qed

lemma binding_fields_inj:
  "binding_fields a = binding_fields b \<longleftrightarrow>
     ImgAnchor a = ImgAnchor b \<and> ImgLaunchFile a = ImgLaunchFile b \<and> ImgLaunchFileDigest a = ImgLaunchFileDigest b"
  by (cases "ImgAnchor a"; cases "ImgAnchor b"; cases "ImgLaunchFile a"; cases "ImgLaunchFile b";
      cases "ImgLaunchFileDigest a"; cases "ImgLaunchFileDigest b") (simp_all add: binding_fields_def)

lemma tupleKey_tuple: "tupleKey a = tupleKey b \<longleftrightarrow> tuple_of a = tuple_of b"
proof -
  have "key_fields a = key_fields b \<longleftrightarrow>
      register_fields (ImgRegisters a) = register_fields (ImgRegisters b) \<and> binding_fields a = binding_fields b"
    by (metis key_fields_parts key_fields_split)
  then show ?thesis
    by (auto simp: tupleKey_fields tuple_of_def register_fields_inj binding_fields_inj)
qed

section \<open>Validation\<close>

lemma cfg_decodeRegister_Inr [simp]: "cfg_decodeRegister s = Inr d \<longleftrightarrow> length d = Size \<and> s = hex_encode d"
  by (simp add: cfg_decodeRegister_def)

lemma cfg_decodeRegister_hex: "length v = Size \<Longrightarrow> cfg_decodeRegister (hex_encode v) = Inr v"
  by simp

lemma hex_nonempty: "length v = Size \<Longrightarrow> hex_encode v \<noteq> []"
  by auto

lemma upt_four: "[0..<4] = [0, 1, 2, 3]"
  by (simp add: upt_rec)

text \<open>The register array of a formatted image decodes to the registers.\<close>

lemma format_registers_decode:
  assumes "format_registers regs = Inr raw" and "decodeRTMRs raw = Inr regs'"
  shows "map_of regs' = map_of regs"
proof (cases "regs = []")
  case True
  with assms show ?thesis by (simp add: format_registers_def decodeRTMRs_def)
next
  case False
  with assms(1) have raw: "raw = Some (map (\<lambda>i. map_option hex_encode (map_of regs (int i))) [0..<4])"
    by (simp add: format_registers_def)
  have idx: "0 < i \<and> i < 4 \<and> length v = Size" if v: "map_of regs i = Some v" for i v
  proof -
    have "i \<in> set (sorted_keys regs)" using v map_of_sorted_keys by blast
    with assms(1) False v show ?thesis
      by (auto simp: format_registers_def simp del: set_sorted_keys dest!: bspec [of _ _ i])
  qed
  have zero: "map_of regs 0 = None" using idx [of 0] by (cases "map_of regs 0") auto
  have len: "length v = Size" if "map_of regs i = Some v" for i v using idx that by blast
  have out: "map_of regs i = None" if "i \<noteq> 1" "i \<noteq> 2" "i \<noteq> 3" for i
    using idx [of i] that by (cases "map_of regs i") fastforce+
  from assms(2) have dec: "rtmr_entries 0 [None, map_option hex_encode (map_of regs 1),
      map_option hex_encode (map_of regs 2), map_option hex_encode (map_of regs 3)] [] = Inr regs'"
    by (simp add: raw decodeRTMRs_def upt_four zero)
  have "map_of regs' i = map_of regs i" if "i \<in> {1, 2, 3}" for i
    using dec that len hex_nonempty
    by (cases "map_of regs 1"; cases "map_of regs 2"; cases "map_of regs 3")
      (auto simp: cfg_decodeRegister_hex)
  moreover have "map_of regs' i = None" if "i \<notin> {1, 2, 3}" for i
    using dec that len hex_nonempty
    by (cases "map_of regs 1"; cases "map_of regs 2"; cases "map_of regs 3")
      (auto simp: cfg_decodeRegister_hex)
  ultimately show ?thesis using out by (intro ext) (metis insert_iff empty_iff)
qed

lemma pinLaunchBinding_Inr:
  assumes "pinLaunchBinding pem_ok we img fam = Inr img'"
  shows "img' = img\<lparr>ImgAnchor := ImgAnchor img', ImgLaunchFile := ImgLaunchFile img',
    ImgLaunchFileDigest := ImgLaunchFileDigest img'\<rparr>"
  using assms by (auto simp: pinLaunchBinding_def Let_def split: option.splits if_splits)

lemma ParseLaunchFileDigest_hex:
  "ParseLaunchFileDigest fam (hex_encode d) = Inr d' \<Longrightarrow> d' = d"
  by (auto simp: ParseLaunchFileDigest_def ParseDigest_Inr split: prod.splits)

text \<open>What formatting writes is what validation reads.\<close>

lemma launchBytes_jsonString: "jsonString b = Inr r \<Longrightarrow> launchBytes r = Inr b' \<Longrightarrow> b' = b"
  by (auto simp: jsonString_def launchBytes_def unmarshal_text_def)

text \<open>The four shapes \<open>pinLaunchBinding\<close> accepts.\<close>

lemma pinLaunchBinding_cases:
  assumes "pinLaunchBinding pem_ok we img fam = Inr img'"
  obtains (none) "WApproverKey we = None" "WLaunchFile we = None" "WLaunchFileDigest we = None" "img' = img"
  | (anchor) r b where "WApproverKey we = Some r" "WLaunchFile we = None" "WLaunchFileDigest we = None"
      "launchBytes r = Inr b" "pem_ok b" "img' = img\<lparr>ImgAnchor := Some b\<rparr>"
  | (launch_file) r b where "WApproverKey we = None" "WLaunchFile we = Some r" "WLaunchFileDigest we = None"
      "launchBytes r = Inr b" "img' = img\<lparr>ImgLaunchFile := Some b\<rparr>"
  | (digest) r s d where "WApproverKey we = None" "WLaunchFile we = None" "WLaunchFileDigest we = Some r"
      "unmarshal_text r = Inr s" "ParseLaunchFileDigest fam s = Inr d" "img' = img\<lparr>ImgLaunchFileDigest := Some d\<rparr>"
proof (cases "WApproverKey we"; cases "WLaunchFile we"; cases "WLaunchFileDigest we")
  assume w: "WApproverKey we = None" "WLaunchFile we = None" "WLaunchFileDigest we = None"
  with assms have "img' = img" by (simp add: pinLaunchBinding_def Let_def isJSONNull_def)
  with w show ?thesis by (rule none)
next
  fix r assume w: "WApproverKey we = None" "WLaunchFile we = None" "WLaunchFileDigest we = Some r"
  from assms obtain s d where "unmarshal_text r = Inr s" "ParseLaunchFileDigest fam s = Inr d"
      "img' = img\<lparr>ImgLaunchFileDigest := Some d\<rparr>"
    by (auto simp: pinLaunchBinding_def w Let_def)
  with w show ?thesis by (rule digest)
next
  fix r assume w: "WApproverKey we = None" "WLaunchFile we = Some r" "WLaunchFileDigest we = None"
  from assms obtain b where "launchBytes r = Inr b" "img' = img\<lparr>ImgLaunchFile := Some b\<rparr>"
    by (auto simp: pinLaunchBinding_def w Let_def)
  with w show ?thesis by (rule launch_file)
next
  fix r assume w: "WApproverKey we = Some r" "WLaunchFile we = None" "WLaunchFileDigest we = None"
  from assms obtain b where "launchBytes r = Inr b" "pem_ok b" "img' = img\<lparr>ImgAnchor := Some b\<rparr>"
    by (auto simp: pinLaunchBinding_def w Let_def)
  with w show ?thesis by (rule anchor)
qed (use assms in \<open>simp_all add: pinLaunchBinding_def Let_def\<close>)

lemma optional_None: "optional f x = Inr None \<Longrightarrow> x = None"
  by (cases x) simp_all

lemma optional_Some: "optional f x = Inr (Some r) \<Longrightarrow> \<exists>a. x = Some a \<and> f a = Inr r"
  by (cases x) simp_all

lemma format_image_fields:
  assumes "format_image fam img = Inr we"
  shows "WName we = ImgName img"
    and "optional jsonString (ImgAnchor img) = Inr (WApproverKey we)"
    and "optional jsonString (ImgLaunchFile img) = Inr (WLaunchFile we)"
    and "optional (\<lambda>d. bindr (CheckLaunchFileDigest fam d) (\<lambda>_. Inr (JString (hex_encode d))))
           (ImgLaunchFileDigest img) = Inr (WLaunchFileDigest we)"
    and "fam = FamilySNP \<Longrightarrow> ImgRegisters img = [] \<and> WMeasurement we = Some (hex_encode (ImgDigest img))"
    and "fam = FamilyTDX \<Longrightarrow> format_registers (ImgRegisters img) = Inr (WRTMR we) \<and>
           WMRTD we = Some (hex_encode (ImgDigest img))"
    and "fam \<noteq> FamilyUnknown"
  using assms by (cases fam; auto simp: format_image_def Let_def simp del: optional_Inr)+

lemma format_binding:
  assumes fmt: "format_image fam img = Inr we" and pin: "pinLaunchBinding pem_ok we base fam = Inr img'"
    and base: "ImgAnchor base = None" "ImgLaunchFile base = None" "ImgLaunchFileDigest base = None"
  shows "ImgAnchor img' = ImgAnchor img \<and> ImgLaunchFile img' = ImgLaunchFile img \<and>
    ImgLaunchFileDigest img' = ImgLaunchFileDigest img"
proof -
  note f = format_image_fields(2,3,4) [OF fmt]
  from pin show ?thesis
  proof (cases rule: pinLaunchBinding_cases)
    case none
    with f base show ?thesis by (auto dest!: optional_None simp del: optional_Inr)
  next
    case (anchor r b)
    from optional_Some [OF f(1) [unfolded anchor]] obtain a where "ImgAnchor img = Some a" "jsonString a = Inr r"
      by blast
    with anchor f base launchBytes_jsonString [of a r b] show ?thesis
      by (auto dest!: optional_None simp del: optional_Inr)
  next
    case (launch_file r b)
    from optional_Some [OF f(2) [unfolded launch_file]] obtain a where "ImgLaunchFile img = Some a" "jsonString a = Inr r"
      by blast
    with launch_file f base launchBytes_jsonString [of a r b] show ?thesis
      by (auto dest!: optional_None simp del: optional_Inr)
  next
    case (digest r s d)
    from optional_Some [OF f(3) [unfolded digest]] obtain a where "ImgLaunchFileDigest img = Some a"
        "r = JString (hex_encode a)" by auto
    with digest f base ParseLaunchFileDigest_hex [of fam a d] show ?thesis
      by (auto dest!: optional_None simp: unmarshal_text_def simp del: optional_Inr)
  qed
qed

lemma pinLaunchBinding_keeps:
  assumes "pinLaunchBinding pem_ok we img fam = Inr img'"
  shows "ImgName img' = ImgName img" "ImgDigest img' = ImgDigest img" "ImgRegisters img' = ImgRegisters img"
    "ImgAccept img' = ImgAccept img"
  using assms by (cases rule: pinLaunchBinding_cases; simp)+

lemma new_image_sel [simp]:
  "ImgName (new_image n d r) = n" "ImgDigest (new_image n d r) = d" "ImgRegisters (new_image n d r) = r"
  "ImgAnchor (new_image n d r) = None" "ImgLaunchFile (new_image n d r) = None"
  "ImgLaunchFileDigest (new_image n d r) = None" "ImgAccept (new_image n d r) = None"
  by (simp_all add: new_image_def)

lemma wire_image_validate_Inr:
  assumes "wire_image_validate pem_ok fam we = Inr img"
  obtains d regs where "pinLaunchBinding pem_ok we (new_image (WName we) d regs) fam = Inr img"
    and "length d = Size"
    and "fam = FamilySNP \<and> WMeasurement we = Some (hex_encode d) \<and> regs = [] \<or>
         fam = FamilyTDX \<and> WMRTD we = Some (hex_encode d) \<and> decodeRTMRs (WRTMR we) = Inr regs"
  using assms by (cases fam) (auto simp: wire_image_validate_def split: option.splits if_splits)

lemma format_image_validate:
  assumes fmt: "format_image fam img = Inr we" and val: "wire_image_validate pem_ok fam we = Inr img'"
  shows "same_pin img img' \<and> ImgAccept img' = None"
proof -
  from val obtain d regs where pin: "pinLaunchBinding pem_ok we (new_image (WName we) d regs) fam = Inr img'"
    and shape: "fam = FamilySNP \<and> WMeasurement we = Some (hex_encode d) \<and> regs = [] \<or>
         fam = FamilyTDX \<and> WMRTD we = Some (hex_encode d) \<and> decodeRTMRs (WRTMR we) = Inr regs"
    by (rule wire_image_validate_Inr)
  note f = format_image_fields [OF fmt]
  have "d = ImgDigest img" and "map_of regs = map_of (ImgRegisters img)"
    using shape f(5,6) format_registers_decode by auto
  with format_binding [OF fmt pin] pinLaunchBinding_keeps [OF pin] f(1) show ?thesis
    by (simp add: same_pin_def)
qed

lemma validate_images_Inr:
  "validate_images pem_ok fam wes names tuples images = Inr out \<Longrightarrow>
     \<exists>new. out = images @ new \<and> list_all2 (\<lambda>we img. wire_image_validate pem_ok fam we = Inr img) wes new \<and>
       distinct (map ImgName new) \<and> set (map ImgName new) \<inter> set names = {} \<and>
       distinct (map tupleKey new) \<and> set (map tupleKey new) \<inter> set tuples = {}"
proof (induction wes arbitrary: names tuples images)
  case (Cons we wes)
  from Cons.prems obtain img where img: "wire_image_validate pem_ok fam we = Inr img"
    and fresh: "ImgName img \<notin> set names" "tupleKey img \<notin> set tuples"
    and rest: "validate_images pem_ok fam wes (ImgName img # names) (tupleKey img # tuples) (images @ [img]) = Inr out"
    by (auto simp: Let_def split: if_splits)
  from Cons.IH [OF rest] obtain new where new: "out = (images @ [img]) @ new"
      "list_all2 (\<lambda>we img. wire_image_validate pem_ok fam we = Inr img) wes new"
      "distinct (map ImgName new)" "set (map ImgName new) \<inter> set (ImgName img # names) = {}"
      "distinct (map tupleKey new)" "set (map tupleKey new) \<inter> set (tupleKey img # tuples) = {}"
    by blast
  show ?case
    by (rule exI [of _ "img # new"]) (use new img fresh in auto)
qed simp

lemma wire_validate_Inr:
  assumes "wire_validate pem_ok f e = Inr rv"
  shows "ParseFamily (WTEE f) = Inr (RvFamily rv)"
    and "list_all2 (\<lambda>we img. wire_image_validate pem_ok (RvFamily rv) we = Inr img) (WMeasurements f) (RvImages rv)"
    and "distinct (map ImgName (RvImages rv))" and "distinct (map tupleKey (RvImages rv))"
    and "RvImages rv \<noteq> [] \<or> e"
    and "pinsLaunchFile rv \<longrightarrow> WSchemaVersion f = schemaVersion2"
proof -
  from assms obtain fam images where "ParseFamily (WTEE f) = Inr fam"
      "validate_images pem_ok fam (WMeasurements f) [] [] [] = Inr images" "rv = \<lparr>RvFamily = fam, RvImages = images\<rparr>"
    and ne: "length (WMeasurements f) \<noteq> 0 \<or> e"
    and schema: "checkLaunchFileSchema (WSchemaVersion f) rv = Inr ()"
    by (auto simp: wire_validate_def Let_def split: if_splits)
  with validate_images_Inr [of pem_ok fam "WMeasurements f" "[]" "[]" "[]" images]
  show "ParseFamily (WTEE f) = Inr (RvFamily rv)"
    "list_all2 (\<lambda>we img. wire_image_validate pem_ok (RvFamily rv) we = Inr img) (WMeasurements f) (RvImages rv)"
    "distinct (map ImgName (RvImages rv))" "distinct (map tupleKey (RvImages rv))" by auto
  then have "length (WMeasurements f) = length (RvImages rv)" by (simp add: list_all2_lengthD)
  with ne show "RvImages rv \<noteq> [] \<or> e" by auto
  from schema show "pinsLaunchFile rv \<longrightarrow> WSchemaVersion f = schemaVersion2"
    by (auto simp: checkLaunchFileSchema_def split: if_splits)
qed

lemma ParseFamily_name: "ParseFamily (family_name f) = Inr g \<Longrightarrow> g = f"
  by (cases f) (auto simp: ParseFamily_def Let_def split: if_splits)

lemma format_wire_Inr:
  assumes "format_wire pem_ok rv = Inr f"
  obtains rv' where "wire_validate pem_ok f False = Inr rv'" "RvFamily rv' = RvFamily rv"
    "list_all2 (\<lambda>a b. same_pin a b \<and> ImgAccept b = None) (RvImages rv) (RvImages rv')"
    "list_all2 (\<lambda>img we. format_image (RvFamily rv) img = Inr we) (RvImages rv) (WMeasurements f)"
    "WSchemaVersion f = schemaVersionFor rv" "WTEE f = family_name (RvFamily rv)"
proof -
  from assms obtain rv' where fmt: "map_each (format_image (RvFamily rv)) (RvImages rv) = Inr (WMeasurements f)"
    and doc: "WSchemaVersion f = schemaVersionFor rv" "WTEE f = family_name (RvFamily rv)"
    and val: "wire_validate pem_ok f False = Inr rv'"
    unfolding format_wire_def Let_def bindr_eq_Inr by force
  from wire_validate_Inr(1) [OF val] doc have fam: "RvFamily rv' = RvFamily rv"
    by (auto dest: ParseFamily_name)
  from fmt have f2: "list_all2 (\<lambda>img we. format_image (RvFamily rv) img = Inr we) (RvImages rv) (WMeasurements f)"
    by (simp add: map_each_eq_Inr)
  have "list_all2 (\<lambda>a b. same_pin a b \<and> ImgAccept b = None) (RvImages rv) (RvImages rv')"
    using f2 wire_validate_Inr(2) [OF val, unfolded fam] format_image_validate
    unfolding list_all2_conv_all_nth by metis
  with that val fam f2 doc show ?thesis by blast
qed

lemma round_format_wire:
  assumes "format_wire pem_ok rv = Inr f" and "list_all (\<lambda>img. utf8_valid (ImgName img)) (RvImages rv)"
  shows "json_round f = f"
proof -
  from assms(1) obtain rv' where f2: "list_all2 (\<lambda>img we. format_image (RvFamily rv) img = Inr we) (RvImages rv) (WMeasurements f)"
    and doc: "WSchemaVersion f = schemaVersionFor rv" "WTEE f = family_name (RvFamily rv)"
    by (rule format_wire_Inr)
  have "map round_image (WMeasurements f) = WMeasurements f"
  proof (rule map_idI)
    fix we assume "we \<in> set (WMeasurements f)"
    then obtain i where i: "i < length (WMeasurements f)" "we = WMeasurements f ! i"
      by (auto simp: in_set_conv_nth)
    define img where "img = RvImages rv ! i"
    have "img \<in> set (RvImages rv)" "format_image (RvFamily rv) img = Inr we"
      using f2 i list_all2_nthD2 [OF f2 i(1)] by (simp_all add: img_def list_all2_lengthD)
    with assms(2) show "round_image we = we" by (auto simp: list_all_iff intro: round_format_image)
  qed
  with doc show ?thesis by (simp add: json_round_def schemaVersionFor_def)
qed

lemma same_pins_matches:
  assumes "list_all2 (\<lambda>a b. same_pin a b \<and> ImgAccept b = None) as bs" and "list_all (\<lambda>img. ImgAccept img = None) as"
  shows "(\<exists>b\<in>set bs. image_matches resp platform claimed b) \<longleftrightarrow> (\<exists>a\<in>set as. image_matches resp platform claimed a)"
    and "list_all (pin_ok f) bs \<longleftrightarrow> list_all (pin_ok f) as" and "bs = [] \<longleftrightarrow> as = []"
proof -
  from assms have *: "list_all2 (\<lambda>a b. same_pin a b \<and> ImgAccept a = ImgAccept b) as bs"
    by (auto simp: list_all2_conv_all_nth list_all_length)
  then show "(\<exists>b\<in>set bs. image_matches resp platform claimed b) \<longleftrightarrow> (\<exists>a\<in>set as. image_matches resp platform claimed a)"
  proof (induction rule: list_all2_induct)
    case (Cons x xs y ys)
    then show ?case using same_pin_matches(1) [of x y] by simp
  qed simp
  from * show "list_all (pin_ok f) bs \<longleftrightarrow> list_all (pin_ok f) as"
  proof (induction rule: list_all2_induct)
    case (Cons x xs y ys)
    then show ?case using same_pin_matches(2) [of x y] by simp
  qed simp
  from * show "bs = [] \<longleftrightarrow> as = []" by auto
qed

section \<open>Properties\<close>

text \<open>
  C19: a set that formats is a set that loads, and the loaded set admits the same evidence. When
  \<open>Format\<close> writes a document, the names are valid UTF-8 and the JSON codec reads back what it wrote,
  \<open>Parse\<close> accepts the document and returns the same family and the same pins in the same order; and
  if no pin sets \<open>AcceptExtension\<close>, which a document cannot carry, the loaded images accept
  exactly the evidence the formatted ones accept.
\<close>

theorem Format_Parse:
  assumes "cfg_Format J pem_ok rv = Inr data"
    and "list_all (\<lambda>img. utf8_valid (ImgName img)) (RvImages rv)"
    and "\<And>f. format_wire pem_ok rv = Inr f \<Longrightarrow> json_faithful J f"
  shows "\<exists>rv'. cfg_Parse J pem_ok data = Inr rv' \<and> RvFamily rv' = RvFamily rv \<and>
    list_all2 same_pin (RvImages rv) (RvImages rv') \<and>
    (list_all (\<lambda>img. ImgAccept img = None) (RvImages rv) \<longrightarrow>
      (\<forall>resp platform claimed.
         EnforceImagesWithRuntimeLog resp (RvImages rv') platform claimed = Inr () \<longleftrightarrow>
         EnforceImagesWithRuntimeLog resp (RvImages rv) platform claimed = Inr ()))"
proof -
  from assms(1) obtain f where f: "format_wire pem_ok rv = Inr f" and data: "data = JsonEncode J f @ [10]"
    by (auto simp: cfg_Format_def)
  from f obtain rv' where val: "wire_validate pem_ok f False = Inr rv'" and fam: "RvFamily rv' = RvFamily rv"
    and same: "list_all2 (\<lambda>a b. same_pin a b \<and> ImgAccept b = None) (RvImages rv) (RvImages rv')"
    by (rule format_wire_Inr)
  have parse: "cfg_Parse J pem_ok data = Inr rv'"
    using parse_formatted [OF assms(3) [OF f]] round_format_wire [OF f assms(2)] val
    by (simp add: cfg_Parse_def data)
  have adm: "EnforceImagesWithRuntimeLog resp (RvImages rv') platform claimed = Inr () \<longleftrightarrow>
      EnforceImagesWithRuntimeLog resp (RvImages rv) platform claimed = Inr ()"
    if acc: "list_all (\<lambda>img. ImgAccept img = None) (RvImages rv)" for resp platform claimed
    using same_pins_matches [OF same acc] by (simp add: EnforceImagesWithRuntimeLog_Inr)
  from same have "list_all2 same_pin (RvImages rv) (RvImages rv')"
    by (rule list_all2_mono) simp
  with parse fam adm show ?thesis by blast
qed

text \<open>The tuples a set pins.\<close>

definition tuples :: "reference_values \<Rightarrow> (bytes \<times> (int \<Rightarrow> bytes option) \<times> bytes option \<times> bytes option \<times> bytes option) set" where
  "tuples rv = tuple_of ` set (RvImages rv)"

lemma tuple_index_Some: "map_of (tuple_index rv) k = Some img \<Longrightarrow> img \<in> set (RvImages rv) \<and> tupleKey img = k"
  by (auto simp: tuple_index_def dest!: map_of_SomeD)

lemma tuple_index_None: "map_of (tuple_index rv) k = None \<longleftrightarrow> k \<notin> tupleKey ` set (RvImages rv)"
  by (auto simp: tuple_index_def map_of_eq_None_iff image_image)

lemma key_in_tuples: "tupleKey img \<in> tupleKey ` set (RvImages rv) \<longleftrightarrow> tuple_of img \<in> tuples rv"
  using tupleKey_tuple by (auto simp: tuples_def image_iff)

lemma only_in_members:
  "img \<in> set (only_in (tuple_index a) (tuple_index b)) \<longleftrightarrow>
     map_of (tuple_index a) (tupleKey img) = Some img \<and> tuple_of img \<notin> tuples b"
proof
  assume "img \<in> set (only_in (tuple_index a) (tuple_index b))"
  then obtain k where k: "k \<in> set (sorted_keys (tuple_index a))" "map_of (tuple_index b) k = None"
      "img = the (map_of (tuple_index a) k)"
    by (auto simp: only_in_def simp del: set_sorted_keys)
  then obtain v where v: "map_of (tuple_index a) k = Some v" unfolding map_of_sorted_keys by blast
  with k(3) tuple_index_Some [OF v] have "img = v" "tupleKey img = k" by simp_all
  with v k(2) show "map_of (tuple_index a) (tupleKey img) = Some img \<and> tuple_of img \<notin> tuples b"
    by (simp add: tuple_index_None key_in_tuples [symmetric])
next
  assume r: "map_of (tuple_index a) (tupleKey img) = Some img \<and> tuple_of img \<notin> tuples b"
  then have "tupleKey img \<in> set (sorted_keys (tuple_index a))" unfolding map_of_sorted_keys by blast
  moreover have "map_of (tuple_index b) (tupleKey img) = None"
    using r by (simp add: tuple_index_None key_in_tuples)
  ultimately show "img \<in> set (only_in (tuple_index a) (tuple_index b))"
    using r unfolding only_in_def set_map set_filter by (intro image_eqI [of _ _ "tupleKey img"]) simp_all
qed

lemma only_in_tuples: "tuple_of ` set (only_in (tuple_index a) (tuple_index b)) = tuples a - tuples b"
proof (intro subset_antisym subsetI)
  fix t assume "t \<in> tuple_of ` set (only_in (tuple_index a) (tuple_index b))"
  then show "t \<in> tuples a - tuples b"
    using tuple_index_Some by (auto simp: only_in_members tuples_def)
next
  fix t assume t: "t \<in> tuples a - tuples b"
  then obtain x where x: "x \<in> set (RvImages a)" "t = tuple_of x" by (auto simp: tuples_def)
  then obtain img where img: "map_of (tuple_index a) (tupleKey x) = Some img"
    using tuple_index_None [of a "tupleKey x"] by (cases "map_of (tuple_index a) (tupleKey x)") auto
  from tuple_index_Some [OF img] have "tupleKey img = tupleKey x" by simp
  moreover from this have "tuple_of img = t" using x tupleKey_tuple by simp
  ultimately show "t \<in> tuple_of ` set (only_in (tuple_index a) (tuple_index b))"
    using img t by (auto simp: only_in_members intro!: image_eqI [of _ _ img])
qed

lemma only_in_keys:
  "map tupleKey (only_in (tuple_index a) (tuple_index b)) =
     filter (\<lambda>k. map_of (tuple_index b) k = None) (sorted_keys (tuple_index a))"
proof -
  have "tupleKey (the (map_of (tuple_index a) k)) = k" if "k \<in> set (sorted_keys (tuple_index a))" for k
    using that tuple_index_Some unfolding map_of_sorted_keys by fastforce
  then show ?thesis unfolding only_in_def map_map
    by (intro map_idI) (simp del: set_sorted_keys)
qed

text \<open>
  \<open>Diff\<close> is the difference of what decides admission. The images it reports missing are images
  of the first set whose tuples (digest, registers as a map, launch binding) are exactly those the
  second set does not pin, and symmetrically for the extra ones; each tuple is reported once, in
  ascending key order. In particular both lists are empty precisely when the sets pin the same tuples.
\<close>

lemma Diff_exact:
  "tuple_of ` set (fst (Diff want got)) = tuples want - tuples got \<and>
   tuple_of ` set (snd (Diff want got)) = tuples got - tuples want \<and>
   set (fst (Diff want got)) \<subseteq> set (RvImages want) \<and> set (snd (Diff want got)) \<subseteq> set (RvImages got) \<and>
   sorted (map tupleKey (fst (Diff want got))) \<and> distinct (map tupleKey (fst (Diff want got))) \<and>
   sorted (map tupleKey (snd (Diff want got))) \<and> distinct (map tupleKey (snd (Diff want got)))"
proof -
  have "set (only_in (tuple_index a) (tuple_index b)) \<subseteq> set (RvImages a)" for a b
    using tuple_index_Some by (auto simp: only_in_members)
  moreover have "sorted (filter P (sorted_keys m))" "distinct (filter P (sorted_keys m))"
    for P and m :: "(string \<times> image_pin) list" by (simp_all add: sorted_wrt_filter)
  ultimately show ?thesis by (simp add: Diff_def only_in_tuples only_in_keys Let_def)
qed

section \<open>Names that are not UTF-8\<close>

text \<open>Two SEV-SNP pins whose names are one byte each, neither of them UTF-8.\<close>

definition odd_names :: reference_values where
  "odd_names = \<lparr>RvFamily = FamilySNP, RvImages =
     [new_image [CHR 0xFF] (replicate 48 1) [], new_image [CHR 0xFE] (replicate 48 2) []]\<rparr>"

definition odd_wire :: "string \<Rightarrow> string \<Rightarrow> wire" where
  "odd_wire n m = \<lparr>WSchemaVersion = schemaVersion1, WTEE = family_name FamilySNP, WMeasurements =
     map (\<lambda>(name, d). \<lparr>WName = name, WMeasurement = Some (hex_encode d), WMRTD = None, WRTMR = None,
        WApproverKey = None, WLaunchFile = None, WLaunchFileDigest = None\<rparr>)
       [(n, replicate 48 1), (m, replicate 48 2)]\<rparr>"

lemma odd_bytes:
  "[CHR 0xFF] \<noteq> [CHR 0xFE]" "trim_space [CHR 0xFF] \<noteq> []" "trim_space [CHR 0xFE] \<noteq> []"
  "trim_space replacement \<noteq> []" "coerce_utf8 [CHR 0xFF] = replacement" "coerce_utf8 [CHR 0xFE] = replacement"
  by code_simp+

lemma odd_format: "format_image FamilySNP (new_image n d []) =
    Inr \<lparr>WName = n, WMeasurement = Some (hex_encode d), WMRTD = None, WRTMR = None,
        WApproverKey = None, WLaunchFile = None, WLaunchFileDigest = None\<rparr>"
  by (simp add: format_image_def optional_def)

lemma odd_validate:
  assumes "length d = 48" and "trim_space n \<noteq> []"
  shows "wire_image_validate pem_ok FamilySNP \<lparr>WName = n, WMeasurement = Some (hex_encode d), WMRTD = None,
     WRTMR = None, WApproverKey = None, WLaunchFile = None, WLaunchFileDigest = None\<rparr> = Inr (new_image n d [])"
  using assms by (simp add: wire_image_validate_def cfg_decodeRegister_hex pinLaunchBinding_def isJSONNull_def)

lemma ParseFamily_SNP: "ParseFamily ''sev-snp'' = Inr FamilySNP"
  by (simp add: ParseFamily_def)

lemma odd_keys: "tupleKey (new_image n (replicate 48 2) []) \<noteq> tupleKey (new_image m (replicate 48 1) [])"
  by (simp add: tupleKey_tuple tuple_of_def)

lemma odd_wire_validate:
  assumes "trim_space n \<noteq> []" "trim_space m \<noteq> []"
  shows "(\<exists>rv. wire_validate pem_ok (odd_wire n m) False = Inr rv) \<longleftrightarrow> m \<noteq> n"
  using assms odd_keys
  by (simp add: wire_validate_def odd_wire_def ParseFamily_SNP odd_validate Let_def checkLaunchFileSchema_def
      pinsLaunchFile_def)

lemma odd_format_wire: "format_wire pem_ok odd_names = Inr (odd_wire [CHR 0xFF] [CHR 0xFE])"
proof -
  from odd_wire_validate [OF odd_bytes(2,3), of pem_ok] odd_bytes(1) [symmetric] obtain rv
    where "wire_validate pem_ok (odd_wire [CHR 0xFF] [CHR 0xFE]) False = Inr rv" by blast
  then show ?thesis
    by (simp add: format_wire_def odd_names_def odd_format Let_def schemaVersionFor_def pinsLaunchFile_def odd_wire_def)
qed

lemma odd_round: "json_round (odd_wire [CHR 0xFF] [CHR 0xFE]) = odd_wire replacement replacement"
  by (simp add: json_round_def odd_wire_def round_image_def odd_bytes coerce_tags(3) [of FamilySNP, simplified])

text \<open>
  C37: a set that formats but does not load. The two pins of \<open>odd_names\<close> have distinct names that are
  not UTF-8; \<open>Format\<close> checks them as they are and writes the document, the encoder turns both names
  into U+FFFD, and \<open>Parse\<close> refuses the document for a duplicate name.
\<close>

theorem Format_not_Parse:
  assumes "json_faithful J (odd_wire [CHR 0xFF] [CHR 0xFE])"
  shows "\<exists>data e. cfg_Format J pem_ok odd_names = Inr data \<and> cfg_Parse J pem_ok data = Inl e"
proof -
  let ?data = "JsonEncode J (odd_wire [CHR 0xFF] [CHR 0xFE]) @ [10]"
  have "cfg_Format J pem_ok odd_names = Inr ?data" by (simp add: cfg_Format_def odd_format_wire)
  moreover have "cfg_Parse J pem_ok ?data = wire_validate pem_ok (odd_wire replacement replacement) False"
    using parse_formatted [OF assms] by (simp add: cfg_Parse_def odd_round)
  moreover obtain e where "wire_validate pem_ok (odd_wire replacement replacement) False = Inl e"
    using odd_wire_validate [OF odd_bytes(4,4), of pem_ok]
    by (cases "wire_validate pem_ok (odd_wire replacement replacement) False") auto
  ultimately show ?thesis by auto
qed

text \<open>A codec that is faithful on one document.\<close>

definition one_doc :: "wire \<Rightarrow> json_lib" where
  "one_doc f = \<lparr>JsonTokens = (\<lambda>_. [Delim CHR ''{'', Delim CHR ''}'']),
     JsonDecode = (\<lambda>_. Inr (json_round f, True)), JsonEncode = (\<lambda>_. [])\<rparr>"

lemma one_doc_faithful: "json_faithful (one_doc f) f"
proof -
  have "\<exists>keys. RejectDuplicateKeys [Delim CHR ''{'', Delim CHR ''}''] = Inr keys"
    by (rule exI [of _ "[]"]) code_simp
  then show ?thesis by (simp add: json_faithful_def one_doc_def)
qed

theorem Format_not_Parse_witness:
  "\<exists>data e. cfg_Format (one_doc (odd_wire [CHR 0xFF] [CHR 0xFE])) (\<lambda>_. True) odd_names = Inr data \<and>
     cfg_Parse (one_doc (odd_wire [CHR 0xFF] [CHR 0xFE])) (\<lambda>_. True) data = Inl e"
  by (rule Format_not_Parse) (rule one_doc_faithful)

text \<open>Two pins with plain names.\<close>

definition plain_names :: reference_values where
  "plain_names = \<lparr>RvFamily = FamilySNP, RvImages =
     [new_image ''a'' (replicate 48 1) [], new_image ''b'' (replicate 48 2) []]\<rparr>"

lemma plain_format_wire: "format_wire pem_ok plain_names = Inr (odd_wire ''a'' ''b'')"
proof -
  have "trim_space ''a'' \<noteq> []" "trim_space ''b'' \<noteq> []" by code_simp+
  from odd_wire_validate [OF this, of pem_ok] obtain rv
    where "wire_validate pem_ok (odd_wire ''a'' ''b'') False = Inr rv" by auto
  then show ?thesis
    by (simp add: format_wire_def plain_names_def odd_format Let_def schemaVersionFor_def pinsLaunchFile_def odd_wire_def)
qed

theorem Format_Parse_witness:
  "\<exists>rv'. cfg_Parse (one_doc (odd_wire ''a'' ''b'')) (\<lambda>_. True)
        (JsonEncode (one_doc (odd_wire ''a'' ''b'')) (odd_wire ''a'' ''b'') @ [10]) = Inr rv' \<and>
     list_all2 same_pin (RvImages plain_names) (RvImages rv')"
proof -
  have names: "utf8_valid ''a''" "utf8_valid ''b''" by code_simp+
  have "cfg_Format (one_doc (odd_wire ''a'' ''b'')) (\<lambda>_. True) plain_names =
      Inr (JsonEncode (one_doc (odd_wire ''a'' ''b'')) (odd_wire ''a'' ''b'') @ [10])"
    by (simp add: cfg_Format_def plain_format_wire)
  moreover have "list_all (\<lambda>img. utf8_valid (ImgName img)) (RvImages plain_names)"
    using names by (simp add: plain_names_def)
  ultimately show ?thesis
    using Format_Parse [of "one_doc (odd_wire ''a'' ''b'')" "\<lambda>_. True" plain_names]
      plain_format_wire [of "\<lambda>_. True"] one_doc_faithful [of "odd_wire ''a'' ''b''"] by auto
qed

end
