(* ===== verification/Base64.thy ===== *)
theory Base64
  imports Tpm
begin

text \<open>
  \<open>encoding/base64\<close> as the evidence formats use it: the standard alphabet with padding and the URL
  alphabet without, encoders and decoders, and that decoding inverts encoding.
\<close>

section \<open>The standard alphabet\<close>

definition b64std_alphabet :: string where
  "b64std_alphabet = ''ABCDEFGHIJKLMNOPQRSTUVWXYZabcdefghijklmnopqrstuvwxyz0123456789+/''"

definition b64std_value :: "char \<Rightarrow> nat option" where
  "b64std_value c = map_of (zip b64std_alphabet [0..<64]) c"

text \<open>
  \<open>base64.StdEncoding.DecodeString\<close>: line breaks are skipped, the text is whole quanta of four, and
  only the last one is padded, with one or two characters.
\<close>

definition std_decode :: "string \<Rightarrow> err + bytes" where
  "std_decode s =
     (let t = filter (\<lambda>c. c \<noteq> CHR 0x0A \<and> c \<noteq> CHR 0x0D) s;
          body = strip_trailing CHR ''='' t
      in if length t mod 4 \<noteq> 0 \<or> length body + 2 < length t then Inl (Errorf ''illegal base64 data'')
         else
           bindr
             (map_each
               (\<lambda>c. case b64std_value c of None \<Rightarrow> Inl (Errorf ''illegal base64 data'') | Some v \<Rightarrow> Inr v) body)
             b64_quanta)"

section \<open>Encoding\<close>

fun b64_digits :: "bytes \<Rightarrow> nat list" where
  "b64_digits [] = []"
| "b64_digits [x] = [unat x div 4, unat x mod 4 * 16]"
| "b64_digits [x, y] = [unat x div 4, unat x mod 4 * 16 + unat y div 16, unat y mod 16 * 4]"
| "b64_digits (x # y # z # s) =
     [unat x div 4, unat x mod 4 * 16 + unat y div 16, unat y mod 16 * 4 + unat z div 64, unat z mod 64] @ b64_digits s"

definition b64url_encode :: "bytes \<Rightarrow> string" where
  "b64url_encode b = map (\<lambda>v. b64url_alphabet ! v) (b64_digits b)"

lemma unat_to_byte [simp]: "word_of_nat (unat (x::byte)) = x"
  by simp

lemma b64_byte1: "y < 16 \<Longrightarrow> word_of_nat (4 * (unat (x::byte) div 4) + (unat x mod 4 * 16 + y) div 16) = x"
proof -
  assume "y < 16"
  then have "4 * (unat x div 4) + (unat x mod 4 * 16 + y) div 16 = unat x" by simp
  then show ?thesis by simp
qed

lemma b64_byte2: "z < 4 \<Longrightarrow> word_of_nat ((m * 16 + unat (y::byte) div 16) mod 16 * 16 + (unat y mod 16 * 4 + z) div 4) = y"
proof -
  assume "z < 4"
  moreover have "unat y div 16 < 16" using unat_byte_lt [of y] by linarith
  ultimately have "(m * 16 + unat y div 16) mod 16 * 16 + (unat y mod 16 * 4 + z) div 4 = unat y" by simp
  then show ?thesis by simp
qed

lemma b64_byte3: "word_of_nat ((m * 4 + unat (z::byte) div 64) mod 4 * 64 + unat z mod 64) = z"
proof -
  have "unat z div 64 < 4" using unat_byte_lt [of z] by linarith
  then have "(m * 4 + unat z div 64) mod 4 * 64 + unat z mod 64 = unat z" by simp
  then show ?thesis by simp
qed

lemma b64_quanta_digits: "b64_quanta (b64_digits b) = Inr b"
proof (induction b rule: b64_digits.induct)
  case (2 x)
  then show ?case using b64_byte1 [of 0 x] by simp
next
  case (3 x y)
  have "unat y div 16 < 16" using unat_byte_lt [of y] by linarith
  then show ?case using b64_byte1 [of "unat y div 16" x] b64_byte2 [of 0 "unat x mod 4" y] by simp
next
  case (4 x y z s)
  have "unat y div 16 < 16" "unat z div 64 < 4" using unat_byte_lt [of y] unat_byte_lt [of z] by linarith+
  then show ?case using 4 b64_byte1 [of "unat y div 16" x] b64_byte2 [of "unat z div 64" "unat x mod 4" y]
      b64_byte3 [of "unat y mod 16" z] by simp
qed simp

lemma b64_bounds: "unat (x::byte) div 4 < 64" "unat (x::byte) mod 4 * 16 + unat (y::byte) div 16 < 64"
    "unat (y::byte) mod 16 * 4 + unat (z::byte) div 64 < 64" "unat (x::byte) mod 4 * 16 < 64" "unat (y::byte) mod 16 * 4 < 64"
proof -
  have "unat x div 4 < 64 \<and> unat y div 16 < 16 \<and> unat z div 64 < 4"
    using unat_byte_lt [of x] unat_byte_lt [of y] unat_byte_lt [of z] by linarith
  moreover have "unat x mod 4 < 4" "unat y mod 16 < 16" by simp_all
  ultimately show "unat x div 4 < 64" "unat x mod 4 * 16 + unat y div 16 < 64"
    "unat y mod 16 * 4 + unat z div 64 < 64" "unat x mod 4 * 16 < 64" "unat y mod 16 * 4 < 64" by linarith+
qed

lemma list_all2_refl_on: "(\<And>x. x \<in> set xs \<Longrightarrow> P x x) \<Longrightarrow> list_all2 P xs xs"
  by (simp add: list_all2_same)

lemma b64_digits_lt: "list_all (\<lambda>v. v < 64) (b64_digits b)"
  by (induction b rule: b64_digits.induct) (simp_all add: b64_bounds)

lemma b64_alphabet:
  assumes "v < 64"
  shows "b64_value (b64url_alphabet ! v) = Some v" "b64url_alphabet ! v \<notin> {CHR 0x0A, CHR 0x0D, CHR ''=''}"
proof -
  have "list_all (\<lambda>v. b64_value (b64url_alphabet ! v) = Some v \<and>
      b64url_alphabet ! v \<noteq> CHR 0x0A \<and> b64url_alphabet ! v \<noteq> CHR 0x0D \<and> b64url_alphabet ! v \<noteq> CHR ''='') [0..<64]"
    by code_simp
  with assms show "b64_value (b64url_alphabet ! v) = Some v" "b64url_alphabet ! v \<notin> {CHR 0x0A, CHR 0x0D, CHR ''=''}"
    by (simp_all add: list_all_iff)
qed

lemma DecodeBase64URL_encode: "DecodeBase64URL (b64url_encode b) = Inr b"
proof -
  have digits: "v < 64" if "v \<in> set (b64_digits b)" for v
    using b64_digits_lt [of b] that by (simp add: list_all_iff)
  have ok: "\<forall>c\<in>set (b64url_encode b). c \<notin> {CHR 0x0A, CHR 0x0D, CHR ''=''}"
  proof
    fix c assume "c \<in> set (b64url_encode b)"
    then obtain v where "c = b64url_alphabet ! v" "v \<in> set (b64_digits b)" unfolding b64url_encode_def set_map by blast
    then show "c \<notin> {CHR 0x0A, CHR 0x0D, CHR ''=''}" using b64_alphabet(2) [OF digits] by simp
  qed
  have "strip_trailing CHR ''='' (b64url_encode b) = b64url_encode b"
    using ok last_in_set [of "b64url_encode b"] by (intro strip_trailing_id) blast
  moreover have "filter (\<lambda>c. c \<noteq> CHR 0x0A \<and> c \<noteq> CHR 0x0D) (b64url_encode b) = b64url_encode b"
    using ok by (simp add: filter_id_conv)
  moreover have "map_each (\<lambda>c. case b64_value c of None \<Rightarrow> Inl (Errorf ''illegal base64 data'') | Some v \<Rightarrow> Inr v)
      (b64url_encode b) = Inr (b64_digits b)"
    unfolding map_each_eq_Inr b64url_encode_def list_all2_map1
    by (rule list_all2_refl_on) (simp add: b64_alphabet digits)
  ultimately show ?thesis by (simp add: DecodeBase64URL_def raw_url_decode_def b64_quanta_digits)
qed

section \<open>The standard encoding\<close>

definition std_encode :: "bytes \<Rightarrow> string" where
  "std_encode b =
     (let s = map (\<lambda>v. b64std_alphabet ! v) (b64_digits b) in s @ replicate ((4 - length s mod 4) mod 4) CHR ''='')"

lemma length_b64_digits: "length (b64_digits b) mod 4 \<noteq> 1"
  by (induction b rule: b64_digits.induct) (simp_all add: mod_Suc)

lemma b64std_alphabet_ok:
  assumes "v < 64"
  shows "b64std_value (b64std_alphabet ! v) = Some v" "b64std_alphabet ! v \<notin> {CHR 0x0A, CHR 0x0D, CHR ''=''}"
proof -
  have "list_all (\<lambda>v. b64std_value (b64std_alphabet ! v) = Some v \<and>
      b64std_alphabet ! v \<noteq> CHR 0x0A \<and> b64std_alphabet ! v \<noteq> CHR 0x0D \<and> b64std_alphabet ! v \<noteq> CHR ''='') [0..<64]"
    by code_simp
  with assms show "b64std_value (b64std_alphabet ! v) = Some v" "b64std_alphabet ! v \<notin> {CHR 0x0A, CHR 0x0D, CHR ''=''}"
    by (simp_all add: list_all_iff)
qed

lemma std_decode_encode: "std_decode (std_encode b) = Inr b"
proof -
  let ?s = "map (\<lambda>v. b64std_alphabet ! v) (b64_digits b)" and ?n = "(4 - length (b64_digits b) mod 4) mod 4"
  have digits: "v < 64" if "v \<in> set (b64_digits b)" for v
    using b64_digits_lt [of b] that by (simp add: list_all_iff)
  have ok: "\<forall>c\<in>set ?s. c \<notin> {CHR 0x0A, CHR 0x0D, CHR ''=''}"
  proof
    fix c assume "c \<in> set ?s"
    then obtain v where "c = b64std_alphabet ! v" "v \<in> set (b64_digits b)" unfolding set_map by blast
    then show "c \<notin> {CHR 0x0A, CHR 0x0D, CHR ''=''}" using b64std_alphabet_ok(2) [OF digits] by simp
  qed
  have enc: "std_encode b = ?s @ replicate ?n CHR ''=''" by (simp add: std_encode_def Let_def)
  have f: "filter (\<lambda>c. c \<noteq> CHR 0x0A \<and> c \<noteq> CHR 0x0D) (std_encode b) = std_encode b"
    using ok unfolding enc by (auto simp: filter_id_conv)
  have "strip_trailing CHR ''='' ?s = ?s"
    using ok last_in_set [of ?s] by (intro strip_trailing_id) blast
  then have body: "strip_trailing CHR ''='' (std_encode b) = ?s" unfolding enc strip_trailing_pad .
  have pad: "l mod 4 \<noteq> 1 \<Longrightarrow> (l + (4 - l mod 4) mod 4) mod 4 = 0 \<and> (4 - l mod 4) mod 4 \<le> 2" for l :: nat
  proof -
    assume "l mod 4 \<noteq> 1"
    moreover have "l mod 4 < 4" by simp
    ultimately have "l mod 4 = 0 \<or> l mod 4 = 2 \<or> l mod 4 = 3" by linarith
    then show ?thesis by (elim disjE) (simp_all add: mod_Suc)
  qed
  have len: "length (std_encode b) = length (b64_digits b) + ?n" unfolding enc by simp
  have n: "length (std_encode b) mod 4 = 0" "\<not> length ?s + 2 < length (std_encode b)"
    using pad [OF length_b64_digits [of b]] unfolding len by simp_all
  have "map_each (\<lambda>c. case b64std_value c of None \<Rightarrow> Inl (Errorf ''illegal base64 data'') | Some v \<Rightarrow> Inr v) ?s =
      Inr (b64_digits b)"
    unfolding map_each_eq_Inr list_all2_map1
    by (rule list_all2_refl_on) (simp add: b64std_alphabet_ok digits)
  with f body n show ?thesis by (simp add: std_decode_def Let_def b64_quanta_digits)
qed

end
