(* ===== verification/HwCommon.thy ===== *)
theory HwCommon
  imports Base64
begin

text \<open>
  What the hardware verifiers share: the padding of expected values to the width of a report field
  and the flags that answer an expectation.
\<close>

text \<open>\<open>out := make([]byte, n); copy(out, b)\<close>.\<close>

definition pad :: "bytes \<Rightarrow> nat \<Rightarrow> bytes" where
  "pad b n = take n b @ replicate (n - length b) 0"

lemma length_pad [simp]: "length (pad b n) = n"
  by (simp add: pad_def)

lemma pad_exact [simp]: "length b = n \<Longrightarrow> pad b n = b"
  by (simp add: pad_def)

lemma strip_pad: "length b \<le> n \<Longrightarrow> strip_trailing 0 (pad b n) = strip_trailing 0 b"
  by (simp add: pad_def strip_trailing_pad)

text \<open>Padding loses only trailing zero bytes.\<close>

lemma pad_eq: "length a \<le> n \<Longrightarrow> length b \<le> n \<Longrightarrow> pad a n = pad b n \<longleftrightarrow>
    strip_trailing 0 a = strip_trailing 0 b"
proof
  assume len: "length a \<le> n" "length b \<le> n"
  show "strip_trailing 0 a = strip_trailing 0 b" if "pad a n = pad b n"
    using arg_cong [OF that, of "strip_trailing 0"] len by (simp add: pad_def strip_trailing_pad)
  assume eq: "strip_trailing 0 a = strip_trailing 0 b"
  obtain i where i: "a = strip_trailing 0 b @ replicate i 0" using strip_trailing_split [of a 0] eq by auto
  obtain j where j: "b = strip_trailing 0 b @ replicate j 0" using strip_trailing_split [of b 0] by auto
  have "pad a n = strip_trailing 0 b @ replicate (n - length (strip_trailing 0 b)) 0"
    using len(1) arg_cong [OF i, of length] by (subst i) (simp add: pad_def replicate_add [symmetric])
  moreover have "pad b n = strip_trailing 0 b @ replicate (n - length (strip_trailing 0 b)) 0"
    using len(2) arg_cong [OF j, of length]
    by (subst j) (simp add: pad_def replicate_add [symmetric])
  ultimately show "pad a n = pad b n" by simp
qed

text \<open>The match flag of an expectation: set exactly when there is one.\<close>

definition match_flag :: "'a option \<Rightarrow> bool option" where
  "match_flag e = (case e of None \<Rightarrow> None | Some _ \<Rightarrow> Some True)"

lemma match_flag_simps [simp]: "match_flag None = None" "match_flag (Some x) = Some True"
  "match_flag e = Some True \<longleftrightarrow> e \<noteq> None"
  by (auto simp: match_flag_def split: option.splits)

end
