(* ===== verification/SnpVerify.thy ===== *)
theory SnpVerify
  imports HwCommon
begin

text \<open>
  The SEV-SNP verifier of \<open>attestation/snp/snp.go\<close>.

  The cryptography, the report parser and the policy validation are go-sev-guest's: the record
  \<open>sev_lib\<close> holds the functions the code calls there, and \<open>sev_contract\<close> what their documentation
  promises of \<open>validate.SnpAttestation\<close>. Modelled is all the code around them: how an evidence envelope
  becomes a report and a key, where a missing VCEK is fetched, which roots and options are handed
  over, and how the result and its claims are built. Contexts only bound the time of a fetch and
  are left out; a getter is a function from URLs to certificates.
\<close>

section \<open>go-sev-guest\<close>

record snp_report =
  RepVersion :: nat
  RepSignerInfo :: nat
  RepCpuid1EaxFms :: nat
  RepChipId :: bytes
  RepReportedTcb :: nat
  RepPolicy :: nat
  RepPlatformInfo :: nat
  RepVmpl :: nat
  RepCurrentBuild :: nat
  RepCurrentMinor :: nat
  RepCurrentMajor :: nat
  RepCommittedBuild :: nat
  RepCommittedMinor :: nat
  RepCommittedMajor :: nat
  RepGuestSvn :: nat
  RepSignatureAlgo :: nat
  RepMeasurement :: bytes
  RepReportData :: bytes
  RepHostData :: bytes

datatype signing_key = VcekReportSigner | VlekReportSigner | OtherReportSigner

record snp_policy =
  ABIMajor :: nat
  ABIMinor :: nat
  SMT :: bool
  MigrateMA :: bool
  Debug :: bool
  SingleSocket :: bool

record snp_platform_info =
  TSMEEnabled :: bool
  PlatSMTEnabled :: bool

record tcb_parts =
  BlSpl :: byte
  TeeSpl :: byte
  SnpSpl :: byte
  UcodeSpl :: byte

record snp_attestation =
  AttReport :: snp_report
  AttVcekCert :: bytes
  AttVlekCert :: bytes

type_synonym getter = "string \<Rightarrow> err + bytes"

record 'root snp_verify_options =
  SvCheckRevocations :: bool
  SvProduct :: "nat option"
  SvDisableCertFetching :: bool
  SvGetter :: getter
  SvTrustedRoots :: "(string \<times> 'root) list option"

record snp_validate_options =
  SvGuestPolicy :: snp_policy
  SvPermitProvisionalFirmware :: bool
  SvVMPL :: "nat option"
  SvReportData :: "bytes option"
  SvHostData :: "bytes option"
  SvMeasurement :: "bytes option"
  SvMinimumTCB :: tcb_parts

text \<open>
  \<open>ParseSnpPolicy\<close> and \<open>ParsePlatformInfo\<close> are the values \<open>extractClaims\<close> uses, whatever error
  came with them; \<open>ProductKnown\<close> is whether \<open>SevProductFromCpuid1Eax\<close> names a product;
  \<open>DefaultGetter\<close> is the getter that \<open>verify.DefaultOptions\<close> sets.
\<close>

record 'root sev_lib =
  ReportToProto :: "bytes \<Rightarrow> err + snp_report"
  ParseSignerInfo :: "nat \<Rightarrow> err + signing_key"
  ProductKnown :: "nat \<Rightarrow> bool"
  ProductLineFromFms :: "nat \<Rightarrow> string"
  FmsFromCpuid1Eax :: "nat \<Rightarrow> nat \<times> nat"
  VCEKCertURL :: "string \<Rightarrow> bytes \<Rightarrow> nat \<Rightarrow> string"
  GetDefaultRootCerts :: "string \<Rightarrow> err + 'root"
  ParseCertificate :: "bytes \<Rightarrow> err + bytes"
  VcekProductName :: "bytes \<Rightarrow> err + string"
  ProductLineOfProductName :: "string \<Rightarrow> string"
  SnpAttestationContext :: "snp_attestation \<Rightarrow> 'root snp_verify_options \<Rightarrow> err + unit"
  ValidateSnpAttestation :: "snp_attestation \<Rightarrow> snp_validate_options \<Rightarrow> err + unit"
  ParseSnpPolicy :: "nat \<Rightarrow> snp_policy"
  ParseSnpPlatformInfo :: "nat \<Rightarrow> snp_platform_info"
  DecomposeTCBVersion :: "nat \<Rightarrow> tcb_parts"
  DefaultGetter :: getter

text \<open>
  What \<open>validate.SnpAttestation\<close> documents: an expectation that is set equals the report's field, the
  VMPL is the required one, the guest policy allows debugging only where the maximum does, and no
  TCB component is below the minimum.
\<close>

definition sev_contract :: "'root sev_lib \<Rightarrow> bool" where
  "sev_contract lib \<longleftrightarrow>
     (\<forall>att vo. ValidateSnpAttestation lib att vo = Inr () \<longrightarrow>
        (\<forall>d. SvReportData vo = Some d \<longrightarrow> RepReportData (AttReport att) = d) \<and>
        (\<forall>d. SvHostData vo = Some d \<longrightarrow> RepHostData (AttReport att) = d) \<and>
        (\<forall>d. SvMeasurement vo = Some d \<longrightarrow> RepMeasurement (AttReport att) = d) \<and>
        (\<forall>l. SvVMPL vo = Some l \<longrightarrow> RepVmpl (AttReport att) = l) \<and>
        (Debug (ParseSnpPolicy lib (RepPolicy (AttReport att))) \<longrightarrow> Debug (SvGuestPolicy vo)) \<and>
        (let t = DecomposeTCBVersion lib (RepReportedTcb (AttReport att)); m = SvMinimumTCB vo in
         BlSpl m \<le> BlSpl t \<and> TeeSpl m \<le> TeeSpl t \<and> SnpSpl m \<le> SnpSpl t \<and> UcodeSpl m \<le> UcodeSpl t))"

section \<open>Evidence and options\<close>

abbreviation (input) MinReportVersion :: nat where "MinReportVersion \<equiv> 3"
abbreviation (input) MinReportVersionAzure :: nat where "MinReportVersionAzure \<equiv> 2"
abbreviation (input) MaxReportVersion :: nat where "MaxReportVersion \<equiv> 5"

record snp_cert_chain =
  Vcek :: string
  Ask :: string
  Ark :: string

record snp_evidence =
  AttestationReport :: string
  CertChain :: "snp_cert_chain option"

record snp_options =
  SnpCheckRevocations :: bool
  SnpGetter :: "getter option"

definition DefaultKDSMaxFetch :: int where "DefaultKDSMaxFetch = 120000000000"
definition DefaultKDSMaxRetryDelay :: int where "DefaultKDSMaxRetryDelay = 8000000000"

text \<open>The timeout and the retry cap, in nanoseconds, \<open>DefaultKDSGetter\<close> gives the retrying getter.\<close>

definition DefaultKDSGetter :: "int \<Rightarrow> int \<Rightarrow> int \<times> int" where
  "DefaultKDSGetter maxFetch maxRetryDelay =
     (if maxFetch \<le> 0 then DefaultKDSMaxFetch else maxFetch,
      if maxRetryDelay \<le> 0 then DefaultKDSMaxRetryDelay else maxRetryDelay)"

definition snp_validateOptions :: "verify_params \<Rightarrow> err + snp_validate_options" where
  "snp_validateOptions params =
     bindr
       (case ExpectedReportData params of
          None \<Rightarrow> Inr None
        | Some d \<Rightarrow> if 64 < length d then Inl (Errorf ''expected_report_data'') else Inr (Some (pad d 64))) (\<lambda>rd.
     bindr
       (case ExpectedInitDataHash params of
          None \<Rightarrow> Inr None
        | Some d \<Rightarrow> if 32 < length d then Inl (Errorf ''expected_init_data_hash'') else Inr (Some (pad d 32))) (\<lambda>hd.
     bindr
       (case ExpectedLaunchDigest params of
          None \<Rightarrow> Inr None
        | Some d \<Rightarrow> if length d \<noteq> 48 then Inl (Errorf ''expected_launch_digest'') else Inr (Some d)) (\<lambda>m.
     bindr
       (case MinTCB params of
          None \<Rightarrow> Inr \<lparr>BlSpl = 0, TeeSpl = 0, SnpSpl = 0, UcodeSpl = 0\<rparr>
        | Some t \<Rightarrow>
            if FMC t \<noteq> None then Inl (Errorf ''MinTCB.FMC is not enforceable'')
            else Inr \<lparr>BlSpl = Bootloader t, TeeSpl = Tee t, SnpSpl = Snp t, UcodeSpl = Microcode t\<rparr>) (\<lambda>tcb.
     Inr \<lparr>SvGuestPolicy = \<lparr>ABIMajor = 0, ABIMinor = 0, SMT = True, MigrateMA = True,
              Debug = AllowDebug params, SingleSocket = False\<rparr>,
          SvPermitProvisionalFirmware = True, SvVMPL = Some 0, SvReportData = rd, SvHostData = hd,
          SvMeasurement = m, SvMinimumTCB = tcb\<rparr>))))"

definition kdsProductLine :: "'root sev_lib \<Rightarrow> nat \<Rightarrow> err + string" where
  "kdsProductLine lib fms =
     (if ProductKnown lib fms then Inr (ProductLineFromFms lib fms)
      else case FmsFromCpuid1Eax lib fms of
          (family, model) \<Rightarrow>
            (if family = 0x19 \<and> 0xA0 \<le> model \<and> model \<le> 0xAF then Inr ''Genoa''
             else Inl (Errorf ''no KDS product line known'')))"

definition fetchVCEK :: "'root sev_lib \<Rightarrow> snp_report \<Rightarrow> getter \<Rightarrow> err + bytes" where
  "fetchVCEK lib report get =
     (let fms = RepCpuid1EaxFms report in
      if fms = 0 then Inl (Errorf ''report carries no CPUID product info'')
      else
        bindr (kdsProductLine lib fms) (\<lambda>productLine.
        if strip_trailing 0 (dropWhile (\<lambda>b. b = 0) (RepChipId report)) = []
        then Inl (Errorf ''report has an all-zero CHIP_ID'')
        else
          wrap_err (Sentinel ErrCollateralUnavailable)
            (get (VCEKCertURL lib productLine (RepChipId report) (RepReportedTcb report)))))"

definition vcekProductRoots ::
    "'root sev_lib \<Rightarrow> snp_report \<Rightarrow> bytes \<Rightarrow> err + (string \<times> 'root) list option" where
  "vcekProductRoots lib report vcekDER =
     (let fms = RepCpuid1EaxFms report in
      if fms = 0 \<or> length vcekDER = 0 then Inr None
      else
        let reportLine = ProductLineFromFms lib fms in
        case GetDefaultRootCerts lib reportLine of
          Inr _ \<Rightarrow> Inr None
        | Inl _ \<Rightarrow>
            bindr (wrap_err (Errorf ''parsing VCEK for product fallback'') (ParseCertificate lib vcekDER)) (\<lambda>cert.
            bindr (wrap_err (Errorf ''reading VCEK product extension'') (VcekProductName lib cert)) (\<lambda>name.
            case GetDefaultRootCerts lib (ProductLineOfProductName lib name) of
              Inl _ \<Rightarrow> Inr None
            | Inr root \<Rightarrow> Inr (Some [(reportLine, root)]))))"

definition snp_extractClaims :: "'root sev_lib \<Rightarrow> snp_report \<Rightarrow> claims" where
  "snp_extractClaims lib report =
     (let policy = ParseSnpPolicy lib (RepPolicy report);
          plat = ParseSnpPlatformInfo lib (RepPlatformInfo report);
          tcb = DecomposeTCBVersion lib (RepReportedTcb report);
          num = (\<lambda>n. ANum (int n))
      in \<lparr>LaunchDigest = hex_encode (RepMeasurement report), ReportData = RepReportData report,
          SignedData = stripTrailingNulls (RepReportData report), InitData = RepHostData report,
          TCB = \<lparr>TcbType = ''Snp'', TcbBootloader = Some (BlSpl tcb), TcbTee = Some (TeeSpl tcb),
                 TcbSnp = Some (SnpSpl tcb), TcbMicrocode = Some (UcodeSpl tcb), TcbFMC = None, TCBSvn = []\<rparr>,
          PlatformData =
            [(''policy'', AMap
                [(''abi_major'', num (ABIMajor policy)), (''abi_minor'', num (ABIMinor policy)),
                 (''smt_allowed'', ABool (SMT policy)), (''migrate_ma'', ABool (MigrateMA policy)),
                 (''debug_allowed'', ABool (Debug policy)), (''single_socket'', ABool (SingleSocket policy))]),
             (''platform_info'', AMap
                [(''tsme_enabled'', ABool (TSMEEnabled plat)), (''smt_enabled'', ABool (PlatSMTEnabled plat))]),
             (''vmpl'', num (RepVmpl report)), (''chip_id'', AStr (hex_encode (RepChipId report))),
             (''current_build'', num (RepCurrentBuild report)), (''current_minor'', num (RepCurrentMinor report)),
             (''current_major'', num (RepCurrentMajor report)),
             (''committed_build'', num (RepCommittedBuild report)),
             (''committed_minor'', num (RepCommittedMinor report)),
             (''committed_major'', num (RepCommittedMajor report)),
             (''guest_svn'', num (RepGuestSvn report)), (''signature_algo'', num (RepSignatureAlgo report))]\<rparr>)"

section \<open>Verification\<close>

definition cert_chain :: "signing_key \<Rightarrow> snp_report \<Rightarrow> bytes \<Rightarrow> err + snp_attestation" where
  "cert_chain key report vcekDER =
     (case key of
        VcekReportSigner \<Rightarrow> Inr \<lparr>AttReport = report, AttVcekCert = vcekDER, AttVlekCert = []\<rparr>
      | VlekReportSigner \<Rightarrow> Inr \<lparr>AttReport = report, AttVcekCert = [], AttVlekCert = vcekDER\<rparr>
      | OtherReportSigner \<Rightarrow> Inl (Errorf ''unsupported report signing key''))"

definition VerifyReportContext ::
    "'root sev_lib \<Rightarrow> bytes \<Rightarrow> bytes \<Rightarrow> verify_params \<Rightarrow> string \<Rightarrow> nat \<Rightarrow> snp_options \<Rightarrow> err + verification_result"
where
  "VerifyReportContext lib reportBytes vcekDER params platform minVersion opts =
     bindr (wrap_err (Errorf ''parsing report'') (ReportToProto lib reportBytes)) (\<lambda>report.
     if RepVersion report < minVersion \<or> MaxReportVersion < RepVersion report
     then Inl (Errorf ''unsupported report version'')
     else
       bindr (wrap_err (Errorf ''parsing signer info'') (ParseSignerInfo lib (RepSignerInfo report))) (\<lambda>key.
       bindr
         (case SnpGetter opts of
            Some get \<Rightarrow>
              (if length vcekDER = 0 \<and> key = VcekReportSigner then fetchVCEK lib report get else Inr vcekDER)
          | None \<Rightarrow> Inr vcekDER) (\<lambda>vcek.
       bindr (cert_chain key report vcek) (\<lambda>attestation.
       bindr (if key = VcekReportSigner then vcekProductRoots lib report vcek else Inr None) (\<lambda>roots.
       let fms = RepCpuid1EaxFms report;
           verifyOpts = \<lparr>SvCheckRevocations = SnpCheckRevocations opts,
             SvProduct = (if fms \<noteq> 0 then Some fms else None), SvDisableCertFetching = True,
             SvGetter = (case SnpGetter opts of Some get \<Rightarrow> get | None \<Rightarrow> DefaultGetter lib), SvTrustedRoots = roots\<rparr>
       in
       bindr (wrap_err (Errorf ''hardware verification failed'') (SnpAttestationContext lib attestation verifyOpts)) (\<lambda>_.
       bindr (snp_validateOptions params) (\<lambda>vOpts.
       bindr (wrap_err (Errorf ''policy validation failed'') (ValidateSnpAttestation lib attestation vOpts)) (\<lambda>_.
       Inr (zero_result\<lparr>SignatureValid := True, ResPlatform := platform, Claims := snp_extractClaims lib report,
              CollateralVerified := SnpCheckRevocations opts,
              ReportDataMatch := match_flag (ExpectedReportData params),
              InitDataMatch := match_flag (ExpectedInitDataHash params),
              LaunchDigestMatch := match_flag (ExpectedLaunchDigest params)\<rparr>)))))))))"

definition VerifyReport ::
    "'root sev_lib \<Rightarrow> bytes \<Rightarrow> bytes \<Rightarrow> verify_params \<Rightarrow> string \<Rightarrow> nat \<Rightarrow> snp_options \<Rightarrow> err + verification_result"
where
  "VerifyReport lib reportBytes vcekDER params platform minVersion opts =
     VerifyReportContext lib reportBytes vcekDER params platform minVersion opts"

definition snp_VerifyEvidenceContext ::
    "'root sev_lib \<Rightarrow> snp_evidence \<Rightarrow> verify_params \<Rightarrow> snp_options \<Rightarrow> err + verification_result" where
  "snp_VerifyEvidenceContext lib ev params opts =
     (let inlineVCEK = (case CertChain ev of None \<Rightarrow> False | Some c \<Rightarrow> Vcek c \<noteq> []) in
      if \<not> inlineVCEK \<and> SnpGetter opts = None
      then Inl (Errorf ''evidence is missing cert_chain.vcek and no Getter is set'')
      else
        bindr (wrap_err (Errorf ''decoding attestation_report'') (std_decode (AttestationReport ev))) (\<lambda>reportBytes.
        bindr
          (case CertChain ev of
             Some c \<Rightarrow> (if inlineVCEK then wrap_err (Errorf ''decoding vcek'') (std_decode (Vcek c)) else Inr [])
           | None \<Rightarrow> Inr []) (\<lambda>vcekDER.
        VerifyReportContext lib reportBytes vcekDER params PlatformSNP MinReportVersion opts)))"

definition snp_VerifyEvidence ::
    "'root sev_lib \<Rightarrow> snp_evidence \<Rightarrow> verify_params \<Rightarrow> snp_options \<Rightarrow> err + verification_result" where
  "snp_VerifyEvidence lib ev params opts = snp_VerifyEvidenceContext lib ev params opts"

section \<open>What success means\<close>

lemma snp_claims_debug:
  "DebugEnabled (snp_extractClaims lib report) = Inr (Debug (ParseSnpPolicy lib (RepPolicy report)))"
  by (simp add: DebugEnabled_def nested_bool_def snp_extractClaims_def Let_def)

lemma snp_claims_smt:
  "SMTEnabled (snp_extractClaims lib report) = Inr (PlatSMTEnabled (ParseSnpPlatformInfo lib (RepPlatformInfo report)))"
  by (simp add: SMTEnabled_def nested_bool_def snp_extractClaims_def Let_def)

lemma snp_claims_sel [simp]:
  "LaunchDigest (snp_extractClaims lib report) = hex_encode (RepMeasurement report)"
  "ReportData (snp_extractClaims lib report) = RepReportData report"
  "InitData (snp_extractClaims lib report) = RepHostData report"
  "SignedData (snp_extractClaims lib report) = strip_trailing 0 (RepReportData report)"
  by (simp_all add: snp_extractClaims_def stripTrailingNulls_def Let_def)

text \<open>The options handed to the validation, field by field.\<close>

lemma snp_validateOptions_Inr:
  assumes "snp_validateOptions params = Inr vo"
  shows "ExpectedReportData params = Some d \<Longrightarrow> length d \<le> 64 \<and> SvReportData vo = Some (pad d 64)"
    and "ExpectedInitDataHash params = Some d \<Longrightarrow> length d \<le> 32 \<and> SvHostData vo = Some (pad d 32)"
    and "ExpectedLaunchDigest params = Some d \<Longrightarrow> length d = 48 \<and> SvMeasurement vo = Some d"
    and "SvVMPL vo = Some 0" and "Debug (SvGuestPolicy vo) = AllowDebug params"
    and "MinTCB params = Some t \<Longrightarrow> FMC t = None \<and>
      SvMinimumTCB vo = \<lparr>BlSpl = Bootloader t, TeeSpl = Tee t, SnpSpl = Snp t, UcodeSpl = Microcode t\<rparr>"
  using assms by (auto simp: snp_validateOptions_def split: option.splits if_splits)

lemma VerifyReportContext_Inr:
  assumes "VerifyReportContext lib reportBytes vcekDER params platform minVersion opts = Inr res"
  obtains report key att sv vo vcek where
    "ReportToProto lib reportBytes = Inr report" "minVersion \<le> RepVersion report" "RepVersion report \<le> 5"
    "AttReport att = report" "SvDisableCertFetching sv" "SnpAttestationContext lib att sv = Inr ()"
    "snp_validateOptions params = Inr vo" "ValidateSnpAttestation lib att vo = Inr ()"
    "res = zero_result\<lparr>SignatureValid := True, ResPlatform := platform, Claims := snp_extractClaims lib report,
              CollateralVerified := SnpCheckRevocations opts,
              ReportDataMatch := match_flag (ExpectedReportData params),
              InitDataMatch := match_flag (ExpectedInitDataHash params),
              LaunchDigestMatch := match_flag (ExpectedLaunchDigest params)\<rparr>"
    "ParseSignerInfo lib (RepSignerInfo report) = Inr key" "key \<noteq> OtherReportSigner"
    "cert_chain key report vcek = Inr att" "vcekDER \<noteq> [] \<longrightarrow> vcek = vcekDER"
    "(if key = VcekReportSigner then vcekProductRoots lib report vcek else Inr None) = Inr (SvTrustedRoots sv)"
    "SvCheckRevocations sv = SnpCheckRevocations opts"
proof -
  have att: "AttReport att = report \<and> key \<noteq> OtherReportSigner" if "cert_chain key report v = Inr att" for key report v att
    using that by (cases key) (auto simp: cert_chain_def)
  have vcek: "vcekDER \<noteq> [] \<longrightarrow> v = vcekDER"
    if "(case SnpGetter opts of
          Some get \<Rightarrow> (if length vcekDER = 0 \<and> key = VcekReportSigner then fetchVCEK lib report get else Inr vcekDER)
        | None \<Rightarrow> Inr vcekDER) = Inr v" for key report v
    using that by (auto split: option.splits if_splits)
  from assms obtain report key vcek attestation roots vo where
    "ReportToProto lib reportBytes = Inr report" "\<not> (RepVersion report < minVersion \<or> 5 < RepVersion report)"
    "ParseSignerInfo lib (RepSignerInfo report) = Inr key" "cert_chain key report vcek = Inr attestation"
    "(case SnpGetter opts of
          Some get \<Rightarrow> (if length vcekDER = 0 \<and> key = VcekReportSigner then fetchVCEK lib report get else Inr vcekDER)
        | None \<Rightarrow> Inr vcekDER) = Inr vcek"
    "(if key = VcekReportSigner then vcekProductRoots lib report vcek else Inr None) = Inr roots"
    "SnpAttestationContext lib attestation \<lparr>SvCheckRevocations = SnpCheckRevocations opts,
       SvProduct = (if RepCpuid1EaxFms report \<noteq> 0 then Some (RepCpuid1EaxFms report) else None),
       SvDisableCertFetching = True,
       SvGetter = (case SnpGetter opts of Some get \<Rightarrow> get | None \<Rightarrow> DefaultGetter lib), SvTrustedRoots = roots\<rparr> = Inr ()"
    "snp_validateOptions params = Inr vo" "ValidateSnpAttestation lib attestation vo = Inr ()"
    "res = zero_result\<lparr>SignatureValid := True, ResPlatform := platform, Claims := snp_extractClaims lib report,
              CollateralVerified := SnpCheckRevocations opts,
              ReportDataMatch := match_flag (ExpectedReportData params),
              InitDataMatch := match_flag (ExpectedInitDataHash params),
              LaunchDigestMatch := match_flag (ExpectedLaunchDigest params)\<rparr>"
    unfolding VerifyReportContext_def Let_def bindr_eq_Inr wrap_err_eq_Inr if_Inl_eq_Inr by force
  with att vcek show ?thesis
    by (intro that [of report attestation _ vo key vcek]) (auto simp del: zero_result_sel)
qed

text \<open>What go-sev-guest was asked, and that it agreed.\<close>

lemma VerifyReport_vendor:
  assumes "VerifyReportContext lib reportBytes vcekDER params platform minVersion opts = Inr res"
    and "ReportToProto lib reportBytes = Inr report"
  shows "\<exists>key vcek att sv vo. ParseSignerInfo lib (RepSignerInfo report) = Inr key \<and>
    (vcekDER \<noteq> [] \<longrightarrow> vcek = vcekDER) \<and> cert_chain key report vcek = Inr att \<and>
    SnpAttestationContext lib att sv = Inr () \<and> SvDisableCertFetching sv \<and>
    SvCheckRevocations sv = SnpCheckRevocations opts \<and>
    (if key = VcekReportSigner then vcekProductRoots lib report vcek else Inr None) = Inr (SvTrustedRoots sv) \<and>
    snp_validateOptions params = Inr vo \<and> ValidateSnpAttestation lib att vo = Inr ()"
proof -
  from assms(1) obtain rep key att sv vo vcek where
    v: "ReportToProto lib reportBytes = Inr rep" "SvDisableCertFetching sv" "SnpAttestationContext lib att sv = Inr ()"
      "snp_validateOptions params = Inr vo" "ValidateSnpAttestation lib att vo = Inr ()"
      "ParseSignerInfo lib (RepSignerInfo rep) = Inr key" "cert_chain key rep vcek = Inr att"
      "vcekDER \<noteq> [] \<longrightarrow> vcek = vcekDER"
      "(if key = VcekReportSigner then vcekProductRoots lib rep vcek else Inr None) = Inr (SvTrustedRoots sv)"
      "SvCheckRevocations sv = SnpCheckRevocations opts"
    by (rule VerifyReportContext_Inr) (rule that, assumption+)
  from v(1) assms(2) have "rep = report" by simp
  with v show ?thesis by blast
qed

lemma VerifyReport_sound:
  assumes "sev_contract lib"
    and "VerifyReportContext lib reportBytes vcekDER params platform minVersion opts = Inr res"
  shows "SignatureValid res \<and> ResPlatform res = platform \<and>
    (\<exists>report att sv. ReportToProto lib reportBytes = Inr report \<and> AttReport att = report \<and>
       SnpAttestationContext lib att sv = Inr () \<and> SvDisableCertFetching sv \<and>
       minVersion \<le> RepVersion report \<and> RepVersion report \<le> 5 \<and> RepVmpl report = 0 \<and>
       Claims res = snp_extractClaims lib report) \<and>
    (\<forall>d. ExpectedReportData params = Some d \<longrightarrow> length d \<le> 64 \<and> ReportData (Claims res) = pad d 64) \<and>
    (\<forall>d. ExpectedInitDataHash params = Some d \<longrightarrow> length d \<le> 32 \<and> InitData (Claims res) = pad d 32) \<and>
    (\<forall>d. ExpectedLaunchDigest params = Some d \<longrightarrow> LaunchMeasurement (Claims res) = Inr d) \<and>
    (\<exists>debug. DebugEnabled (Claims res) = Inr debug \<and> (debug \<longrightarrow> AllowDebug params)) \<and>
    (\<forall>t. MinTCB params = Some t \<longrightarrow> FMC t = None \<and>
       (\<exists>b. TcbBootloader (TCB (Claims res)) = Some b \<and> Bootloader t \<le> b) \<and>
       (\<exists>b. TcbTee (TCB (Claims res)) = Some b \<and> Tee t \<le> b) \<and>
       (\<exists>b. TcbSnp (TCB (Claims res)) = Some b \<and> Snp t \<le> b) \<and>
       (\<exists>b. TcbMicrocode (TCB (Claims res)) = Some b \<and> Microcode t \<le> b))"
proof -
  from assms(2) obtain report key att sv vo where
    v: "ReportToProto lib reportBytes = Inr report" "minVersion \<le> RepVersion report" "RepVersion report \<le> 5"
    "AttReport att = report" "SvDisableCertFetching sv" "SnpAttestationContext lib att sv = Inr ()"
    and vo: "snp_validateOptions params = Inr vo" and val: "ValidateSnpAttestation lib att vo = Inr ()"
    and res: "res = zero_result\<lparr>SignatureValid := True, ResPlatform := platform, Claims := snp_extractClaims lib report,
              CollateralVerified := SnpCheckRevocations opts,
              ReportDataMatch := match_flag (ExpectedReportData params),
              InitDataMatch := match_flag (ExpectedInitDataHash params),
              LaunchDigestMatch := match_flag (ExpectedLaunchDigest params)\<rparr>"
    by (rule VerifyReportContext_Inr)
  from assms(1) val v(4) have c:
    "SvReportData vo = Some d \<Longrightarrow> RepReportData report = d" "SvHostData vo = Some d \<Longrightarrow> RepHostData report = d"
    "SvMeasurement vo = Some d \<Longrightarrow> RepMeasurement report = d" "SvVMPL vo = Some l \<Longrightarrow> RepVmpl report = l"
    "Debug (ParseSnpPolicy lib (RepPolicy report)) \<Longrightarrow> Debug (SvGuestPolicy vo)"
    "BlSpl (SvMinimumTCB vo) \<le> BlSpl (DecomposeTCBVersion lib (RepReportedTcb report))"
    "TeeSpl (SvMinimumTCB vo) \<le> TeeSpl (DecomposeTCBVersion lib (RepReportedTcb report))"
    "SnpSpl (SvMinimumTCB vo) \<le> SnpSpl (DecomposeTCBVersion lib (RepReportedTcb report))"
    "UcodeSpl (SvMinimumTCB vo) \<le> UcodeSpl (DecomposeTCBVersion lib (RepReportedTcb report))" for d l
    unfolding sev_contract_def Let_def by blast+
  note o = snp_validateOptions_Inr [OF vo]
  have sel: "Claims res = snp_extractClaims lib report" "SignatureValid res" "ResPlatform res = platform"
    by (simp_all add: res)
  have tcb: "TCB (Claims res) = \<lparr>TcbType = ''Snp'', TcbBootloader = Some (BlSpl (DecomposeTCBVersion lib (RepReportedTcb report))),
      TcbTee = Some (TeeSpl (DecomposeTCBVersion lib (RepReportedTcb report))),
      TcbSnp = Some (SnpSpl (DecomposeTCBVersion lib (RepReportedTcb report))),
      TcbMicrocode = Some (UcodeSpl (DecomposeTCBVersion lib (RepReportedTcb report))), TcbFMC = None, TCBSvn = []\<rparr>"
    by (simp add: sel snp_extractClaims_def Let_def)
  show ?thesis
  proof (intro conjI allI impI)
    show "\<exists>report att sv. ReportToProto lib reportBytes = Inr report \<and> AttReport att = report \<and>
       SnpAttestationContext lib att sv = Inr () \<and> SvDisableCertFetching sv \<and>
       minVersion \<le> RepVersion report \<and> RepVersion report \<le> 5 \<and> RepVmpl report = 0 \<and>
       Claims res = snp_extractClaims lib report"
      using v sel c(4) [OF o(4)] by blast
    show "\<exists>debug. DebugEnabled (Claims res) = Inr debug \<and> (debug \<longrightarrow> AllowDebug params)"
      using c(5) o(5) by (simp add: sel snp_claims_debug)
    fix d assume "ExpectedLaunchDigest params = Some d"
    with o(3) c(3) show "LaunchMeasurement (Claims res) = Inr d" by (simp add: sel)
  qed (use sel o(1,2,6) c tcb in auto)
qed

lemma VerifyReport_facts:
  assumes "sev_contract lib"
    and "VerifyReportContext lib reportBytes vcekDER params platform minVersion opts = Inr res"
  shows "SignatureValid res" "ResPlatform res = platform"
    and "ExpectedReportData params = Some d \<Longrightarrow> length d \<le> 64 \<and> ReportData (Claims res) = pad d 64"
    and "ExpectedLaunchDigest params = Some d \<Longrightarrow> LaunchMeasurement (Claims res) = Inr d"
    and "DebugEnabled (Claims res) = Inr debug \<Longrightarrow> debug \<Longrightarrow> AllowDebug params"
proof -
  note s = VerifyReport_sound [OF assms]
  note s3 = conjunct2 [OF conjunct2 [OF conjunct2 [OF s]]]
  show "SignatureValid res" "ResPlatform res = platform" using s by blast+
  show "ExpectedReportData params = Some d \<Longrightarrow> length d \<le> 64 \<and> ReportData (Claims res) = pad d 64"
    using conjunct1 [OF s3] by blast
  show "ExpectedLaunchDigest params = Some d \<Longrightarrow> LaunchMeasurement (Claims res) = Inr d"
    using conjunct1 [OF conjunct2 [OF conjunct2 [OF s3]]] by blast
  show "DebugEnabled (Claims res) = Inr debug \<Longrightarrow> debug \<Longrightarrow> AllowDebug params"
    using conjunct1 [OF conjunct2 [OF conjunct2 [OF conjunct2 [OF s3]]]] by auto
qed

section \<open>Properties\<close>

text \<open>
  C12: what a verified SEV-SNP report establishes. Given the documented behaviour of the policy
  validation, a successful \<open>VerifyReportContext\<close> means that go-sev-guest verified the signature and
  the certificate chain of the parsed report without fetching, that the report has an accepted
  version and VMPL 0, and that the returned claims carry what the caller expected: the report data
  and the init data padded to their fields, the launch measurement itself, the debug flag only if
  the caller allows it, and a TCB no lower than the floor.
\<close>

theorem snp_report_verified:
  assumes "sev_contract lib"
    and "VerifyReportContext lib reportBytes vcekDER params platform minVersion opts = Inr res"
  shows "SignatureValid res \<and> ResPlatform res = platform \<and>
    (\<exists>report att sv. ReportToProto lib reportBytes = Inr report \<and> AttReport att = report \<and>
       SnpAttestationContext lib att sv = Inr () \<and> SvDisableCertFetching sv \<and>
       minVersion \<le> RepVersion report \<and> RepVersion report \<le> 5 \<and> RepVmpl report = 0 \<and>
       Claims res = snp_extractClaims lib report) \<and>
    (\<forall>d. ExpectedReportData params = Some d \<longrightarrow> length d \<le> 64 \<and> ReportData (Claims res) = pad d 64) \<and>
    (\<forall>d. ExpectedInitDataHash params = Some d \<longrightarrow> length d \<le> 32 \<and> InitData (Claims res) = pad d 32) \<and>
    (\<forall>d. ExpectedLaunchDigest params = Some d \<longrightarrow> LaunchMeasurement (Claims res) = Inr d) \<and>
    (\<exists>debug. DebugEnabled (Claims res) = Inr debug \<and> (debug \<longrightarrow> AllowDebug params)) \<and>
    (\<forall>t. MinTCB params = Some t \<longrightarrow> FMC t = None \<and>
       (\<exists>b. TcbBootloader (TCB (Claims res)) = Some b \<and> Bootloader t \<le> b) \<and>
       (\<exists>b. TcbTee (TCB (Claims res)) = Some b \<and> Tee t \<le> b) \<and>
       (\<exists>b. TcbSnp (TCB (Claims res)) = Some b \<and> Snp t \<le> b) \<and>
       (\<exists>b. TcbMicrocode (TCB (Claims res)) = Some b \<and> Microcode t \<le> b))"
  using assms by (rule VerifyReport_sound)

section \<open>A library that keeps the contract\<close>

definition sample_report :: snp_report where
  "sample_report = \<lparr>RepVersion = 3, RepSignerInfo = 0, RepCpuid1EaxFms = 0, RepChipId = [], RepReportedTcb = 0,
     RepPolicy = 0, RepPlatformInfo = 0, RepVmpl = 0, RepCurrentBuild = 0, RepCurrentMinor = 0,
     RepCurrentMajor = 0, RepCommittedBuild = 0, RepCommittedMinor = 0, RepCommittedMajor = 0,
     RepGuestSvn = 0, RepSignatureAlgo = 1, RepMeasurement = replicate 48 7,
     RepReportData = replicate 64 5, RepHostData = replicate 32 6\<rparr>"

text \<open>A guest policy value of 1 allows debugging; every TCB component is 3.\<close>

definition sample_sev_lib :: "nat sev_lib" where
  "sample_sev_lib = \<lparr>ReportToProto = (\<lambda>b. if b = [] then Inl (Errorf ''short'') else Inr sample_report),
     ParseSignerInfo = (\<lambda>_. Inr VcekReportSigner), ProductKnown = (\<lambda>_. True),
     ProductLineFromFms = (\<lambda>_. ''Milan''), FmsFromCpuid1Eax = (\<lambda>_. (0x19, 1)),
     VCEKCertURL = (\<lambda>_ _ _. []), GetDefaultRootCerts = (\<lambda>_. Inr 0),
     ParseCertificate = (\<lambda>b. Inr b), VcekProductName = (\<lambda>_. Inr ''Milan''),
     ProductLineOfProductName = (\<lambda>s. s), SnpAttestationContext = (\<lambda>att _. if AttVcekCert att = [] then Inl (Errorf ''chain'') else Inr ()),
     ValidateSnpAttestation = (\<lambda>att vo.
       if SvReportData vo \<in> {None, Some (RepReportData (AttReport att))} \<and>
          SvHostData vo \<in> {None, Some (RepHostData (AttReport att))} \<and>
          SvMeasurement vo \<in> {None, Some (RepMeasurement (AttReport att))} \<and>
          SvVMPL vo \<in> {None, Some (RepVmpl (AttReport att))} \<and>
          (RepPolicy (AttReport att) = 1 \<longrightarrow> Debug (SvGuestPolicy vo)) \<and>
          BlSpl (SvMinimumTCB vo) \<le> 3 \<and> TeeSpl (SvMinimumTCB vo) \<le> 3 \<and>
          SnpSpl (SvMinimumTCB vo) \<le> 3 \<and> UcodeSpl (SvMinimumTCB vo) \<le> 3
       then Inr () else Inl (Errorf ''policy'')),
     ParseSnpPolicy = (\<lambda>p. \<lparr>ABIMajor = 1, ABIMinor = 0, SMT = True, MigrateMA = False, Debug = (p = 1), SingleSocket = False\<rparr>),
     ParseSnpPlatformInfo = (\<lambda>_. \<lparr>TSMEEnabled = False, PlatSMTEnabled = True\<rparr>),
     DecomposeTCBVersion = (\<lambda>_. \<lparr>BlSpl = 3, TeeSpl = 3, SnpSpl = 3, UcodeSpl = 3\<rparr>),
     DefaultGetter = (\<lambda>_. Inl (Errorf ''offline''))\<rparr>"

lemma sample_sev_contract: "sev_contract sample_sev_lib"
  by (auto simp: sev_contract_def sample_sev_lib_def Let_def split: if_splits)

definition sample_snp_params :: verify_params where
  "sample_snp_params = \<lparr>ExpectedReportData = Some (replicate 64 5), ExpectedInitDataHash = None, AllowDebug = False,
     MinTCB = Some \<lparr>Bootloader = 2, Tee = 0, Snp = 3, Microcode = 1, FMC = None\<rparr>,
     ExpectedLaunchDigest = Some (replicate 48 7), ExpectedRTMRs = None\<rparr>"

lemma sample_verified:
  "\<exists>res. VerifyReportContext sample_sev_lib [1] [2] sample_snp_params PlatformSNP 3
     \<lparr>SnpCheckRevocations = False, SnpGetter = None\<rparr> = Inr res"
proof -
  have "(2::byte) \<le> 3" "(0::byte) \<le> 3" "(1::byte) \<le> 3" by code_simp+
  then show ?thesis
    by (simp add: VerifyReportContext_def sample_sev_lib_def sample_report_def snp_validateOptions_def
        sample_snp_params_def cert_chain_def vcekProductRoots_def Let_def)
qed

theorem snp_report_verified_witness:
  "\<exists>res. VerifyReportContext sample_sev_lib [1] [2] sample_snp_params PlatformSNP 3
     \<lparr>SnpCheckRevocations = False, SnpGetter = None\<rparr> = Inr res \<and>
     SignatureValid res \<and> ReportData (Claims res) = replicate 64 5 \<and>
     LaunchMeasurement (Claims res) = Inr (replicate 48 7)"
proof -
  obtain res where res: "VerifyReportContext sample_sev_lib [1] [2] sample_snp_params PlatformSNP 3
     \<lparr>SnpCheckRevocations = False, SnpGetter = None\<rparr> = Inr res" using sample_verified ..
  from snp_report_verified [OF sample_sev_contract res] have "SignatureValid res"
      "\<forall>d. ExpectedReportData sample_snp_params = Some d \<longrightarrow> length d \<le> 64 \<and> ReportData (Claims res) = pad d 64"
      "\<forall>d. ExpectedLaunchDigest sample_snp_params = Some d \<longrightarrow> LaunchMeasurement (Claims res) = Inr d" by blast+
  with res show ?thesis by (intro exI [of _ res]) (simp add: sample_snp_params_def)
qed

end
