(* ===== verification/TdxVerify.thy ===== *)
theory TdxVerify
  imports HwCommon TcbStatus Ccel
begin

text \<open>
  The TDX verifier of \<open>attestation/tdx/tdx.go\<close>: from an evidence envelope to a result, with the event
  log replayed against the quote's registers.

  The quote parser, the DCAP verification and the field validation are go-tdx-guest's, the record
  \<open>tdx_lib\<close>; \<open>tdx_contract\<close> is what \<open>validate.TdxQuote\<close> documents. The library fetches collateral
  through the getter it is given, so \<open>TdxQuoteVerify\<close> also returns what the recorder saw. The trust
  root pool is a value of type \<open>'root\<close>.
\<close>

section \<open>go-tdx-guest\<close>

record td_body =
  TeeTcbSvnField :: bytes
  MrSeam :: bytes
  MrSignerSeam :: bytes
  SeamAttributes :: bytes
  TdAttributes :: bytes
  Xfam :: bytes
  MrTd :: bytes
  MrConfigId :: bytes
  MrOwner :: bytes
  MrOwnerConfig :: bytes
  Rtmrs :: "bytes list"
  BodyReportData :: bytes

record quote_v4 =
  QuoteVersion :: nat
  QuoteTeeType :: nat
  QuoteBody :: "td_body option"
  QuoteTcb :: tdx_quote_tcb

datatype any_quote = QuoteV4 quote_v4 | OtherQuote

record time_set =
  PckCertChainTime :: nat
  TcbInfoTime :: nat
  QeIdentityTime :: nat
  PckCrlTime :: nat
  RootCaCrlTime :: nat

record 'root tdx_dcap_options =
  TvCheckRevocations :: bool
  TvGetCollateral :: bool
  TvNow :: "time_set option"
  TvTrustedRoots :: 'root
  TvRecording :: bool
  TvDisableTcbStatusCheck :: bool

record tdx_validate_options =
  TvReportData :: "bytes option"
  TvMrConfigID :: "bytes option"
  TvMrTd :: "bytes option"
  TvRtmrs :: "bytes option list"

record 'root tdx_lib =
  QuoteToProto :: "bytes \<Rightarrow> err + any_quote"
  IntelSGXRootCAPool :: "err + 'root"
  TdxQuoteVerify :: "quote_v4 \<Rightarrow> 'root tdx_dcap_options \<Rightarrow> (err + unit) \<times> recorder"
  TdxQuoteValidate :: "quote_v4 \<Rightarrow> tdx_validate_options \<Rightarrow> err + unit"
  Collateral :: tcb_collateral

text \<open>
  What \<open>validate.TdxQuote\<close> documents: the quote has a body, an expectation that is set equals the
  body's field, and a register list is either empty or of four entries, each nil or empty or equal
  to its register.
\<close>

definition tdx_contract :: "'root tdx_lib \<Rightarrow> bool" where
  "tdx_contract lib \<longleftrightarrow>
     (\<forall>q vo body. TdxQuoteValidate lib q vo = Inr () \<longrightarrow> QuoteBody q = Some body \<longrightarrow>
        (\<forall>d. TvReportData vo = Some d \<longrightarrow> BodyReportData body = d) \<and>
        (\<forall>d. TvMrConfigID vo = Some d \<longrightarrow> MrConfigId body = d) \<and>
        (\<forall>d. TvMrTd vo = Some d \<longrightarrow> MrTd body = d) \<and>
        (\<forall>i r. i < length (TvRtmrs vo) \<longrightarrow> TvRtmrs vo ! i = Some r \<longrightarrow> r \<noteq> [] \<longrightarrow>
           i < length (Rtmrs body) \<and> Rtmrs body ! i = r))"

section \<open>Options and claims\<close>

record tdx_evidence =
  Quote :: string
  CCEventlog :: string

record 'root tdx_verify_options =
  TdxBase :: tdx_options
  TdxTrustedRoots :: "'root option"
  TdxNow :: "nat option"

definition verificationTimeSet :: "nat option \<Rightarrow> time_set option" where
  "verificationTimeSet now =
     (case now of
        None \<Rightarrow> None
      | Some t \<Rightarrow> Some \<lparr>PckCertChainTime = t, TcbInfoTime = t, QeIdentityTime = t, PckCrlTime = t,
          RootCaCrlTime = t\<rparr>)"

text \<open>The loop that places each expected register in its slot.\<close>

fun place_rtmrs :: "nat \<Rightarrow> bytes option list \<Rightarrow> bytes option list \<Rightarrow> err + bytes option list" where
  "place_rtmrs i [] out = Inr out"
| "place_rtmrs i (r # rs) out =
     (case r of
        Some b \<Rightarrow> (if length b \<noteq> 48 then Inl (Errorf ''expected_rtmrs'') else place_rtmrs (Suc i) rs (out[i := r]))
      | None \<Rightarrow> place_rtmrs (Suc i) rs (out[i := r]))"

definition tdx_validateOptions :: "verify_params \<Rightarrow> err + tdx_validate_options" where
  "tdx_validateOptions params =
     bindr
       (case ExpectedReportData params of
          None \<Rightarrow> Inr None
        | Some d \<Rightarrow> if 64 < length d then Inl (Errorf ''expected_report_data'') else Inr (Some (pad d 64))) (\<lambda>rd.
     bindr
       (case ExpectedInitDataHash params of
          None \<Rightarrow> Inr None
        | Some d \<Rightarrow> if 48 < length d then Inl (Errorf ''expected_init_data_hash'') else Inr (Some (pad d 48))) (\<lambda>mc.
     bindr
       (case ExpectedLaunchDigest params of
          None \<Rightarrow> Inr None
        | Some d \<Rightarrow> if length d \<noteq> 48 then Inl (Errorf ''expected_launch_digest'') else Inr (Some d)) (\<lambda>m.
     bindr
       (case ExpectedRTMRs params of
          None \<Rightarrow> Inr []
        | Some rtmrs \<Rightarrow>
            (if 4 < length rtmrs then Inl (Errorf ''expected_rtmrs'')
             else place_rtmrs 0 rtmrs [None, None, None, None])) (\<lambda>regs.
     Inr \<lparr>TvReportData = rd, TvMrConfigID = mc, TvMrTd = m, TvRtmrs = regs\<rparr>))))"

definition parseTdAttributes :: "bytes \<Rightarrow> (string \<times> any) list" where
  "parseTdAttributes raw =
     (if length raw < 8 then []
      else
        let bits = le_nat (take 8 raw); flag = (\<lambda>n. ABool (odd (bits div 2 ^ n))) in
        [(''debug'', flag 0), (''septve_disable'', flag 28), (''protection_keys'', flag 30),
         (''key_locker'', flag 31), (''perfmon'', flag 63)])"

definition hex_digit_string :: "nat \<Rightarrow> string" where
  "hex_digit_string n = [hex_char (n mod 16)]"

fun show_hex :: "nat \<Rightarrow> string" where
  "show_hex n = (if n < 16 then hex_digit_string n else show_hex (n div 16) @ hex_digit_string n)"

declare show_hex.simps [simp del]

definition rtmr_claim :: "bytes list \<Rightarrow> nat \<Rightarrow> string" where
  "rtmr_claim rtmrs i = (if i < length rtmrs then hex_encode (rtmrs ! i) else [])"

definition tdx_extractClaims :: "quote_v4 \<Rightarrow> td_body \<Rightarrow> claims" where
  "tdx_extractClaims quote body =
     (let hex = (\<lambda>b. AStr (hex_encode b)); rtmr = (\<lambda>i. AStr (rtmr_claim (Rtmrs body) i)) in
      \<lparr>LaunchDigest = hex_encode (MrTd body), ReportData = BodyReportData body,
       SignedData = stripTrailingNulls (BodyReportData body), InitData = MrConfigId body,
       TCB = zero_tcb\<lparr>TcbType := ''Tdx'', TCBSvn := TeeTcbSvnField body\<rparr>,
       PlatformData =
         [(''quote_version'', ANum (int (QuoteVersion quote))),
          (''tee_type'', AStr (''0x'' @ show_hex (QuoteTeeType quote))),
          (''mr_seam'', hex (MrSeam body)), (''mrsigner_seam'', hex (MrSignerSeam body)),
          (''seam_attributes'', hex (SeamAttributes body)), (''td_attributes'', hex (TdAttributes body)),
          (''td_attributes_parsed'', AMap (parseTdAttributes (TdAttributes body))),
          (''xfam'', hex (Xfam body)), (''mr_config_id'', hex (MrConfigId body)),
          (''mr_owner'', hex (MrOwner body)), (''mr_owner_config'', hex (MrOwnerConfig body)),
          (''rtmr_0'', rtmr 0), (''rtmr_1'', rtmr 1), (''rtmr_2'', rtmr 2), (''rtmr_3'', rtmr 3)]\<rparr>)"

section \<open>Verification\<close>

definition VerifyQuoteBytes ::
    "'root tdx_lib \<Rightarrow> bytes \<Rightarrow> verify_params \<Rightarrow> string \<Rightarrow> 'root tdx_verify_options \<Rightarrow> err + verification_result"
where
  "VerifyQuoteBytes lib quoteBytes params platform opts =
     bindr (wrap_err (Errorf ''parsing quote'') (QuoteToProto lib quoteBytes)) (\<lambda>anyQuote.
     case anyQuote of
       OtherQuote \<Rightarrow> Inl (Errorf ''unsupported quote type'')
     | QuoteV4 quote \<Rightarrow>
         (case QuoteBody quote of
            None \<Rightarrow> Inl (Errorf ''quote has no TD report body'')
          | Some body \<Rightarrow>
              bindr (checkAcceptedTCBStatuses (TdxBase opts)) (\<lambda>_.
              bindr
                (case TdxTrustedRoots opts of
                   Some roots \<Rightarrow> Inr roots
                 | None \<Rightarrow> wrap_err (Errorf ''initialize Intel trust root'') (IntelSGXRootCAPool lib)) (\<lambda>roots.
              let accepted = AcceptedTCBStatuses (TdxBase opts);
                  recording = (0 < length accepted);
                  vOpts = \<lparr>TvCheckRevocations = CheckRevocations (TdxBase opts),
                    TvGetCollateral = GetCollateral (TdxBase opts), TvNow = verificationTimeSet (TdxNow opts),
                    TvTrustedRoots = roots, TvRecording = recording, TvDisableTcbStatusCheck = recording\<rparr>
              in
              bindr (wrap_err (Errorf ''DCAP verification failed'') (fst (TdxQuoteVerify lib quote vOpts))) (\<lambda>_.
              let td = TdAttributes body in
              if 1 \<le> length td \<and> bit (td ! 0) 0 \<and> \<not> AllowDebug params
              then Inl (Errorf ''TD launched with debug attribute'')
              else
                bindr (tdx_validateOptions params) (\<lambda>valOpts.
                bindr (wrap_err (Errorf ''field validation failed'') (TdxQuoteValidate lib quote valOpts)) (\<lambda>_.
                bindr
                  (if recording then
                     bindr (evaluateTCBStatus (Collateral lib) (QuoteTcb quote) (snd (TdxQuoteVerify lib quote vOpts)) accepted)
                       (\<lambda>st. Inr (Some st))
                   else Inr None) (\<lambda>status.
                Inr (zero_result\<lparr>SignatureValid := True, ResPlatform := platform,
                       Claims := tdx_extractClaims quote body,
                       CollateralVerified := GetCollateral (TdxBase opts), ResTCBStatus := status,
                       ReportDataMatch := match_flag (ExpectedReportData params),
                       InitDataMatch := match_flag (ExpectedInitDataHash params),
                       LaunchDigestMatch := match_flag (ExpectedLaunchDigest params)\<rparr>)))))))))"

definition quoteRTMRs :: "'root tdx_lib \<Rightarrow> bytes \<Rightarrow> err + bytes list" where
  "quoteRTMRs lib quoteBytes =
     bindr (wrap_err (Errorf ''parsing quote for RTMRs'') (QuoteToProto lib quoteBytes)) (\<lambda>anyQuote.
     case anyQuote of
       OtherQuote \<Rightarrow> Inl (Errorf ''unsupported quote type'')
     | QuoteV4 quote \<Rightarrow>
         let rtmrs = (case QuoteBody quote of None \<Rightarrow> [] | Some body \<Rightarrow> Rtmrs body) in
         if length rtmrs \<noteq> 4 then Inl (Errorf ''quote RTMR count'') else Inr rtmrs)"

definition tdx_VerifyEvidence ::
    "'root tdx_lib \<Rightarrow> tdx_evidence \<Rightarrow> verify_params \<Rightarrow> 'root tdx_verify_options \<Rightarrow> err + verification_result"
where
  "tdx_VerifyEvidence lib ev params opts =
     bindr (CheckFieldSize (length (Quote ev))) (\<lambda>_.
     bindr (CheckFieldSize (length (CCEventlog ev))) (\<lambda>_.
     bindr (wrap_err (Errorf ''decoding quote'') (std_decode (Quote ev))) (\<lambda>quoteBytes.
     bindr (VerifyQuoteBytes lib quoteBytes params PlatformTDX opts) (\<lambda>res.
     if CCEventlog ev = [] then Inr res
     else
       bindr (wrap_err (Errorf ''decoding cc_eventlog'') (std_decode (CCEventlog ev))) (\<lambda>ccel.
       bindr (quoteRTMRs lib quoteBytes) (\<lambda>rtmrs.
       bindr (VerifyCCELAgainstRTMRs ccel (rtmrs ! 0) (rtmrs ! 1) (rtmrs ! 2) (rtmrs ! 3)) (\<lambda>rtmr3Match.
       Inr (res\<lparr>EventlogVerified := Some True, RTMR3ReplayMatch := Some rtmr3Match\<rparr>))))))))"

section \<open>What success means\<close>

lemma place_rtmrs_Inr:
  "place_rtmrs i rs out = Inr out' \<Longrightarrow> i + length rs \<le> length out \<Longrightarrow>
     length out' = length out \<and> (\<forall>j < length rs. out' ! (i + j) = rs ! j) \<and>
     (\<forall>j < i. out' ! j = out ! j) \<and> (\<forall>b. Some b \<in> set rs \<longrightarrow> length b = 48)"
proof (induction i rs out rule: place_rtmrs.induct)
  case (2 i r rs out)
  have rest: "place_rtmrs (Suc i) rs (out[i := r]) = Inr out'" and r: "\<forall>b. r = Some b \<longrightarrow> length b = 48"
    using "2.prems"(1) by (auto split: option.splits if_splits)
  have ih: "length out' = length out \<and> (\<forall>j < length rs. out' ! (Suc i + j) = rs ! j) \<and>
      (\<forall>j < Suc i. out' ! j = out[i := r] ! j) \<and> (\<forall>b. Some b \<in> set rs \<longrightarrow> length b = 48)"
    using "2.IH" "2.prems"(2) rest r by (cases r) auto
  then have "out' ! (i + j) = (r # rs) ! j" if "j < Suc (length rs)" for j
    using that "2.prems"(2) by (cases j) auto
  with ih r show ?case by auto
qed simp

text \<open>The options handed to the validation, field by field.\<close>

lemma tdx_validateOptions_Inr:
  assumes "tdx_validateOptions params = Inr vo"
  shows "ExpectedReportData params = Some d \<Longrightarrow> length d \<le> 64 \<and> TvReportData vo = Some (pad d 64)"
    and "ExpectedInitDataHash params = Some d \<Longrightarrow> length d \<le> 48 \<and> TvMrConfigID vo = Some (pad d 48)"
    and "ExpectedLaunchDigest params = Some d \<Longrightarrow> length d = 48 \<and> TvMrTd vo = Some d"
    and "ExpectedRTMRs params = Some rs \<Longrightarrow> length rs \<le> 4 \<and> length (TvRtmrs vo) = 4 \<and>
      (\<forall>i < length rs. TvRtmrs vo ! i = rs ! i) \<and> (\<forall>b. Some b \<in> set rs \<longrightarrow> length b = 48)"
  using assms by (auto simp: tdx_validateOptions_def dest!: place_rtmrs_Inr split: option.splits if_splits)

lemma odd_le_nat: "odd (le_nat (b # bs)) \<longleftrightarrow> bit b 0"
proof -
  have "le_nat (b # bs) = le_nat bs * 256 + unat b" by (simp add: le_nat_def)
  moreover have "odd (unat b) \<longleftrightarrow> bit b 0" by (simp flip: bit_0 add: bit_unsigned_iff)
  ultimately show ?thesis by simp
qed

lemma tdx_claims_sel [simp]:
  "LaunchDigest (tdx_extractClaims q body) = hex_encode (MrTd body)"
  "ReportData (tdx_extractClaims q body) = BodyReportData body"
  "InitData (tdx_extractClaims q body) = MrConfigId body"
  "SignedData (tdx_extractClaims q body) = strip_trailing 0 (BodyReportData body)"
  by (simp_all add: tdx_extractClaims_def stripTrailingNulls_def Let_def)

text \<open>The claims carry the debug attribute, and only where the attributes are whole.\<close>

lemma tdx_claims_debug:
  "DebugEnabled (tdx_extractClaims q body) = Inr debug \<longleftrightarrow>
     8 \<le> length (TdAttributes body) \<and> debug = bit (TdAttributes body ! 0) 0"
proof -
  have "odd (le_nat (take 8 (TdAttributes body))) \<longleftrightarrow> bit (TdAttributes body ! 0) 0" if "8 \<le> length (TdAttributes body)"
    using that odd_le_nat by (cases "TdAttributes body") auto
  then show ?thesis
    by (auto simp: DebugEnabled_def nested_bool_def tdx_extractClaims_def parseTdAttributes_def Let_def)
qed

lemma tdx_claims_RTMR:
  assumes "i < 4"
  shows "RTMR (tdx_extractClaims q body) (int i) = Inr b \<longleftrightarrow>
    length b = 48 \<and> i < length (Rtmrs body) \<and> Rtmrs body ! i = b"
proof -
  have i: "i = 0 \<or> i = 1 \<or> i = 2 \<or> i = 3" using assms by linarith
  have c: "rtmr_claim (Rtmrs body) i = hex_encode b \<longleftrightarrow> i < length (Rtmrs body) \<and> Rtmrs body ! i = b"
    if "length b = 48"
  proof -
    from that have "b \<noteq> []" by auto
    then have "[] \<noteq> hex_encode b" by (metis hex_encode_Nil_iff)
    then show ?thesis by (auto simp: rtmr_claim_def)
  qed
  have "map_of (PlatformData (tdx_extractClaims q body)) (''rtmr_'' @ show_int (int i)) =
      Some (AStr (rtmr_claim (Rtmrs body) i))"
  proof -
    have "show_int 0 = ''0''" "show_int 1 = ''1''" "show_int 2 = ''2''" "show_int 3 = ''3''" by code_simp+
    with i show ?thesis by (auto simp: tdx_extractClaims_def Let_def)
  qed
  with c assms show ?thesis by (auto simp: RTMR_Inr)
qed

text \<open>The run of a successful verification.\<close>

lemma VerifyQuoteBytes_Inr:
  assumes "VerifyQuoteBytes lib quoteBytes params platform opts = Inr res"
  obtains quote body tv vo where
    "QuoteToProto lib quoteBytes = Inr (QuoteV4 quote)" "QuoteBody quote = Some body"
    "fst (TdxQuoteVerify lib quote tv) = Inr ()"
    "case TdxTrustedRoots opts of Some roots \<Rightarrow> TvTrustedRoots tv = roots
        | None \<Rightarrow> IntelSGXRootCAPool lib = Inr (TvTrustedRoots tv)"
    "TvDisableTcbStatusCheck tv \<longleftrightarrow> AcceptedTCBStatuses (TdxBase opts) \<noteq> []"
    "1 \<le> length (TdAttributes body) \<and> bit (TdAttributes body ! 0) 0 \<longrightarrow> AllowDebug params"
    "tdx_validateOptions params = Inr vo" "TdxQuoteValidate lib quote vo = Inr ()"
    "SignatureValid res" "ResPlatform res = platform" "Claims res = tdx_extractClaims quote body"
    "if AcceptedTCBStatuses (TdxBase opts) = [] then ResTCBStatus res = None
     else \<exists>st. ResTCBStatus res = Some st \<and> TCBStatus st \<in> set (AcceptedTCBStatuses (TdxBase opts)) \<and>
            TCBStatus st \<noteq> status_name Revoked"
    "ReportDataMatch res = match_flag (ExpectedReportData params)"
    "InitDataMatch res = match_flag (ExpectedInitDataHash params)"
    "LaunchDigestMatch res = match_flag (ExpectedLaunchDigest params)"
    "EventlogVerified res = None" "RTMR3ReplayMatch res = None"
proof -
  from assms obtain anyQuote where any: "QuoteToProto lib quoteBytes = Inr anyQuote"
    unfolding VerifyQuoteBytes_def bindr_eq_Inr wrap_err_eq_Inr by blast
  with assms obtain quote where q: "QuoteToProto lib quoteBytes = Inr (QuoteV4 quote)"
    by (cases anyQuote) (simp_all add: VerifyQuoteBytes_def)
  with assms obtain body where b: "QuoteBody quote = Some body"
    by (cases "QuoteBody quote") (simp_all add: VerifyQuoteBytes_def)
  let ?acc = "AcceptedTCBStatuses (TdxBase opts)"
  let ?tv = "\<lambda>roots. \<lparr>TvCheckRevocations = CheckRevocations (TdxBase opts),
      TvGetCollateral = GetCollateral (TdxBase opts), TvNow = verificationTimeSet (TdxNow opts),
      TvTrustedRoots = roots, TvRecording = (0 < length ?acc), TvDisableTcbStatusCheck = (0 < length ?acc)\<rparr>"
  from assms obtain roots vo status u1 u2 u3 where
    chk: "checkAcceptedTCBStatuses (TdxBase opts) = Inr u1"
    and roots: "(case TdxTrustedRoots opts of Some roots \<Rightarrow> Inr roots
        | None \<Rightarrow> wrap_err (Errorf ''initialize Intel trust root'') (IntelSGXRootCAPool lib)) = Inr roots"
    and v: "fst (TdxQuoteVerify lib quote (?tv roots)) = Inr u2"
    and d: "\<not> (1 \<le> length (TdAttributes body) \<and> bit (TdAttributes body ! 0) 0 \<and> \<not> AllowDebug params)"
    and vo: "tdx_validateOptions params = Inr vo" "TdxQuoteValidate lib quote vo = Inr u3"
    and st: "(if 0 < length ?acc then
         bindr (evaluateTCBStatus (Collateral lib) (QuoteTcb quote) (snd (TdxQuoteVerify lib quote (?tv roots))) ?acc)
           (\<lambda>st. Inr (Some st)) else Inr None) = Inr status"
    and res: "Inr (zero_result\<lparr>SignatureValid := True, ResPlatform := platform,
                       Claims := tdx_extractClaims quote body,
                       CollateralVerified := GetCollateral (TdxBase opts), ResTCBStatus := status,
                       ReportDataMatch := match_flag (ExpectedReportData params),
                       InitDataMatch := match_flag (ExpectedInitDataHash params),
                       LaunchDigestMatch := match_flag (ExpectedLaunchDigest params)\<rparr>) = (Inr res :: err + verification_result)"
    unfolding VerifyQuoteBytes_def Let_def q b wrap_err_simps bindr_simps any_quote.case option.case
      bindr_eq_Inr wrap_err_eq_Inr if_Inl_eq_Inr by (elim exE conjE) (rule that; assumption)
  have "if ?acc = [] then ResTCBStatus res = None
     else \<exists>st. ResTCBStatus res = Some st \<and> TCBStatus st \<in> set ?acc \<and> TCBStatus st \<noteq> status_name Revoked"
  proof (cases "?acc = []")
    case True
    with st res show ?thesis by auto
  next
    case False
    with st obtain x where "evaluateTCBStatus (Collateral lib) (QuoteTcb quote) (snd (TdxQuoteVerify lib quote (?tv roots))) ?acc = Inr x"
      "status = Some x" by auto
    with False evaluate_accepted [of "TdxBase opts"] chk res show ?thesis by auto
  qed
  with q b roots v d vo show thesis
    by (intro that [of quote body "?tv roots" vo]) (use res in \<open>auto split: option.splits\<close>)
qed

lemma VerifyQuote_sound:
  assumes "tdx_contract lib" and "VerifyQuoteBytes lib quoteBytes params platform opts = Inr res"
  shows "SignatureValid res \<and> ResPlatform res = platform \<and>
    (\<exists>quote body tv. QuoteToProto lib quoteBytes = Inr (QuoteV4 quote) \<and> QuoteBody quote = Some body \<and>
       fst (TdxQuoteVerify lib quote tv) = Inr () \<and> Claims res = tdx_extractClaims quote body \<and>
       (case TdxTrustedRoots opts of Some roots \<Rightarrow> TvTrustedRoots tv = roots
        | None \<Rightarrow> IntelSGXRootCAPool lib = Inr (TvTrustedRoots tv)) \<and>
       (TvDisableTcbStatusCheck tv \<longleftrightarrow> AcceptedTCBStatuses (TdxBase opts) \<noteq> [])) \<and>
    (\<forall>d. ExpectedReportData params = Some d \<longrightarrow> length d \<le> 64 \<and> ReportData (Claims res) = pad d 64) \<and>
    (\<forall>d. ExpectedInitDataHash params = Some d \<longrightarrow> length d \<le> 48 \<and> InitData (Claims res) = pad d 48) \<and>
    (\<forall>d. ExpectedLaunchDigest params = Some d \<longrightarrow> LaunchMeasurement (Claims res) = Inr d) \<and>
    (\<forall>rs i b. ExpectedRTMRs params = Some rs \<longrightarrow> i < length rs \<longrightarrow> rs ! i = Some b \<longrightarrow>
       RTMR (Claims res) (int i) = Inr b) \<and>
    (\<forall>debug. DebugEnabled (Claims res) = Inr debug \<longrightarrow> debug \<longrightarrow> AllowDebug params) \<and>
    (if AcceptedTCBStatuses (TdxBase opts) = [] then ResTCBStatus res = None
     else \<exists>st. ResTCBStatus res = Some st \<and> TCBStatus st \<in> set (AcceptedTCBStatuses (TdxBase opts)) \<and>
            TCBStatus st \<noteq> status_name Revoked)"
proof -
  from assms(2) obtain quote body tv vo where
    v: "QuoteToProto lib quoteBytes = Inr (QuoteV4 quote)" "QuoteBody quote = Some body"
      "fst (TdxQuoteVerify lib quote tv) = Inr ()"
      "case TdxTrustedRoots opts of Some roots \<Rightarrow> TvTrustedRoots tv = roots
        | None \<Rightarrow> IntelSGXRootCAPool lib = Inr (TvTrustedRoots tv)"
      "TvDisableTcbStatusCheck tv \<longleftrightarrow> AcceptedTCBStatuses (TdxBase opts) \<noteq> []"
    and d: "1 \<le> length (TdAttributes body) \<and> bit (TdAttributes body ! 0) 0 \<longrightarrow> AllowDebug params"
    and vo: "tdx_validateOptions params = Inr vo" "TdxQuoteValidate lib quote vo = Inr ()"
    and res: "SignatureValid res" "ResPlatform res = platform" "Claims res = tdx_extractClaims quote body"
    and st: "if AcceptedTCBStatuses (TdxBase opts) = [] then ResTCBStatus res = None
     else \<exists>st. ResTCBStatus res = Some st \<and> TCBStatus st \<in> set (AcceptedTCBStatuses (TdxBase opts)) \<and>
            TCBStatus st \<noteq> status_name Revoked"
    by (rule VerifyQuoteBytes_Inr)
  note o = tdx_validateOptions_Inr [OF vo(1)]
  from assms(1) vo(2) v(2) have c:
    "TvReportData vo = Some x \<Longrightarrow> BodyReportData body = x" "TvMrConfigID vo = Some x \<Longrightarrow> MrConfigId body = x"
    "TvMrTd vo = Some x \<Longrightarrow> MrTd body = x"
    "i < length (TvRtmrs vo) \<Longrightarrow> TvRtmrs vo ! i = Some r \<Longrightarrow> r \<noteq> [] \<Longrightarrow> i < length (Rtmrs body) \<and> Rtmrs body ! i = r"
    for x i r unfolding tdx_contract_def by blast+
  have rtmr: "RTMR (Claims res) (int i) = Inr b"
    if "ExpectedRTMRs params = Some rs" "i < length rs" "rs ! i = Some b" for rs i b
  proof -
    from o(4) [OF that(1)] that(2,3) have "i < 4" "TvRtmrs vo ! i = Some b" "length (TvRtmrs vo) = 4" "length b = 48"
      by (auto dest: nth_mem)
    moreover from this have "b \<noteq> []" by auto
    ultimately show ?thesis using c(4) [of i b] by (simp add: res tdx_claims_RTMR)
  qed
  have "DebugEnabled (Claims res) = Inr debug \<longrightarrow> debug \<longrightarrow> AllowDebug params" for debug
    using d by (auto simp: res tdx_claims_debug)
  moreover have "ExpectedLaunchDigest params = Some x \<longrightarrow> LaunchMeasurement (Claims res) = Inr x" for x
    using o(3) c(3) by (auto simp: res)
  moreover have "ExpectedReportData params = Some x \<longrightarrow> length x \<le> 64 \<and> ReportData (Claims res) = pad x 64"
    "ExpectedInitDataHash params = Some x \<longrightarrow> length x \<le> 48 \<and> InitData (Claims res) = pad x 48" for x
    using o(1,2) c(1,2) by (auto simp: res)
  ultimately show ?thesis using v res st rtmr by blast
qed

lemma VerifyQuote_facts:
  assumes "tdx_contract lib" and "VerifyQuoteBytes lib quoteBytes params platform opts = Inr res"
  shows "SignatureValid res" "ResPlatform res = platform"
    and "ExpectedReportData params = Some d \<Longrightarrow> length d \<le> 64 \<and> ReportData (Claims res) = pad d 64"
    and "ExpectedLaunchDigest params = Some d \<Longrightarrow> LaunchMeasurement (Claims res) = Inr d"
    and "DebugEnabled (Claims res) = Inr debug \<Longrightarrow> debug \<Longrightarrow> AllowDebug params"
proof -
  note s = VerifyQuote_sound [OF assms]
  note s3 = conjunct2 [OF conjunct2 [OF conjunct2 [OF s]]]
  show "SignatureValid res" "ResPlatform res = platform" using s by blast+
  show "ExpectedReportData params = Some d \<Longrightarrow> length d \<le> 64 \<and> ReportData (Claims res) = pad d 64"
    using conjunct1 [OF s3] by blast
  show "ExpectedLaunchDigest params = Some d \<Longrightarrow> LaunchMeasurement (Claims res) = Inr d"
    using conjunct1 [OF conjunct2 [OF conjunct2 [OF s3]]] by blast
  show "DebugEnabled (Claims res) = Inr debug \<Longrightarrow> debug \<Longrightarrow> AllowDebug params"
    using conjunct1 [OF conjunct2 [OF conjunct2 [OF conjunct2 [OF conjunct2 [OF s3]]]]] by auto
qed

section \<open>Properties\<close>

text \<open>
  C13: what a verified TDX quote establishes. Given the documented behaviour of the field validation,
  a successful \<open>VerifyQuoteBytes\<close> means that go-tdx-guest verified the parsed quote against the
  caller's trust anchor, or the bundled Intel root when there is none, and that the returned claims
  are the quote's and carry what the caller expected: the report data and init data padded to
  their fields, the launch measurement, each expected register, and the debug attribute only if
  the caller allows it. With accepted TCB statuses set, the library's own status check is off and
  the reported status is one of the accepted ones, never Revoked; without, none is reported.
\<close>

theorem tdx_quote_verified:
  assumes "tdx_contract lib" and "VerifyQuoteBytes lib quoteBytes params platform opts = Inr res"
  shows "SignatureValid res \<and> ResPlatform res = platform \<and>
    (\<exists>quote body tv. QuoteToProto lib quoteBytes = Inr (QuoteV4 quote) \<and> QuoteBody quote = Some body \<and>
       fst (TdxQuoteVerify lib quote tv) = Inr () \<and> Claims res = tdx_extractClaims quote body \<and>
       (case TdxTrustedRoots opts of Some roots \<Rightarrow> TvTrustedRoots tv = roots
        | None \<Rightarrow> IntelSGXRootCAPool lib = Inr (TvTrustedRoots tv)) \<and>
       (TvDisableTcbStatusCheck tv \<longleftrightarrow> AcceptedTCBStatuses (TdxBase opts) \<noteq> [])) \<and>
    (\<forall>d. ExpectedReportData params = Some d \<longrightarrow> length d \<le> 64 \<and> ReportData (Claims res) = pad d 64) \<and>
    (\<forall>d. ExpectedInitDataHash params = Some d \<longrightarrow> length d \<le> 48 \<and> InitData (Claims res) = pad d 48) \<and>
    (\<forall>d. ExpectedLaunchDigest params = Some d \<longrightarrow> LaunchMeasurement (Claims res) = Inr d) \<and>
    (\<forall>rs i b. ExpectedRTMRs params = Some rs \<longrightarrow> i < length rs \<longrightarrow> rs ! i = Some b \<longrightarrow>
       RTMR (Claims res) (int i) = Inr b) \<and>
    (\<forall>debug. DebugEnabled (Claims res) = Inr debug \<longrightarrow> debug \<longrightarrow> AllowDebug params) \<and>
    (if AcceptedTCBStatuses (TdxBase opts) = [] then ResTCBStatus res = None
     else \<exists>st. ResTCBStatus res = Some st \<and> TCBStatus st \<in> set (AcceptedTCBStatuses (TdxBase opts)) \<and>
            TCBStatus st \<noteq> status_name Revoked)"
  using assms by (rule VerifyQuote_sound)

text \<open>
  C18: an accepted event log is bound to the signed quote. After a successful \<open>VerifyEvidence\<close> the
  flag \<open>EventlogVerified\<close> is set exactly when the evidence carries a log; then the log parses, the
  registers 0, 1 and 2 that the returned claims publish are the replays of its digests, and
  \<open>RTMR3ReplayMatch\<close> tells whether register 3 is.
\<close>

theorem tdx_eventlog_bound:
  assumes "tdx_VerifyEvidence lib ev params opts = Inr res"
  shows "SignatureValid res \<and> ResPlatform res = PlatformTDX \<and>
    (if CCEventlog ev = [] then EventlogVerified res = None \<and> RTMR3ReplayMatch res = None
     else EventlogVerified res = Some True \<and>
       (\<exists>ccel events r3. std_decode (CCEventlog ev) = Inr ccel \<and> ParseCCEL ccel = Inr events \<and>
          RTMR (Claims res) 0 = Inr (fold_digests (register_digests 0 events)) \<and>
          RTMR (Claims res) 1 = Inr (fold_digests (register_digests 1 events)) \<and>
          RTMR (Claims res) 2 = Inr (fold_digests (register_digests 2 events)) \<and>
          RTMR (Claims res) 3 = Inr r3 \<and>
          RTMR3ReplayMatch res = Some (r3 = fold_digests (register_digests 3 events))))"
proof -
  from assms obtain q res0 where q: "VerifyQuoteBytes lib q params PlatformTDX opts = Inr res0"
    and run: "(if CCEventlog ev = [] then Inr res0
      else bindr (wrap_err (Errorf ''decoding cc_eventlog'') (std_decode (CCEventlog ev))) (\<lambda>ccel.
       bindr (quoteRTMRs lib q) (\<lambda>rtmrs.
       bindr (VerifyCCELAgainstRTMRs ccel (rtmrs ! 0) (rtmrs ! 1) (rtmrs ! 2) (rtmrs ! 3)) (\<lambda>m.
       Inr (res0\<lparr>EventlogVerified := Some True, RTMR3ReplayMatch := Some m\<rparr>))))) = Inr res"
    unfolding tdx_VerifyEvidence_def bindr_eq_Inr by blast
  from q obtain quote body where v: "QuoteToProto lib q = Inr (QuoteV4 quote)" "QuoteBody quote = Some body"
    and r0: "SignatureValid res0" "ResPlatform res0 = PlatformTDX" "Claims res0 = tdx_extractClaims quote body"
      "EventlogVerified res0 = None" "RTMR3ReplayMatch res0 = None"
    by (rule VerifyQuoteBytes_Inr)
  show ?thesis
  proof (cases "CCEventlog ev = []")
    case True
    with run r0 show ?thesis by auto
  next
    case False
    with run obtain ccel rtmrs m where "std_decode (CCEventlog ev) = Inr ccel" "quoteRTMRs lib q = Inr rtmrs"
      "VerifyCCELAgainstRTMRs ccel (rtmrs ! 0) (rtmrs ! 1) (rtmrs ! 2) (rtmrs ! 3) = Inr m"
      "res = res0\<lparr>EventlogVerified := Some True, RTMR3ReplayMatch := Some m\<rparr>" by auto
    moreover from this(2) v have "rtmrs = Rtmrs body" "length (Rtmrs body) = 4"
      by (auto simp: quoteRTMRs_def Let_def)
    ultimately show ?thesis using False r0 tdx_claims_RTMR [of 0] tdx_claims_RTMR [of 1] tdx_claims_RTMR [of 2]
        tdx_claims_RTMR [of 3] by (auto simp: VerifyCCEL_Inr)
  qed
qed

section \<open>A library that keeps the contract\<close>

definition sample_td_body :: td_body where
  "sample_td_body = \<lparr>TeeTcbSvnField = replicate 16 0, MrSeam = [], MrSignerSeam = [], SeamAttributes = [],
     TdAttributes = replicate 8 0, Xfam = [], MrTd = replicate 48 7, MrConfigId = replicate 48 6,
     MrOwner = [], MrOwnerConfig = [], Rtmrs = replicate 4 Zero, BodyReportData = replicate 64 5\<rparr>"

definition sample_tdx_quote :: quote_v4 where
  "sample_tdx_quote = \<lparr>QuoteVersion = 4, QuoteTeeType = 129, QuoteBody = Some sample_td_body,
     QuoteTcb = sample_quote_tcb\<rparr>"

definition matches :: "bytes option \<Rightarrow> bytes \<Rightarrow> bool" where
  "matches e b \<longleftrightarrow> (case e of None \<Rightarrow> True | Some d \<Rightarrow> d = b)"

text \<open>Root pool 1 is Intel's, and the only one the quote chains to; the getter serves both bodies.\<close>

definition sample_tdx_lib :: "nat tdx_lib" where
  "sample_tdx_lib = \<lparr>QuoteToProto = (\<lambda>b. if b = [] then Inl (Errorf ''short'') else Inr (QuoteV4 sample_tdx_quote)),
     IntelSGXRootCAPool = Inr 1,
     TdxQuoteVerify = (\<lambda>q tv. (if TvTrustedRoots tv = 1 then Inr () else Inl (Errorf ''chain''),
        if TvRecording tv then [(''tcb00'', []), (''qe'', [])] else [])),
     TdxQuoteValidate = (\<lambda>q vo.
       case QuoteBody q of
         None \<Rightarrow> Inl (Errorf ''no body'')
       | Some body \<Rightarrow>
           if matches (TvReportData vo) (BodyReportData body) \<and> matches (TvMrConfigID vo) (MrConfigId body) \<and>
              matches (TvMrTd vo) (MrTd body) \<and>
              (TvRtmrs vo = [] \<or> list_all2 (\<lambda>e r. e = Some [] \<or> matches e r) (TvRtmrs vo) (Rtmrs body))
           then Inr () else Inl (Errorf ''policy'')),
     Collateral = sample_collateral\<rparr>"

lemma sample_tdx_contract: "tdx_contract sample_tdx_lib"
proof -
  have entry: "i < length rs \<Longrightarrow> list_all2 (\<lambda>e r. e = Some [] \<or> matches e r) rs xs \<Longrightarrow> rs ! i = Some r \<Longrightarrow> r \<noteq> [] \<Longrightarrow>
      i < length xs \<and> xs ! i = r" for rs xs i r
    by (auto simp: list_all2_conv_all_nth matches_def)
  have some: "matches (Some d) b \<longleftrightarrow> b = d" for d b by (auto simp: matches_def)
  show ?thesis
    unfolding tdx_contract_def
  proof (intro allI impI)
    fix q vo body assume "TdxQuoteValidate sample_tdx_lib q vo = Inr ()" "QuoteBody q = Some body"
    then have v: "matches (TvReportData vo) (BodyReportData body)" "matches (TvMrConfigID vo) (MrConfigId body)"
      "matches (TvMrTd vo) (MrTd body)"
      "TvRtmrs vo = [] \<or> list_all2 (\<lambda>e r. e = Some [] \<or> matches e r) (TvRtmrs vo) (Rtmrs body)"
      by (simp_all add: sample_tdx_lib_def)
    then show "(\<forall>d. TvReportData vo = Some d \<longrightarrow> BodyReportData body = d) \<and>
        (\<forall>d. TvMrConfigID vo = Some d \<longrightarrow> MrConfigId body = d) \<and>
        (\<forall>d. TvMrTd vo = Some d \<longrightarrow> MrTd body = d) \<and>
        (\<forall>i r. i < length (TvRtmrs vo) \<longrightarrow> TvRtmrs vo ! i = Some r \<longrightarrow> r \<noteq> [] \<longrightarrow>
           i < length (Rtmrs body) \<and> Rtmrs body ! i = r)"
      using entry by (auto simp: some)
  qed
qed

definition sample_tdx_params :: verify_params where
  "sample_tdx_params = \<lparr>ExpectedReportData = Some (replicate 64 5), ExpectedInitDataHash = Some (replicate 48 6),
     AllowDebug = False, MinTCB = None, ExpectedLaunchDigest = Some (replicate 48 7),
     ExpectedRTMRs = Some [None, Some Zero]\<rparr>"

definition sample_tdx_opts :: "nat tdx_verify_options" where
  "sample_tdx_opts = \<lparr>TdxBase = sample_options, TdxTrustedRoots = None, TdxNow = None\<rparr>"

lemma sample_quote_verified:
  "q \<noteq> [] \<Longrightarrow> \<exists>res. VerifyQuoteBytes sample_tdx_lib q sample_tdx_params PlatformTDX sample_tdx_opts = Inr res"
proof -
  assume "q \<noteq> []"
  have chk: "checkAcceptedTCBStatuses sample_options = Inr ()"
    by (auto simp: checkAcceptedTCBStatuses_Inr sample_options_def simp del: status_name.simps)
  have acc: "AcceptedTCBStatuses sample_options \<noteq> []" by (simp add: sample_options_def)
  have vo: "tdx_validateOptions sample_tdx_params = Inr \<lparr>TvReportData = Some (replicate 64 5),
      TvMrConfigID = Some (replicate 48 6), TvMrTd = Some (replicate 48 7), TvRtmrs = [None, Some Zero, None, None]\<rparr>"
    by (simp add: tdx_validateOptions_def sample_tdx_params_def)
  have val: "TdxQuoteValidate sample_tdx_lib sample_tdx_quote \<lparr>TvReportData = Some (replicate 64 5),
      TvMrConfigID = Some (replicate 48 6), TvMrTd = Some (replicate 48 7),
      TvRtmrs = [None, Some Zero, None, None]\<rparr> = Inr ()"
    by (simp add: sample_tdx_lib_def sample_tdx_quote_def sample_td_body_def matches_def numeral_eq_Suc)
  show ?thesis
    using chk acc vo val sample_evaluates \<open>q \<noteq> []\<close>
    by (simp add: VerifyQuoteBytes_def sample_tdx_lib_def sample_tdx_quote_def sample_td_body_def sample_tdx_opts_def Let_def)
qed

theorem tdx_quote_verified_witness:
  "\<exists>res. VerifyQuoteBytes sample_tdx_lib [1] sample_tdx_params PlatformTDX sample_tdx_opts = Inr res \<and>
     SignatureValid res \<and> LaunchMeasurement (Claims res) = Inr (replicate 48 7) \<and>
     RTMR (Claims res) 1 = Inr Zero"
proof -
  obtain res where res: "VerifyQuoteBytes sample_tdx_lib [1] sample_tdx_params PlatformTDX sample_tdx_opts = Inr res"
    using sample_quote_verified [of "[1]"] by auto
  from tdx_quote_verified [OF sample_tdx_contract res] have "SignatureValid res"
    "\<forall>d. ExpectedLaunchDigest sample_tdx_params = Some d \<longrightarrow> LaunchMeasurement (Claims res) = Inr d"
    "\<forall>rs i b. ExpectedRTMRs sample_tdx_params = Some rs \<longrightarrow> i < length rs \<longrightarrow> rs ! i = Some b \<longrightarrow>
       RTMR (Claims res) (int i) = Inr b" by blast+
  with res show ?thesis
    by (intro exI [of _ res]) (auto simp: sample_tdx_params_def dest: spec [of _ 1])
qed

text \<open>An event log of 33 zero bytes parses to no events, and the registers are zero.\<close>

definition sample_tdx_evidence :: tdx_evidence where
  "sample_tdx_evidence = \<lparr>Quote = ''AAAA'', CCEventlog = replicate 44 CHR ''A''\<rparr>"

lemma sample_evidence_verified:
  "\<exists>res. tdx_VerifyEvidence sample_tdx_lib sample_tdx_evidence sample_tdx_params sample_tdx_opts = Inr res"
proof -
  have q: "std_decode ''AAAA'' = Inr [0, 0, 0]" by code_simp
  have l: "std_decode (replicate 44 CHR ''A'') = Inr (replicate 33 0)" by code_simp
  have p: "ParseCCEL (replicate 33 0) = Inr []" by code_simp
  have "VerifyCCELAgainstRTMRs (replicate 33 0) Zero Zero Zero Zero = Inr True"
    by (simp add: VerifyCCEL_Inr p)
  moreover have "quoteRTMRs sample_tdx_lib [0, 0, 0] = Inr (replicate 4 Zero)"
    by (simp add: quoteRTMRs_def sample_tdx_lib_def sample_tdx_quote_def sample_td_body_def)
  moreover obtain res where "VerifyQuoteBytes sample_tdx_lib [0, 0, 0] sample_tdx_params PlatformTDX sample_tdx_opts = Inr res"
    using sample_quote_verified [of "[0, 0, 0]"] by auto
  ultimately show ?thesis
    using q l by (simp add: tdx_VerifyEvidence_def sample_tdx_evidence_def)
qed

theorem tdx_eventlog_bound_witness:
  "\<exists>res events. tdx_VerifyEvidence sample_tdx_lib sample_tdx_evidence sample_tdx_params sample_tdx_opts = Inr res \<and>
     EventlogVerified res = Some True \<and>
     RTMR (Claims res) 0 = Inr (fold_digests (register_digests 0 events))"
proof -
  obtain res where res: "tdx_VerifyEvidence sample_tdx_lib sample_tdx_evidence sample_tdx_params sample_tdx_opts = Inr res"
    using sample_evidence_verified ..
  have "CCEventlog sample_tdx_evidence \<noteq> []" by (simp add: sample_tdx_evidence_def)
  with res tdx_eventlog_bound [OF res] show ?thesis by auto
qed

end
