(* ===== verification/VtpmSample.thy ===== *)
theory VtpmSample
  imports Base64
begin

text \<open>
  A vTPM that verifies: the inverses of the decoders (a \<open>TPM2B_PUBLIC\<close> image, an RSA signer) and from them evidence for any quote, on which the verifiers' theorems are applied.
\<close>

section \<open>Signing\<close>

lemma power_modulo_eq: "power_modulo b e m = b ^ e mod m"
proof (induction b e m rule: power_modulo.induct)
  case (1 b e m)
  show ?case
  proof (cases "e = 0")
    case False
    have "(b * b) ^ (e div 2) = b ^ (2 * (e div 2))" by (simp add: power_mult power2_eq_square)
    then have h: "power_modulo (b * b mod m) (e div 2) m = b ^ (2 * (e div 2)) mod m"
      using 1 False by (simp add: power_mod)
    show ?thesis
    proof (cases "odd e")
      case True
      then have "2 * (e div 2) + 1 = e" by simp
      then have "b ^ e = b * b ^ (2 * (e div 2))" by (metis power_Suc Suc_eq_plus1)
      with False h True show ?thesis by (subst power_modulo.simps) (simp add: Let_def mod_mult_right_eq)
    next
      case even: False
      then have "2 * (e div 2) = e" by simp
      with False h even show ?thesis by (subst power_modulo.simps) (simp add: Let_def)
    qed
  qed (simp add: power_modulo.simps)
qed

text \<open>The message of a 1024-bit signature over a digest, as a number.\<close>

definition encoded :: "bytes \<Rightarrow> bytes" where
  "encoded d = [0, 1] @ replicate 74 255 @ [0] @ sha256_prefix @ d"

definition sample_sig :: "bytes \<Rightarrow> nat" where
  "sample_sig d = (if odd (be_nat (encoded d)) then 5 * 2 ^ 339 else 5 * 2 ^ 339 + 1)"

text \<open>A modulus under which \<open>sample_sig d\<close> is a cube root of the message.\<close>

definition sample_modulus :: "bytes \<Rightarrow> nat" where
  "sample_modulus d = sample_sig d ^ 3 - be_nat (encoded d)"

lemma encoded_lt: "length d = 32 \<Longrightarrow> be_nat (encoded d) < 2 ^ 1009"
proof -
  assume "length d = 32"
  then have l: "length (replicate 74 255 @ [0] @ sha256_prefix @ d) = 126" by (simp add: sha256_prefix_def)
  have app: "be_nat (a @ b) = be_nat a * 256 ^ length b + be_nat b" for a b
    by (induction b rule: rev_induct) (simp_all add: algebra_simps flip: append_assoc)
  have "be_nat (encoded d) = 256 ^ 126 + be_nat (replicate 74 255 @ [0] @ sha256_prefix @ d)"
    using app [of "[0, 1]" "replicate 74 255 @ [0] @ sha256_prefix @ d"] l
    by (simp add: encoded_def be_nat_def)
  also have "\<dots> < 256 ^ 126 + 256 ^ 126" using be_nat_lt [of "replicate 74 255 @ [0] @ sha256_prefix @ d"] l by simp
  also have "\<dots> = 2 ^ 1009" by simp
  finally show ?thesis .
qed

lemma sample_modulus_facts:
  assumes "length d = 32"
  shows "2 ^ 1023 \<le> sample_modulus d" "sample_modulus d < 2 ^ 1024" "odd (sample_modulus d)"
    "sample_sig d < sample_modulus d" "sample_sig d ^ 3 mod sample_modulus d = be_nat (encoded d)"
proof -
  let ?e = "be_nat (encoded d)" and ?s = "sample_sig d"
  have e: "?e < 2 ^ 1009" using encoded_lt assms .
  have s: "?s = 5 * 2 ^ 339 \<or> ?s = 5 * 2 ^ 339 + 1" by (simp add: sample_sig_def)
  have lo: "2 ^ 1023 + 2 ^ 1009 \<le> ?s ^ 3" "?s ^ 3 < 2 ^ 1024" "?s < 2 ^ 1023"
    using s by (elim disjE; simp)+
  show n: "2 ^ 1023 \<le> sample_modulus d" using lo e unfolding sample_modulus_def by linarith
  show "sample_modulus d < 2 ^ 1024" using lo unfolding sample_modulus_def by linarith
  show "odd (sample_modulus d)"
    using lo e unfolding sample_modulus_def by (simp add: sample_sig_def)
  show "?s < sample_modulus d" using lo n by linarith
  have "?s ^ 3 = ?e + sample_modulus d" using lo e unfolding sample_modulus_def by linarith
  moreover have "?e < sample_modulus d"
  proof -
    have "(2::nat) ^ 1009 \<le> 2 ^ 1023" by (rule power_increasing) simp_all
    with e n show ?thesis by linarith
  qed
  ultimately show "?s ^ 3 mod sample_modulus d = ?e" by simp
qed

lemma encoded_length: "length d = 32 \<Longrightarrow> length (encoded d) = 128"
  by (simp add: encoded_def sha256_prefix_def)

lemma byte_width_eq: "256 ^ n \<le> v \<Longrightarrow> v < 256 ^ Suc n \<Longrightarrow> byte_width v = Suc n"
proof (induction n arbitrary: v)
  case 0
  then show ?case by (simp add: byte_width.simps [of v] byte_width.simps [of 0])
next
  case (Suc n)
  then have "256 ^ n \<le> v div 256" "v div 256 < 256 ^ Suc n"
    by (simp_all add: less_eq_div_iff_mult_less_eq less_mult_imp_div_less mult.commute)
  with Suc.IH [of "v div 256"] Suc.prems show ?case by (subst byte_width.simps) auto
qed

text \<open>The signature verifies, under exponent 3.\<close>

lemma sample_signature:
  assumes "length d = 32"
  shows "VerifyPKCS1v15 \<lparr>RsaN = sample_modulus d, RsaE = 3\<rparr> d (be_bytes 128 (sample_sig d))"
proof -
  note f = sample_modulus_facts [OF assms]
  have "(256::nat) ^ 127 \<le> 2 ^ 1023" "(2::nat) ^ 1024 \<le> 256 ^ Suc 127" by simp_all
  then have w: "byte_width (sample_modulus d) = 128"
    using byte_width_eq [of 127 "sample_modulus d"] f(1,2) by linarith
  have "(2::nat) ^ 1024 \<le> 256 ^ 128" by simp
  then have "sample_sig d < 256 ^ 128" using f(2,4) by linarith
  then have s: "be_nat (be_bytes 128 (sample_sig d)) = sample_sig d" by (rule be_nat_be_bytes_small)
  have "be_bytes 128 (be_nat (encoded d)) = encoded d"
    using encoded_length [OF assms] by (intro be_bytes_be_nat) simp
  then have "be_bytes 128 (power_modulo (sample_sig d) 3 (sample_modulus d)) = encoded d"
    by (simp add: power_modulo_eq f(5) del: power_numeral)
  with s w f show ?thesis by (simp add: VerifyPKCS1v15_def encoded_def)
qed

section \<open>The key and the envelope\<close>

definition sample_public :: "nat \<Rightarrow> bytes" where
  "sample_public n = [0, 0, 0, 1, 0, 11, 0, 0, 0, 0, 0, 0, 0, 16, 0, 16, 4, 0, 0, 0, 0, 3, 0, 128] @ be_bytes 128 n"

lemma extract_sample_public:
  assumes "n < 2 ^ 1024"
  shows "extractAKPubFromTPM2BPublic (sample_public n) = Inr \<lparr>RsaN = n, RsaE = 3\<rparr>"
proof -
  have "(2::nat) ^ 1024 \<le> 256 ^ 128" by simp
  with assms have n: "be_nat (be_bytes 128 n) = n" by (intro be_nat_be_bytes_small) linarith
  have ne: "be_bytes 128 n \<noteq> []" by (metis length_be_bytes length_0_conv numeral_neq_zero)
  have r: "readBEU16 (sample_public n) off = Inr (be_nat (take 2 (drop off (sample_public n))))" if "off \<le> 22" for off
    using that by (simp add: readBEU16_def sample_public_def subslice_def)
  have v: "be_nat (take 2 (drop 0 (sample_public n))) = 0" "be_nat (take 2 (drop 2 (sample_public n))) = 1"
    "be_nat (take 2 (drop 4 (sample_public n))) = 11" "be_nat (take 2 (drop 10 (sample_public n))) = 0"
    "be_nat (take 2 (drop 12 (sample_public n))) = 16" "be_nat (take 2 (drop 14 (sample_public n))) = 16"
    "be_nat (take 2 (drop 16 (sample_public n))) = 1024" "be_nat (take 2 (drop 22 (sample_public n))) = 128"
    by (simp_all add: sample_public_def be_nat_def)
  show ?thesis
    by (simp add: extractAKPubFromTPM2BPublic_def Let_def r v rsaPubFromBytes_def n ne)
      (simp add: sample_public_def subslice_def be_nat_def n [unfolded be_nat_def])
qed

definition sample_hcl :: "nat \<Rightarrow> bytes \<Rightarrow> hcl_report" where
  "sample_hcl ty vd = \<lparr>TEEReport = replicate 1184 0, ReportType = ty, VarData = vd\<rparr>"

definition sample_hcl_bytes :: "nat \<Rightarrow> bytes \<Rightarrow> bytes" where
  "sample_hcl_bytes ty vd = hcl_image (replicate 28 0) (sample_hcl ty vd) (replicate 8 0) (replicate 4 0) 0"

text \<open>A vTPM over a nonce and a value of register 8.\<close>

definition vtpm_message :: "bytes \<Rightarrow> bytes \<Rightarrow> bytes" where
  "vtpm_message nonce v = sample_quote nonce v"

definition vtpm_public :: "bytes \<Rightarrow> bytes \<Rightarrow> bytes" where
  "vtpm_public nonce v = sample_public (sample_modulus (sha256 (vtpm_message nonce v)))"

definition vtpm_signature :: "bytes \<Rightarrow> bytes \<Rightarrow> bytes" where
  "vtpm_signature nonce v = be_bytes 128 (sample_sig (sha256 (vtpm_message nonce v)))"

definition vtpm_quote :: "bytes \<Rightarrow> bytes \<Rightarrow> tpm_quote" where
  "vtpm_quote nonce v = \<lparr>Signature = vtpm_signature nonce v, Message = vtpm_message nonce v, PCRs = sample_bank v\<rparr>"

definition vtpm_raw :: "bytes \<Rightarrow> bytes \<Rightarrow> raw_tpm_quote" where
  "vtpm_raw nonce v = \<lparr>RawSignature = hex_encode (vtpm_signature nonce v),
     RawMessage = hex_encode (vtpm_message nonce v), RawPCRs = map hex_encode (sample_bank v)\<rparr>"

lemma vtpm_decodes: "DecodeTPMQuote (vtpm_raw nonce v) = Inr (vtpm_quote nonce v)"
proof -
  have "map_each (\<lambda>p. wrap_err w (hex_decode p)) (map hex_encode b) = Inr b" for w b
    by (induction b) simp_all
  then show ?thesis by (simp add: DecodeTPMQuote_def vtpm_raw_def vtpm_quote_def)
qed

lemma vtpm_signature_valid:
  "VerifyTPMSignature (\<lambda>_. Inl e) (vtpm_signature nonce v) (vtpm_message nonce v) (vtpm_public nonce v) = Inr ()"
proof -
  let ?d = "sha256 (vtpm_message nonce v)"
  have "length ?d = 32" by simp
  note f = sample_modulus_facts(2) [OF this] and s = sample_signature [OF this]
  have "ExtractAKPub (\<lambda>_. Inl e) (vtpm_public nonce v) = Inr \<lparr>RsaN = sample_modulus ?d, RsaE = 3\<rparr>"
    using extract_sample_public [OF f] by (simp add: ExtractAKPub_def extractAKPubFromJWK_def vtpm_public_def)
  with s show ?thesis by (simp add: VerifyTPMSignature_def vtpm_signature_def)
qed

lemma sample_public_ok: "length (sample_public n) = 152" "odd n \<Longrightarrow> last (sample_public n) \<noteq> 0"
proof -
  assume "odd n"
  have "\<not> 256 dvd n" using \<open>odd n\<close> dvd_trans [of 2 256 n] by auto
  then have "n mod 256 \<noteq> 0" by (simp add: dvd_eq_mod_eq_0)
  then have "word_of_nat (n mod 256) \<noteq> (0::byte)"
    by (metis mod_less_divisor unat_0 unat_of_byte zero_less_numeral)
  moreover have "last (be_bytes (Suc 127) n) = word_of_nat (n mod 256)" by (simp only: be_bytes.simps last_snoc)
  moreover have "be_bytes 128 n \<noteq> []" by (metis length_be_bytes length_0_conv numeral_neq_zero)
  ultimately show "last (sample_public n) \<noteq> 0" by (simp add: sample_public_def)
qed (simp add: sample_public_def)

lemma vtpm_hcl_parses:
  assumes "ty < 4294967296"
  shows "ParseHCLReport (sample_hcl_bytes ty (vtpm_public nonce v)) = Inr (sample_hcl ty (vtpm_public nonce v))"
proof -
  have "length (sha256 (vtpm_message nonce v)) = 32" by simp
  from sample_modulus_facts(3) [OF this] have "last (vtpm_public nonce v) \<noteq> 0" "length (vtpm_public nonce v) = 152"
    by (simp_all add: vtpm_public_def sample_public_ok)
  moreover from this have "vtpm_public nonce v \<noteq> []" by auto
  ultimately have "hcl_ok (replicate 28 0) (sample_hcl ty (vtpm_public nonce v)) (replicate 8 0) (replicate 4 0) 0"
    using assms by (simp add: hcl_ok_def sample_hcl_def)
  then show ?thesis
    by (subst ParseHCLReport_Inr) (metis append_Nil2 sample_hcl_bytes_def)
qed

lemma vtpm_sizes:
  assumes "length nonce \<le> 64"
  shows "CheckFieldSize (length (RawMessage (vtpm_raw nonce v))) = Inr ()"
    "CheckFieldSize (length (RawSignature (vtpm_raw nonce v))) = Inr ()"
    "CheckFieldSize (length (b64url_encode (sample_hcl_bytes ty (vtpm_public nonce v)))) = Inr ()"
proof -
  have "length (b64_digits b) \<le> 2 * length b + 2" for b by (induction b rule: b64_digits.induct) simp_all
  moreover have "length (sample_hcl_bytes ty (vtpm_public nonce v)) = 1388"
    by (simp add: sample_hcl_bytes_def hcl_image_def sample_hcl_def vtpm_public_def sample_public_ok)
  ultimately have "length (b64url_encode (sample_hcl_bytes ty (vtpm_public nonce v))) \<le> 2 * 1388 + 2"
    by (metis b64url_encode_def length_map)
  then show "CheckFieldSize (length (b64url_encode (sample_hcl_bytes ty (vtpm_public nonce v)))) = Inr ()" by simp
qed (use assms in \<open>simp_all add: vtpm_raw_def vtpm_signature_def vtpm_message_def sample_quote_def quote_image_def
      sample_attest_def selection_image_def\<close>)

lemma vtpm_nonce:
  assumes "length nonce \<le> 64"
  shows "ExtractTPMNonce (vtpm_message nonce v) = Inr nonce"
  using assms unfolding vtpm_message_def sample_quote_def quote_image_split ExtractTPMNonce_Inr
  by - (rule exI [of _ "[0x80, 0x18]"], rule exI [of _ "[]"], simp add: sample_attest_def)

end
