(* ===== verification/Azure.thy ===== *)
theory Azure
  imports SnpVerify TdxVerify VtpmSample
begin

text \<open>
  The Azure verifiers \<open>attestation/azsnp/azsnp.go\<close> and \<open>attestation/aztdx/aztdx.go\<close>: an HCL envelope
  whose hardware report signs the hash of the var data, whose attestation key signs the vTPM quote.

  The hardware layers are those of \<open>SnpVerify\<close> and \<open>TdxVerify\<close>, the vTPM layer that of \<open>Tpm\<close>.
  \<open>encoding/json\<close> is the parameter \<open>az_json\<close>: it decodes the two evidence objects and the key set.
\<close>

section \<open>Evidence\<close>

record az_snp_evidence =
  AzSnpHCLReport :: string
  AzVcek :: string
  AzSnpVersion :: int
  AzSnpTPMQuote :: "raw_tpm_quote option"

record az_tdx_evidence =
  AzTdxHCLReport :: string
  AzTDQuote :: string
  AzTdxVersion :: int
  AzTdxTPMQuote :: "raw_tpm_quote option"

record az_json =
  UnmarshalAzSnp :: "bytes \<Rightarrow> err + az_snp_evidence"
  UnmarshalAzTdx :: "bytes \<Rightarrow> err + az_tdx_evidence"
  UnmarshalJWKS :: "bytes \<Rightarrow> err + jwk list"

definition azsnp_checkFieldSizes :: "az_snp_evidence \<Rightarrow> err + unit" where
  "azsnp_checkFieldSizes ev =
     bindr (wrap_err (Errorf ''az-snp'') (CheckFieldSize (length (AzSnpHCLReport ev)))) (\<lambda>_.
     bindr (wrap_err (Errorf ''az-snp'') (CheckFieldSize (length (AzVcek ev)))) (\<lambda>_.
     case AzSnpTPMQuote ev of
       None \<Rightarrow> Inr ()
     | Some q \<Rightarrow>
         bindr (wrap_err (Errorf ''az-snp'') (CheckFieldSize (length (RawMessage q)))) (\<lambda>_.
         wrap_err (Errorf ''az-snp'') (CheckFieldSize (length (RawSignature q))))))"

record az_decoded =
  DecHcl :: hcl_report
  DecVcek :: bytes
  DecQuote :: "tpm_quote option"

definition azsnp_decode :: "az_snp_evidence \<Rightarrow> err + az_decoded" where
  "azsnp_decode ev =
     bindr (wrap_err (Errorf ''decoding hcl_report'') (DecodeBase64URL (AzSnpHCLReport ev))) (\<lambda>hclBytes.
     bindr (ParseHCLReport hclBytes) (\<lambda>hcl.
     if ReportType hcl \<noteq> HCLReportTypeSNP then Inl (Errorf ''HCL report_type'')
     else
       bindr (wrap_err (Errorf ''decoding vcek'') (DecodeBase64URL (AzVcek ev))) (\<lambda>vcek.
       case AzSnpTPMQuote ev of
         None \<Rightarrow> Inr \<lparr>DecHcl = hcl, DecVcek = vcek, DecQuote = None\<rparr>
       | Some raw \<Rightarrow>
           bindr (wrap_err (Errorf ''decoding tpm_quote'') (DecodeTPMQuote raw)) (\<lambda>q.
           Inr \<lparr>DecHcl = hcl, DecVcek = vcek, DecQuote = Some q\<rparr>))))"

definition aztdx_checkFieldSizes :: "az_tdx_evidence \<Rightarrow> err + unit" where
  "aztdx_checkFieldSizes ev =
     bindr (wrap_err (Errorf ''az-tdx'') (CheckFieldSize (length (AzTdxHCLReport ev)))) (\<lambda>_.
     bindr (wrap_err (Errorf ''az-tdx'') (CheckFieldSize (length (AzTDQuote ev)))) (\<lambda>_.
     case AzTdxTPMQuote ev of
       None \<Rightarrow> Inr ()
     | Some q \<Rightarrow>
         bindr (wrap_err (Errorf ''az-tdx'') (CheckFieldSize (length (RawMessage q)))) (\<lambda>_.
         wrap_err (Errorf ''az-tdx'') (CheckFieldSize (length (RawSignature q))))))"

definition aztdx_decode :: "az_tdx_evidence \<Rightarrow> err + (hcl_report \<times> bytes \<times> tpm_quote)" where
  "aztdx_decode ev =
     (case AzTdxTPMQuote ev of
        None \<Rightarrow> Inl (Errorf ''az-tdx evidence is missing the required tpm_quote'')
      | Some raw \<Rightarrow>
          bindr (wrap_err (Errorf ''decoding hcl_report'') (DecodeBase64URL (AzTdxHCLReport ev))) (\<lambda>hclBytes.
          bindr (ParseHCLReport hclBytes) (\<lambda>hcl.
          if ReportType hcl \<noteq> HCLReportTypeTDX then Inl (Errorf ''HCL report_type'')
          else
            bindr (wrap_err (Errorf ''decoding td_quote'') (DecodeBase64URL (AzTDQuote ev))) (\<lambda>tdQuoteBytes.
            bindr (wrap_err (Errorf ''decoding tpm_quote'') (DecodeTPMQuote raw)) (\<lambda>quote.
            Inr (hcl, tdQuoteBytes, quote))))))"

section \<open>Verification\<close>

text \<open>\<open>hwParams\<close>: every parameter but the two that bind at the vTPM layer.\<close>

definition hw_params :: "verify_params \<Rightarrow> verify_params" where
  "hw_params params = params\<lparr>ExpectedReportData := None, ExpectedInitDataHash := None\<rparr>"

definition azsnp_VerifyEvidence ::
    "az_json \<Rightarrow> 'root sev_lib \<Rightarrow> bytes \<Rightarrow> verify_params \<Rightarrow> snp_options \<Rightarrow> err + verification_result" where
  "azsnp_VerifyEvidence js lib inner params opts =
     bindr (wrap_err (Errorf ''parsing az-snp evidence'') (UnmarshalAzSnp js inner)) (\<lambda>ev.
     if AzSnpVersion ev \<noteq> 1 then Inl (Errorf ''unsupported az-snp evidence version'')
     else
       bindr (azsnp_checkFieldSizes ev) (\<lambda>_.
       bindr (azsnp_decode ev) (\<lambda>d.
       case DecQuote d of
         None \<Rightarrow> Inl (Errorf ''az-snp evidence is missing the required tpm_quote'')
       | Some quote \<Rightarrow>
           bindr (wrap_err (Errorf ''az-snp vTPM'')
             (VerifyTPMSignature (UnmarshalJWKS js) (Signature quote) (Message quote) (VarData (DecHcl d)))) (\<lambda>_.
           bindr (wrap_err (Errorf ''az-snp vTPM'')
             (CheckReportData (Message quote) (ExpectedReportData params))) (\<lambda>reportDataMatch.
           bindr (wrap_err (Errorf ''az-snp vTPM'') (VerifyTPMPCRs (Message quote) (PCRs quote))) (\<lambda>_.
           bindr (VerifyReport lib (TEEReport (DecHcl d)) (DecVcek d) (hw_params params) PlatformAzSNP
             MinReportVersionAzure opts) (\<lambda>hw.
           bindr (VerifyHCLVarDataBinding (ReportData (Claims hw)) (VarData (DecHcl d))) (\<lambda>_.
           bindr (CheckInitData (Message quote) (PCRs quote) (ExpectedInitDataHash params)) (\<lambda>initDataMatch.
           Inr (hw\<lparr>Claims := ApplyTPMClaims (Claims hw) (PCRs quote) (Message quote),
                  ReportDataMatch := reportDataMatch, InitDataMatch := initDataMatch\<rparr>))))))))))"

definition aztdx_VerifyEvidence ::
    "az_json \<Rightarrow> 'root tdx_lib \<Rightarrow> bytes \<Rightarrow> verify_params \<Rightarrow> 'root tdx_verify_options \<Rightarrow> err + verification_result"
where
  "aztdx_VerifyEvidence js lib inner params opts =
     bindr (wrap_err (Errorf ''parsing az-tdx evidence'') (UnmarshalAzTdx js inner)) (\<lambda>ev.
     if AzTdxVersion ev \<noteq> 1 then Inl (Errorf ''unsupported az-tdx evidence version'')
     else
       bindr (aztdx_checkFieldSizes ev) (\<lambda>_.
       bindr (aztdx_decode ev) (\<lambda>(hcl, tdQuoteBytes, quote).
       bindr (wrap_err (Errorf ''az-tdx vTPM'')
         (VerifyTPMSignature (UnmarshalJWKS js) (Signature quote) (Message quote) (VarData hcl))) (\<lambda>_.
       bindr (wrap_err (Errorf ''az-tdx vTPM'')
         (CheckReportData (Message quote) (ExpectedReportData params))) (\<lambda>reportDataMatch.
       bindr (wrap_err (Errorf ''az-tdx vTPM'') (VerifyTPMPCRs (Message quote) (PCRs quote))) (\<lambda>_.
       bindr (VerifyQuoteBytes lib tdQuoteBytes (hw_params params) PlatformAzTDX opts) (\<lambda>hw.
       bindr (VerifyHCLVarDataBinding (ReportData (Claims hw)) (VarData hcl)) (\<lambda>_.
       bindr (CheckInitData (Message quote) (PCRs quote) (ExpectedInitDataHash params)) (\<lambda>initDataMatch.
       Inr (hw\<lparr>Claims := ApplyTPMClaims (Claims hw) (PCRs quote) (Message quote),
              ReportDataMatch := reportDataMatch, InitDataMatch := initDataMatch\<rparr>))))))))))"

section \<open>The chain\<close>

text \<open>
  What both verifiers establish of the vTPM layer: from the hardware report data to the var data,
  to its key, to the quote, to the nonce, the registers and the init data.
\<close>

definition vtpm_chain ::
    "(bytes \<Rightarrow> err + jwk list) \<Rightarrow> verify_params \<Rightarrow> hcl_report \<Rightarrow> tpm_quote \<Rightarrow> verification_result \<Rightarrow> bool"
where
  "vtpm_chain unmarshal params hcl q res \<longleftrightarrow>
     take 32 (ReportData (Claims res)) = sha256 (VarData hcl) \<and>
     (\<exists>pub. ExtractAKPub unmarshal (VarData hcl) = Inr pub \<and>
        VerifyPKCS1v15 pub (sha256 (Message q)) (Signature q)) \<and>
     (\<exists>sel. parseQuoteInfo (Message q) = Inr (sel, sha256 (pcr_input (PCRs q) sel)) \<and>
        (\<forall>i\<in>set sel. i < length (PCRs q)) \<and>
        (\<forall>i v. PCR (Claims res) i = Inr v \<longrightarrow> i \<in> int ` set sel \<and> v = PCRs q ! nat i) \<and>
        (\<forall>h. ExpectedInitDataHash params = Some h \<longrightarrow>
           InitDataMatch res = Some True \<and> 8 \<in> set sel \<and> PCRs q ! 8 = sha256 (replicate 32 0 @ h))) \<and>
     (\<forall>n. ExpectedReportData params = Some n \<longrightarrow>
        ReportDataMatch res = Some True \<and> ExtractTPMNonce (Message q) = Inr n \<and>
        SignedData (Claims res) = strip_trailing 0 n)"

text \<open>The claims a vTPM quote adds to leave the hardware's own readings alone.\<close>

lemma ApplyTPMClaims_sel [simp]:
  "LaunchDigest (ApplyTPMClaims c pcrs m) = LaunchDigest c"
  "ReportData (ApplyTPMClaims c pcrs m) = ReportData c"
  "InitData (ApplyTPMClaims c pcrs m) = InitData c"
  "TCB (ApplyTPMClaims c pcrs m) = TCB c"
  by (simp_all add: ApplyTPMClaims_def Let_def split: sum.splits)

lemma map_of_ApplyTPMClaims [simp]:
  "k \<noteq> ''tpm'' \<Longrightarrow> map_of (PlatformData (ApplyTPMClaims c pcrs m)) k = map_of (PlatformData c) k"
  by (auto simp: ApplyTPMClaims_def Let_def split: sum.splits)

lemma nested_bool_ApplyTPMClaims [simp]:
  "k \<noteq> ''tpm'' \<Longrightarrow> nested_bool (ApplyTPMClaims c pcrs m) k j = nested_bool c k j"
  by (simp add: nested_bool_def)

lemma ApplyTPMClaims_readings [simp]:
  "LaunchMeasurement (ApplyTPMClaims c pcrs m) = LaunchMeasurement c"
  "RTMR (ApplyTPMClaims c pcrs m) i = RTMR c i"
  "DebugEnabled (ApplyTPMClaims c pcrs m) = DebugEnabled c"
  by (simp_all add: LaunchMeasurement_def RTMR_def DebugEnabled_def split: option.split)

lemma VerifyTPMSignature_Inr:
  "VerifyTPMSignature um sig m vd = Inr u \<longleftrightarrow>
     (\<exists>pub. ExtractAKPub um vd = Inr pub \<and> VerifyPKCS1v15 pub (sha256 m) sig)"
  by (auto simp: VerifyTPMSignature_def)

lemma VerifyHCLVarDataBinding_Inr:
  "VerifyHCLVarDataBinding rd vd = Inr u \<longleftrightarrow> 32 \<le> length rd \<and> take 32 rd = sha256 vd"
  by (auto simp: VerifyHCLVarDataBinding_def not_less)

lemma vtpm_chain_result:
  assumes "VerifyTPMSignature um (Signature q) (Message q) (VarData hcl) = Inr u1"
    and "CheckReportData (Message q) (ExpectedReportData params) = Inr rd"
    and "VerifyTPMPCRs (Message q) (PCRs q) = Inr u2"
    and "VerifyHCLVarDataBinding (ReportData (Claims hw)) (VarData hcl) = Inr u3"
    and "CheckInitData (Message q) (PCRs q) (ExpectedInitDataHash params) = Inr initd"
  shows "vtpm_chain um params hcl q
    (hw\<lparr>Claims := ApplyTPMClaims (Claims hw) (PCRs q) (Message q), ReportDataMatch := rd, InitDataMatch := initd\<rparr>)"
proof -
  from assms(3) obtain sel where sel: "parseQuoteInfo (Message q) = Inr (sel, sha256 (pcr_input (PCRs q) sel))"
    "\<forall>i\<in>set sel. i < length (PCRs q)" by (auto simp: VerifyTPMPCRs_Inr pcr_input_def)
  then have signed: "SignedPCRSelection (Message q) = Inr (sort sel)" by (simp add: SignedPCRSelection_def)
  have "i \<in> int ` set sel \<and> v = PCRs q ! nat i"
    if "PCR (ApplyTPMClaims c (PCRs q) (Message q)) i = Inr v" for c i v
    using that signed by (auto simp: ApplyTPMClaims_PCR)
  moreover have "initd = Some True \<and> 8 \<in> set sel \<and> PCRs q ! 8 = sha256 (replicate 32 0 @ h)"
    if "ExpectedInitDataHash params = Some h" for h
    using assms(5) sel(1) by (auto simp: that CheckInitData_Some)
  moreover have "rd = Some True \<and> ExtractTPMNonce (Message q) = Inr n \<and>
      SignedData (ApplyTPMClaims c (PCRs q) (Message q)) = strip_trailing 0 n"
    if "ExpectedReportData params = Some n" for n c
    using assms(2) by (auto simp: that CheckReportData_Inr ApplyTPMClaims_def stripTrailingNulls_def Let_def)
  ultimately show ?thesis using sel assms(1,4)
    unfolding vtpm_chain_def VerifyTPMSignature_Inr VerifyHCLVarDataBinding_Inr by auto
qed

text \<open>The match flags the two checks return.\<close>

lemma CheckReportData_flag: "CheckReportData m e = Inr b \<Longrightarrow> b = match_flag e"
  by (cases e) (simp_all add: CheckReportData_Inr)

lemma CheckInitData_flag: "CheckInitData m pcrs e = Inr b \<Longrightarrow> b = match_flag e"
  by (cases e) (simp_all add: CheckInitData_Some)

text \<open>The runs of the two verifiers.\<close>

lemma azsnp_Inr:
  assumes "azsnp_VerifyEvidence js lib inner params opts = Inr res"
  obtains ev hclBytes hcl vcek raw q hw where
    "UnmarshalAzSnp js inner = Inr ev" "AzSnpVersion ev = 1"
    "DecodeBase64URL (AzSnpHCLReport ev) = Inr hclBytes" "ParseHCLReport hclBytes = Inr hcl"
    "ReportType hcl = HCLReportTypeSNP" "AzSnpTPMQuote ev = Some raw" "DecodeTPMQuote raw = Inr q"
    "VerifyReportContext lib (TEEReport hcl) vcek (hw_params params) PlatformAzSNP 2 opts = Inr hw"
    "vtpm_chain (UnmarshalJWKS js) params hcl q res"
    "SignatureValid res = SignatureValid hw" "ResPlatform res = ResPlatform hw"
    "Claims res = ApplyTPMClaims (Claims hw) (PCRs q) (Message q)"
    "ReportDataMatch res = match_flag (ExpectedReportData params)"
    "InitDataMatch res = match_flag (ExpectedInitDataHash params)" "LaunchDigestMatch res = LaunchDigestMatch hw"
    "DecodeBase64URL (AzVcek ev) = Inr vcek"
proof -
  from assms obtain ev d q hw rd initd u1 u2 u3 where
    ev: "UnmarshalAzSnp js inner = Inr ev" "AzSnpVersion ev = 1" "azsnp_decode ev = Inr d" "DecQuote d = Some q"
    and c: "VerifyTPMSignature (UnmarshalJWKS js) (Signature q) (Message q) (VarData (DecHcl d)) = Inr u1"
      "CheckReportData (Message q) (ExpectedReportData params) = Inr rd" "VerifyTPMPCRs (Message q) (PCRs q) = Inr u2"
      "VerifyHCLVarDataBinding (ReportData (Claims hw)) (VarData (DecHcl d)) = Inr u3"
      "CheckInitData (Message q) (PCRs q) (ExpectedInitDataHash params) = Inr initd"
    and hw: "VerifyReport lib (TEEReport (DecHcl d)) (DecVcek d) (hw_params params) PlatformAzSNP 2 opts = Inr hw"
    and res: "res = hw\<lparr>Claims := ApplyTPMClaims (Claims hw) (PCRs q) (Message q),
                  ReportDataMatch := rd, InitDataMatch := initd\<rparr>"
    by (force simp: azsnp_VerifyEvidence_def split: option.splits)
  from ev(3,4) obtain hclBytes raw where
    "DecodeBase64URL (AzSnpHCLReport ev) = Inr hclBytes" "ParseHCLReport hclBytes = Inr (DecHcl d)"
    "ReportType (DecHcl d) = HCLReportTypeSNP" "AzSnpTPMQuote ev = Some raw" "DecodeTPMQuote raw = Inr q"
    "DecodeBase64URL (AzVcek ev) = Inr (DecVcek d)"
    by (auto simp: azsnp_decode_def split: option.splits)
  with ev hw res vtpm_chain_result [OF c] CheckReportData_flag [OF c(2)] CheckInitData_flag [OF c(5)] show thesis
    by (auto simp: VerifyReport_def intro!: that)
qed

lemma aztdx_Inr:
  assumes "aztdx_VerifyEvidence js lib inner params opts = Inr res"
  obtains ev hclBytes hcl td raw q hw where
    "UnmarshalAzTdx js inner = Inr ev" "AzTdxVersion ev = 1"
    "DecodeBase64URL (AzTdxHCLReport ev) = Inr hclBytes" "ParseHCLReport hclBytes = Inr hcl"
    "ReportType hcl = HCLReportTypeTDX" "AzTdxTPMQuote ev = Some raw" "DecodeTPMQuote raw = Inr q"
    "DecodeBase64URL (AzTDQuote ev) = Inr td"
    "VerifyQuoteBytes lib td (hw_params params) PlatformAzTDX opts = Inr hw"
    "vtpm_chain (UnmarshalJWKS js) params hcl q res"
    "SignatureValid res = SignatureValid hw" "ResPlatform res = ResPlatform hw"
    "Claims res = ApplyTPMClaims (Claims hw) (PCRs q) (Message q)"
    "ReportDataMatch res = match_flag (ExpectedReportData params)"
    "InitDataMatch res = match_flag (ExpectedInitDataHash params)" "LaunchDigestMatch res = LaunchDigestMatch hw"
    "ResTCBStatus res = ResTCBStatus hw"
proof -
  from assms obtain ev hcl td q hw rd initd u1 u2 u3 where
    ev: "UnmarshalAzTdx js inner = Inr ev" "AzTdxVersion ev = 1" "aztdx_decode ev = Inr (hcl, td, q)"
    and c: "VerifyTPMSignature (UnmarshalJWKS js) (Signature q) (Message q) (VarData hcl) = Inr u1"
      "CheckReportData (Message q) (ExpectedReportData params) = Inr rd" "VerifyTPMPCRs (Message q) (PCRs q) = Inr u2"
      "VerifyHCLVarDataBinding (ReportData (Claims hw)) (VarData hcl) = Inr u3"
      "CheckInitData (Message q) (PCRs q) (ExpectedInitDataHash params) = Inr initd"
    and hw: "VerifyQuoteBytes lib td (hw_params params) PlatformAzTDX opts = Inr hw"
    and res: "res = hw\<lparr>Claims := ApplyTPMClaims (Claims hw) (PCRs q) (Message q),
                  ReportDataMatch := rd, InitDataMatch := initd\<rparr>"
    by (force simp: aztdx_VerifyEvidence_def split: prod.splits)
  from ev(3) obtain hclBytes raw where
    "DecodeBase64URL (AzTdxHCLReport ev) = Inr hclBytes" "ParseHCLReport hclBytes = Inr hcl"
    "ReportType hcl = HCLReportTypeTDX" "AzTdxTPMQuote ev = Some raw" "DecodeTPMQuote raw = Inr q"
    "DecodeBase64URL (AzTDQuote ev) = Inr td"
    by (auto simp: aztdx_decode_def split: option.splits)
  with ev hw res vtpm_chain_result [OF c] CheckReportData_flag [OF c(2)] CheckInitData_flag [OF c(5)] show thesis
    by (auto intro!: that)
qed

section \<open>Properties\<close>


text \<open>
  C11: what a verified az-tdx evidence establishes. The HCL envelope parses and is of the TDX type.
  go-tdx-guest verified the separate DCAP quote of the evidence under the caller's trust anchor, or the bundled
  Intel root when there is none, with its own TCB check off exactly when the caller lists accepted
  statuses, and then the reported status is one of them. The quote has the launch measurement and
  registers the caller expects and no debug attribute the caller does not allow; and the vTPM
  chain holds from the quote's report data to the nonce, the published registers and the init data.
\<close>

theorem aztdx_verified:
  assumes "tdx_contract lib" and "aztdx_VerifyEvidence js lib inner params opts = Inr res"
  shows "SignatureValid res \<and> ResPlatform res = PlatformAzTDX \<and>
    (\<exists>ev hclBytes hcl raw q td quote body tv. UnmarshalAzTdx js inner = Inr ev \<and>
       DecodeBase64URL (AzTdxHCLReport ev) = Inr hclBytes \<and> ParseHCLReport hclBytes = Inr hcl \<and>
       ReportType hcl = 4 \<and> AzTdxTPMQuote ev = Some raw \<and> DecodeTPMQuote raw = Inr q \<and>
       DecodeBase64URL (AzTDQuote ev) = Inr td \<and> QuoteToProto lib td = Inr (QuoteV4 quote) \<and>
       QuoteBody quote = Some body \<and> fst (TdxQuoteVerify lib quote tv) = Inr () \<and>
       (case TdxTrustedRoots opts of Some roots \<Rightarrow> TvTrustedRoots tv = roots
        | None \<Rightarrow> IntelSGXRootCAPool lib = Inr (TvTrustedRoots tv)) \<and>
       (TvDisableTcbStatusCheck tv \<longleftrightarrow> AcceptedTCBStatuses (TdxBase opts) \<noteq> []) \<and>
       ReportData (Claims res) = BodyReportData body \<and> vtpm_chain (UnmarshalJWKS js) params hcl q res) \<and>
    (\<forall>d. ExpectedLaunchDigest params = Some d \<longrightarrow> LaunchMeasurement (Claims res) = Inr d) \<and>
    (\<forall>rs i b. ExpectedRTMRs params = Some rs \<longrightarrow> i < length rs \<longrightarrow> rs ! i = Some b \<longrightarrow>
       RTMR (Claims res) (int i) = Inr b) \<and>
    (\<forall>debug. DebugEnabled (Claims res) = Inr debug \<longrightarrow> debug \<longrightarrow> AllowDebug params) \<and>
    (if AcceptedTCBStatuses (TdxBase opts) = [] then ResTCBStatus res = None
     else \<exists>st. ResTCBStatus res = Some st \<and> TCBStatus st \<in> set (AcceptedTCBStatuses (TdxBase opts)) \<and>
            TCBStatus st \<noteq> status_name Revoked)"
proof -
  from assms(2) obtain ev hclBytes hcl td raw q hw where
    e: "UnmarshalAzTdx js inner = Inr ev" "DecodeBase64URL (AzTdxHCLReport ev) = Inr hclBytes"
      "ParseHCLReport hclBytes = Inr hcl" "ReportType hcl = HCLReportTypeTDX" "AzTdxTPMQuote ev = Some raw"
      "DecodeTPMQuote raw = Inr q" "DecodeBase64URL (AzTDQuote ev) = Inr td" "vtpm_chain (UnmarshalJWKS js) params hcl q res"
    and hw: "VerifyQuoteBytes lib td (hw_params params) PlatformAzTDX opts = Inr hw"
    and res: "SignatureValid res = SignatureValid hw" "ResPlatform res = ResPlatform hw"
      "Claims res = ApplyTPMClaims (Claims hw) (PCRs q) (Message q)" "ResTCBStatus res = ResTCBStatus hw"
    by (rule aztdx_Inr) (rule that, assumption+)
  from VerifyQuote_sound [OF assms(1) hw] obtain quote body tv where
    r: "QuoteToProto lib td = Inr (QuoteV4 quote)" "QuoteBody quote = Some body" "Claims hw = tdx_extractClaims quote body"
      "SignatureValid hw" "ResPlatform hw = PlatformAzTDX" "fst (TdxQuoteVerify lib quote tv) = Inr ()"
      "case TdxTrustedRoots opts of Some roots \<Rightarrow> TvTrustedRoots tv = roots
        | None \<Rightarrow> IntelSGXRootCAPool lib = Inr (TvTrustedRoots tv)"
      "TvDisableTcbStatusCheck tv \<longleftrightarrow> AcceptedTCBStatuses (TdxBase opts) \<noteq> []"
    and c: "\<forall>d. ExpectedLaunchDigest (hw_params params) = Some d \<longrightarrow> LaunchMeasurement (Claims hw) = Inr d"
      "\<forall>rs i b. ExpectedRTMRs (hw_params params) = Some rs \<longrightarrow> i < length rs \<longrightarrow> rs ! i = Some b \<longrightarrow>
       RTMR (Claims hw) (int i) = Inr b"
      "\<forall>debug. DebugEnabled (Claims hw) = Inr debug \<longrightarrow> debug \<longrightarrow> AllowDebug (hw_params params)"
      "if AcceptedTCBStatuses (TdxBase opts) = [] then ResTCBStatus hw = None
     else \<exists>st. ResTCBStatus hw = Some st \<and> TCBStatus st \<in> set (AcceptedTCBStatuses (TdxBase opts)) \<and>
            TCBStatus st \<noteq> status_name Revoked"
    by blast
  have p: "ExpectedLaunchDigest (hw_params params) = ExpectedLaunchDigest params"
    "ExpectedRTMRs (hw_params params) = ExpectedRTMRs params" "AllowDebug (hw_params params) = AllowDebug params"
    by (simp_all add: hw_params_def)
  have "ReportData (Claims res) = BodyReportData body" by (simp add: res r(3))
  with e r have "\<exists>ev hclBytes hcl raw q td quote body tv. UnmarshalAzTdx js inner = Inr ev \<and>
       DecodeBase64URL (AzTdxHCLReport ev) = Inr hclBytes \<and> ParseHCLReport hclBytes = Inr hcl \<and>
       ReportType hcl = 4 \<and> AzTdxTPMQuote ev = Some raw \<and> DecodeTPMQuote raw = Inr q \<and>
       DecodeBase64URL (AzTDQuote ev) = Inr td \<and> QuoteToProto lib td = Inr (QuoteV4 quote) \<and>
       QuoteBody quote = Some body \<and> fst (TdxQuoteVerify lib quote tv) = Inr () \<and>
       (case TdxTrustedRoots opts of Some roots \<Rightarrow> TvTrustedRoots tv = roots
        | None \<Rightarrow> IntelSGXRootCAPool lib = Inr (TvTrustedRoots tv)) \<and>
       (TvDisableTcbStatusCheck tv \<longleftrightarrow> AcceptedTCBStatuses (TdxBase opts) \<noteq> []) \<and>
       ReportData (Claims res) = BodyReportData body \<and> vtpm_chain (UnmarshalJWKS js) params hcl q res" by blast
  moreover have "\<forall>d. ExpectedLaunchDigest params = Some d \<longrightarrow> LaunchMeasurement (Claims res) = Inr d"
    using c(1) by (simp add: p res)
  moreover have "\<forall>rs i b. ExpectedRTMRs params = Some rs \<longrightarrow> i < length rs \<longrightarrow> rs ! i = Some b \<longrightarrow>
       RTMR (Claims res) (int i) = Inr b"
    using c(2) by (simp add: p res)
  moreover have "\<forall>debug. DebugEnabled (Claims res) = Inr debug \<longrightarrow> debug \<longrightarrow> AllowDebug params"
    using c(3) by (simp add: p res)
  moreover have "SignatureValid res" "ResPlatform res = PlatformAzTDX" using r(4,5) res(1,2) by simp_all
  moreover note c(4) [folded res(4)]
  ultimately show ?thesis by blast
qed

section \<open>Evidence that verifies\<close>

text \<open>A nonce, an init-data hash, and the vTPM whose register 8 extends it.\<close>

abbreviation (input) az_nonce :: bytes where "az_nonce \<equiv> replicate 32 9"
abbreviation (input) az_init :: bytes where "az_init \<equiv> replicate 32 4"
abbreviation (input) az_pcr8 :: bytes where "az_pcr8 \<equiv> sha256 (replicate 32 0 @ az_init)"

definition sample_az_json :: az_json where
  "sample_az_json = \<lparr>
     UnmarshalAzSnp = (\<lambda>_. Inr \<lparr>AzSnpHCLReport = b64url_encode (sample_hcl_bytes 2 (vtpm_public az_nonce az_pcr8)),
       AzVcek = ''Ag'', AzSnpVersion = 1, AzSnpTPMQuote = Some (vtpm_raw az_nonce az_pcr8)\<rparr>),
     UnmarshalAzTdx = (\<lambda>_. Inr \<lparr>AzTdxHCLReport = b64url_encode (sample_hcl_bytes 4 (vtpm_public az_nonce az_pcr8)),
       AzTDQuote = ''Ag'', AzTdxVersion = 1, AzTdxTPMQuote = Some (vtpm_raw az_nonce az_pcr8)\<rparr>),
     UnmarshalJWKS = (\<lambda>_. Inl (Errorf ''not JSON''))\<rparr>"

text \<open>The libraries of the hardware layers, with the report data that binds the vTPM's key.\<close>

definition az_report_data :: bytes where
  "az_report_data = sha256 (vtpm_public az_nonce az_pcr8) @ replicate 32 0"

definition az_sev_lib :: "nat sev_lib" where
  "az_sev_lib = sample_sev_lib\<lparr>ReportToProto := (\<lambda>_. Inr (sample_report\<lparr>RepReportData := az_report_data\<rparr>))\<rparr>"

definition az_tdx_lib :: "nat tdx_lib" where
  "az_tdx_lib = sample_tdx_lib\<lparr>QuoteToProto := (\<lambda>_. Inr (QuoteV4 (sample_tdx_quote\<lparr>QuoteBody :=
     Some (sample_td_body\<lparr>BodyReportData := az_report_data\<rparr>)\<rparr>)))\<rparr>"

lemma az_contracts: "sev_contract az_sev_lib" "tdx_contract az_tdx_lib"
  using sample_sev_contract sample_tdx_contract
  by (simp_all add: sev_contract_def tdx_contract_def az_sev_lib_def az_tdx_lib_def)

definition az_params :: verify_params where
  "az_params = \<lparr>ExpectedReportData = Some az_nonce, ExpectedInitDataHash = Some az_init, AllowDebug = False,
     MinTCB = None, ExpectedLaunchDigest = Some (replicate 48 7), ExpectedRTMRs = None\<rparr>"

lemma az_snp_hw:
  "\<exists>hw. VerifyReportContext az_sev_lib tee [2] (hw_params az_params) PlatformAzSNP 2
     \<lparr>SnpCheckRevocations = False, SnpGetter = None\<rparr> = Inr hw \<and> ReportData (Claims hw) = az_report_data"
  by (simp add: VerifyReportContext_def az_sev_lib_def sample_sev_lib_def sample_report_def snp_validateOptions_def
      az_params_def hw_params_def cert_chain_def vcekProductRoots_def Let_def)

lemma az_vtpm:
  "CheckReportData (vtpm_message az_nonce az_pcr8) (Some az_nonce) = Inr (Some True)"
  "VerifyTPMPCRs (vtpm_message az_nonce az_pcr8) (sample_bank az_pcr8) = Inr ()"
  "CheckInitData (vtpm_message az_nonce az_pcr8) (sample_bank az_pcr8) (Some az_init) = Inr (Some True)"
  "VerifyHCLVarDataBinding az_report_data (vtpm_public az_nonce az_pcr8) = Inr ()"
proof -
  show "CheckReportData (vtpm_message az_nonce az_pcr8) (Some az_nonce) = Inr (Some True)"
    using vtpm_nonce [of az_nonce az_pcr8] by (simp add: CheckReportData_Inr)
  show "VerifyTPMPCRs (vtpm_message az_nonce az_pcr8) (sample_bank az_pcr8) = Inr ()"
    unfolding vtpm_message_def by (rule verify_sample) simp_all
  show "CheckInitData (vtpm_message az_nonce az_pcr8) (sample_bank az_pcr8) (Some az_init) = Inr (Some True)"
    by (auto simp: CheckInitData_Some parse_sample sample_bank_def nth_append vtpm_message_def)
  show "VerifyHCLVarDataBinding az_report_data (vtpm_public az_nonce az_pcr8) = Inr ()"
    by (simp add: VerifyHCLVarDataBinding_Inr az_report_data_def)
qed

lemma az_snp_accepted:
  "\<exists>res. azsnp_VerifyEvidence sample_az_json az_sev_lib inner az_params
     \<lparr>SnpCheckRevocations = False, SnpGetter = None\<rparr> = Inr res"
proof -
  have vcek: "DecodeBase64URL ''Ag'' = Inr [2]" "CheckFieldSize (Suc (Suc 0)) = Inr ()"
    by code_simp simp
  obtain hw where hw: "VerifyReportContext az_sev_lib (replicate 1184 0) [2] (hw_params az_params) PlatformAzSNP 2
     \<lparr>SnpCheckRevocations = False, SnpGetter = None\<rparr> = Inr hw" "ReportData (Claims hw) = az_report_data"
    using az_snp_hw by blast
  have p: "ExpectedReportData az_params = Some az_nonce" "ExpectedInitDataHash az_params = Some az_init"
    by (simp_all add: az_params_def)
  show ?thesis
    using vcek hw az_vtpm vtpm_sizes [where nonce = az_nonce and v = az_pcr8] vtpm_signature_valid
    by (simp add: azsnp_VerifyEvidence_def sample_az_json_def azsnp_checkFieldSizes_def azsnp_decode_def
        DecodeBase64URL_encode vtpm_hcl_parses vtpm_decodes p VerifyReport_def sample_hcl_def vtpm_quote_def
        del: CheckFieldSize_Inr)
qed


definition az_tdx_opts :: "nat tdx_verify_options" where
  "az_tdx_opts = \<lparr>TdxBase = \<lparr>GetCollateral = False, CheckRevocations = False, AcceptedTCBStatuses = []\<rparr>,
     TdxTrustedRoots = Some 1, TdxNow = None\<rparr>"

lemma az_tdx_hw:
  "\<exists>hw. VerifyQuoteBytes az_tdx_lib [2] (hw_params az_params) PlatformAzTDX az_tdx_opts = Inr hw \<and>
     ReportData (Claims hw) = az_report_data"
  by (simp add: VerifyQuoteBytes_def az_tdx_lib_def sample_tdx_lib_def sample_tdx_quote_def sample_td_body_def
      az_tdx_opts_def tdx_validateOptions_def checkAcceptedTCBStatuses_def matches_def az_params_def
      hw_params_def Let_def)

lemma az_tdx_accepted:
  "\<exists>res. aztdx_VerifyEvidence sample_az_json az_tdx_lib inner az_params az_tdx_opts = Inr res"
proof -
  have td: "DecodeBase64URL ''Ag'' = Inr [2]" "CheckFieldSize (Suc (Suc 0)) = Inr ()"
    by code_simp simp
  obtain hw where hw: "VerifyQuoteBytes az_tdx_lib [2] (hw_params az_params) PlatformAzTDX az_tdx_opts = Inr hw"
     "ReportData (Claims hw) = az_report_data"
    using az_tdx_hw by blast
  have p: "ExpectedReportData az_params = Some az_nonce" "ExpectedInitDataHash az_params = Some az_init"
    by (simp_all add: az_params_def)
  show ?thesis
    using td hw az_vtpm vtpm_sizes [where nonce = az_nonce and v = az_pcr8] vtpm_signature_valid
    by (simp add: aztdx_VerifyEvidence_def sample_az_json_def aztdx_checkFieldSizes_def aztdx_decode_def
        DecodeBase64URL_encode vtpm_hcl_parses vtpm_decodes p sample_hcl_def vtpm_quote_def
        del: CheckFieldSize_Inr)
qed

theorem aztdx_verified_witness:
  "\<exists>res hcl q quote tv. aztdx_VerifyEvidence sample_az_json az_tdx_lib [] az_params az_tdx_opts = Inr res \<and>
     SignatureValid res \<and> vtpm_chain (UnmarshalJWKS sample_az_json) az_params hcl q res \<and>
     fst (TdxQuoteVerify az_tdx_lib quote tv) = Inr () \<and> TvTrustedRoots tv = 1 \<and>
     LaunchMeasurement (Claims res) = Inr (replicate 48 7)"
proof -
  obtain res where res: "aztdx_VerifyEvidence sample_az_json az_tdx_lib [] az_params az_tdx_opts = Inr res"
    using az_tdx_accepted by blast
  have d: "ExpectedLaunchDigest az_params = Some (replicate 48 7)" by (simp add: az_params_def)
  have o: "TdxTrustedRoots az_tdx_opts = Some 1" by (simp add: az_tdx_opts_def)
  note v = aztdx_verified [OF az_contracts(2) res, unfolded o option.case]
  then obtain hcl q quote tv where "vtpm_chain (UnmarshalJWKS sample_az_json) az_params hcl q res"
    "fst (TdxQuoteVerify az_tdx_lib quote tv) = Inr ()" "TvTrustedRoots tv = 1" by blast
  with res d v show ?thesis by blast
qed

end
