(* ===== verification/TeeVerify.thy ===== *)
theory TeeVerify
  imports Azure Remote
begin

text \<open>
  The entry point \<open>attestation/teeverify/teeverify.go\<close>: an evidence envelope is routed on its platform
  tag to the verifier of its family, and the result carries the canonical tag.

  The decoding of the envelope and of the two bare-metal payloads is \<open>encoding/json\<close>'s, parameters of
  the record \<open>tee_lib\<close>, which also holds the libraries of the two hardware layers.
\<close>

section \<open>Dispatch\<close>

abbreviation (input) MaxEvidenceSize :: nat where "MaxEvidenceSize \<equiv> 1048576"

record ('rs, 'rt) tee_lib =
  TeeSev :: "'rs sev_lib"
  TeeTdx :: "'rt tdx_lib"
  TeeAzJson :: az_json
  UnmarshalEnvelope :: "bytes \<Rightarrow> err + attestation_evidence"
  UnmarshalSnpEvidence :: "bytes \<Rightarrow> err + snp_evidence"
  UnmarshalTdxEvidence :: "bytes \<Rightarrow> err + tdx_evidence"

record 'rt tee_options =
  OptSNP :: snp_options
  OptTDX :: "'rt tdx_verify_options"

definition verifySNP ::
    "('rs, 'rt) tee_lib \<Rightarrow> bytes \<Rightarrow> verify_params \<Rightarrow> snp_options \<Rightarrow> string \<Rightarrow> err + verification_result" where
  "verifySNP lib inner params opts platform =
     bindr (wrap_err (Errorf ''parsing snp evidence'') (UnmarshalSnpEvidence lib inner)) (\<lambda>ev.
     bindr (snp_VerifyEvidenceContext (TeeSev lib) ev params opts) (\<lambda>res.
     Inr (res\<lparr>ResPlatform := platform\<rparr>)))"

definition verifyTDX ::
    "('rs, 'rt) tee_lib \<Rightarrow> bytes \<Rightarrow> verify_params \<Rightarrow> 'rt tdx_verify_options \<Rightarrow> string \<Rightarrow> err + verification_result" where
  "verifyTDX lib inner params opts platform =
     bindr (wrap_err (Errorf ''parsing tdx evidence'') (UnmarshalTdxEvidence lib inner)) (\<lambda>ev.
     bindr (tdx_VerifyEvidence (TeeTdx lib) ev params opts) (\<lambda>res.
     Inr (res\<lparr>ResPlatform := platform\<rparr>)))"

definition VerifyEnvelope ::
    "('rs, 'rt) tee_lib \<Rightarrow> attestation_evidence \<Rightarrow> verify_params \<Rightarrow> 'rt tee_options \<Rightarrow> err + verification_result" where
  "VerifyEnvelope lib env params opts =
     (if (case ExpectedReportData params of None \<Rightarrow> False | Some d \<Rightarrow> 64 < length d)
      then Inl (Errorf ''expected_report_data too long'')
      else
        let p = NormalizePlatform (EvPlatform env); inner = EvEvidence env in
        if p = PlatformSNP then verifySNP lib inner params (OptSNP opts) PlatformSNP
        else if p = PlatformGcpSNP then verifySNP lib inner params (OptSNP opts) PlatformGcpSNP
        else if p = PlatformAzSNP then azsnp_VerifyEvidence (TeeAzJson lib) (TeeSev lib) inner params (OptSNP opts)
        else if p = PlatformTDX then verifyTDX lib inner params (OptTDX opts) PlatformTDX
        else if p = PlatformGcpTDX then verifyTDX lib inner params (OptTDX opts) PlatformGcpTDX
        else if p = PlatformAzTDX then aztdx_VerifyEvidence (TeeAzJson lib) (TeeTdx lib) inner params (OptTDX opts)
        else Inl (Errorf ''unsupported platform''))"

definition VerifyWithOptionsContext ::
    "('rs, 'rt) tee_lib \<Rightarrow> bytes \<Rightarrow> verify_params \<Rightarrow> 'rt tee_options \<Rightarrow> err + verification_result" where
  "VerifyWithOptionsContext lib evidenceJSON params opts =
     (if MaxEvidenceSize < length evidenceJSON then Inl (Errorf ''evidence too large'')
      else
        bindr (wrap_err (Errorf ''parsing evidence envelope'') (UnmarshalEnvelope lib evidenceJSON)) (\<lambda>env.
        VerifyEnvelope lib env params opts))"

definition VerifyWithOptions ::
    "('rs, 'rt) tee_lib \<Rightarrow> bytes \<Rightarrow> verify_params \<Rightarrow> 'rt tee_options \<Rightarrow> err + verification_result" where
  "VerifyWithOptions lib evidenceJSON params opts = VerifyWithOptionsContext lib evidenceJSON params opts"

text \<open>The zero value of the options verifies offline.\<close>

definition tee_Verify :: "('rs, 'rt) tee_lib \<Rightarrow> bytes \<Rightarrow> verify_params \<Rightarrow> err + verification_result" where
  "tee_Verify lib evidenceJSON params =
     VerifyWithOptions lib evidenceJSON params
       \<lparr>OptSNP = \<lparr>SnpCheckRevocations = False, SnpGetter = None\<rparr>,
        OptTDX = \<lparr>TdxBase = \<lparr>GetCollateral = False, CheckRevocations = False, AcceptedTCBStatuses = []\<rparr>,
          TdxTrustedRoots = None, TdxNow = None\<rparr>\<rparr>"

section \<open>What every arm establishes\<close>

text \<open>
  The expectations a result answers, whatever the hardware. \<open>SignedData\<close> is where every platform
  reports the data bound, without its zero padding.
\<close>

definition answers :: "verify_params \<Rightarrow> verification_result \<Rightarrow> bool" where
  "answers params res \<longleftrightarrow>
     SignatureValid res \<and>
     ReportDataMatch res = match_flag (ExpectedReportData params) \<and>
     InitDataMatch res = match_flag (ExpectedInitDataHash params) \<and>
     LaunchDigestMatch res = match_flag (ExpectedLaunchDigest params) \<and>
     (\<forall>d. ExpectedReportData params = Some d \<longrightarrow> SignedData (Claims res) = strip_trailing 0 d) \<and>
     (\<forall>d. ExpectedLaunchDigest params = Some d \<longrightarrow> LaunchMeasurement (Claims res) = Inr d) \<and>
     (\<forall>debug. DebugEnabled (Claims res) = Inr debug \<longrightarrow> debug \<longrightarrow> AllowDebug params)"

lemma answers_platform [simp]: "answers params (res\<lparr>ResPlatform := p\<rparr>) = answers params res"
  by (simp add: answers_def)

text \<open>
  The interface of a hardware layer, to which the bare-metal arms and the vTPM arms are clients. A layer
  takes its own input, the expectations and the tag of the result; under its library's contract, a result
  carries the tag and answers the expectations, with the report data padded to the field.
\<close>

locale hardware_layer =
  fixes contract :: "'lib \<Rightarrow> bool"
    and verify :: "'lib \<Rightarrow> 'inp \<Rightarrow> verify_params \<Rightarrow> string \<Rightarrow> err + verification_result"
  assumes sound: "contract lib \<Longrightarrow> verify lib inp params tag = Inr res \<Longrightarrow>
    answers params res \<and> ResPlatform res = tag \<and>
    (\<forall>d. ExpectedReportData params = Some d \<longrightarrow> ReportData (Claims res) = pad d 64)"
begin

lemma retagged:
  assumes "contract lib" and "verify lib inp params tag = Inr res0"
  shows "answers params (res0\<lparr>ResPlatform := tag'\<rparr>)"
  using sound [OF assms] by simp

text \<open>
  A vTPM over the layer: the layer is asked without the expectations on report data and init data, which
  the vTPM meets, and its result is kept otherwise.
\<close>

lemma under_vtpm:
  assumes "contract lib" and "verify lib inp (hw_params params) tag = Inr hw"
    and "SignatureValid res = SignatureValid hw" and "ResPlatform res = ResPlatform hw"
    and "Claims res = ApplyTPMClaims (Claims hw) pcrs m"
    and "ReportDataMatch res = match_flag (ExpectedReportData params)"
    and "InitDataMatch res = match_flag (ExpectedInitDataHash params)" and "LaunchDigestMatch res = LaunchDigestMatch hw"
    and "vtpm_chain um params hcl q res"
  shows "answers params res \<and> ResPlatform res = tag"
proof -
  from sound [OF assms(1,2)] have "answers (hw_params params) hw" "ResPlatform hw = tag" by simp_all
  moreover have "SignedData (Claims res) = strip_trailing 0 d" if "ExpectedReportData params = Some d" for d
    using assms(9) that by (simp add: vtpm_chain_def)
  ultimately show ?thesis using assms(3-8) by (simp add: answers_def hw_params_def)
qed

end

interpretation snp_layer: hardware_layer sev_contract
  "\<lambda>lib (rb, vcek, v, opts) params p. VerifyReportContext lib rb vcek params p v opts"
proof (unfold_locales, clarify)
  fix lib :: "'a sev_lib" and rb vcek v opts params tag res
  assume c: "sev_contract lib" "VerifyReportContext lib rb vcek params tag v opts = Inr res"
  then obtain report where res: "res = zero_result\<lparr>SignatureValid := True, ResPlatform := tag, Claims := snp_extractClaims lib report,
              CollateralVerified := SnpCheckRevocations opts,
              ReportDataMatch := match_flag (ExpectedReportData params),
              InitDataMatch := match_flag (ExpectedInitDataHash params),
              LaunchDigestMatch := match_flag (ExpectedLaunchDigest params)\<rparr>"
    by (blast elim: VerifyReportContext_Inr)
  then have "ReportDataMatch res = match_flag (ExpectedReportData params)"
    "InitDataMatch res = match_flag (ExpectedInitDataHash params)"
    "LaunchDigestMatch res = match_flag (ExpectedLaunchDigest params)" by simp_all
  moreover have "SignedData (Claims res) = strip_trailing 0 (ReportData (Claims res))" using res by simp
  ultimately show "answers params res \<and> ResPlatform res = tag \<and>
      (\<forall>d. ExpectedReportData params = Some d \<longrightarrow> ReportData (Claims res) = pad d 64)"
    using VerifyReport_facts [OF c] unfolding answers_def by (simp add: strip_pad)
qed

interpretation tdx_layer: hardware_layer tdx_contract "\<lambda>lib (q, opts) params p. VerifyQuoteBytes lib q params p opts"
proof (unfold_locales, clarify)
  fix lib :: "'a tdx_lib" and q opts params tag res
  assume c: "tdx_contract lib" "VerifyQuoteBytes lib q params tag opts = Inr res"
  then have "ReportDataMatch res = match_flag (ExpectedReportData params)" by (blast elim: VerifyQuoteBytes_Inr)
  moreover from c have "InitDataMatch res = match_flag (ExpectedInitDataHash params)" by (blast elim: VerifyQuoteBytes_Inr)
  moreover from c have "LaunchDigestMatch res = match_flag (ExpectedLaunchDigest params)" by (blast elim: VerifyQuoteBytes_Inr)
  moreover from c obtain quote body where "Claims res = tdx_extractClaims quote body" by (blast elim: VerifyQuoteBytes_Inr)
  then have "SignedData (Claims res) = strip_trailing 0 (ReportData (Claims res))" by simp
  ultimately show "answers params res \<and> ResPlatform res = tag \<and>
      (\<forall>d. ExpectedReportData params = Some d \<longrightarrow> ReportData (Claims res) = pad d 64)"
    using VerifyQuote_facts [OF c] unfolding answers_def by (simp add: strip_pad)
qed

text \<open>The Azure arms are a vTPM over either layer.\<close>

lemma azsnp_answers:
  assumes "sev_contract lib" and "azsnp_VerifyEvidence js lib inner params opts = Inr res"
  shows "answers params res \<and> ResPlatform res = PlatformAzSNP"
proof -
  from assms(2) obtain hcl :: hcl_report and vcek and q :: tpm_quote and hw where
    hw: "VerifyReportContext lib (TEEReport hcl) vcek (hw_params params) PlatformAzSNP 2 opts = Inr hw"
    and res: "SignatureValid res = SignatureValid hw" "ResPlatform res = ResPlatform hw"
    "Claims res = ApplyTPMClaims (Claims hw) (PCRs q) (Message q)"
    "ReportDataMatch res = match_flag (ExpectedReportData params)"
    "InitDataMatch res = match_flag (ExpectedInitDataHash params)" "LaunchDigestMatch res = LaunchDigestMatch hw"
    "vtpm_chain (UnmarshalJWKS js) params hcl q res"
    by (rule azsnp_Inr) (rule that, assumption+)
  show ?thesis
    by (rule snp_layer.under_vtpm [OF assms(1) _ res, where inp = "(TEEReport hcl, vcek, 2, opts)"]) (simp add: hw)
qed

lemma aztdx_answers:
  assumes "tdx_contract lib" and "aztdx_VerifyEvidence js lib inner params opts = Inr res"
  shows "answers params res \<and> ResPlatform res = PlatformAzTDX"
proof -
  from assms(2) obtain td and hcl :: hcl_report and q :: tpm_quote and hw where
    hw: "VerifyQuoteBytes lib td (hw_params params) PlatformAzTDX opts = Inr hw"
    and res: "SignatureValid res = SignatureValid hw" "ResPlatform res = ResPlatform hw"
    "Claims res = ApplyTPMClaims (Claims hw) (PCRs q) (Message q)"
    "ReportDataMatch res = match_flag (ExpectedReportData params)"
    "InitDataMatch res = match_flag (ExpectedInitDataHash params)" "LaunchDigestMatch res = LaunchDigestMatch hw"
    "vtpm_chain (UnmarshalJWKS js) params hcl q res"
    by (rule aztdx_Inr) (rule that, assumption+)
  show ?thesis
    by (rule tdx_layer.under_vtpm [OF assms(1) _ res, where inp = "(td, opts)"]) (simp add: hw)
qed

text \<open>The bare-metal arms and their GCP variants.\<close>

lemma verifySNP_answers:
  assumes "sev_contract (TeeSev lib)" and "verifySNP lib inner params opts p = Inr res"
  shows "answers params res \<and> ResPlatform res = p"
proof -
  from assms(2) obtain rb vcek res0 where
    "VerifyReportContext (TeeSev lib) rb vcek params PlatformSNP MinReportVersion opts = Inr res0"
    "res = res0\<lparr>ResPlatform := p\<rparr>"
    by (auto simp: verifySNP_def snp_VerifyEvidenceContext_def Let_def)
  with snp_layer.retagged [OF assms(1), of "(rb, vcek, MinReportVersion, opts)"] show ?thesis by simp
qed

lemma tdx_evidence_answers:
  assumes "tdx_contract lib" and "tdx_VerifyEvidence lib ev params opts = Inr res"
  shows "answers params res"
proof -
  from assms(2) obtain q res0 where v: "VerifyQuoteBytes lib q params PlatformTDX opts = Inr res0"
    and t: "(if CCEventlog ev = [] then Inr res0
     else
       bindr (wrap_err (Errorf ''decoding cc_eventlog'') (std_decode (CCEventlog ev))) (\<lambda>ccel.
       bindr (quoteRTMRs lib q) (\<lambda>rtmrs.
       bindr (VerifyCCELAgainstRTMRs ccel (rtmrs ! 0) (rtmrs ! 1) (rtmrs ! 2) (rtmrs ! 3)) (\<lambda>rtmr3Match.
       Inr (res0\<lparr>EventlogVerified := Some True, RTMR3ReplayMatch := Some rtmr3Match\<rparr>))))) = Inr res"
    unfolding tdx_VerifyEvidence_def by (simp only: bindr_eq_Inr) blast
  from t have "res = res0 \<or> (\<exists>m. res = res0\<lparr>EventlogVerified := Some True, RTMR3ReplayMatch := Some m\<rparr>)"
    by (simp only: bindr_eq_Inr split: if_split_asm) auto
  then have "Claims res = Claims res0" "SignatureValid res = SignatureValid res0" "ReportDataMatch res = ReportDataMatch res0"
    "InitDataMatch res = InitDataMatch res0" "LaunchDigestMatch res = LaunchDigestMatch res0" by auto
  with v tdx_layer.sound [OF assms(1), of "(q, opts)"] show ?thesis by (simp add: answers_def)
qed

lemma verifyTDX_answers:
  assumes "tdx_contract (TeeTdx lib)" and "verifyTDX lib inner params opts p = Inr res"
  shows "answers params res \<and> ResPlatform res = p"
  using assms tdx_evidence_answers by (auto simp: verifyTDX_def)

text \<open>The dispatch: every arm answers the caller's expectations under the canonical tag.\<close>

lemma VerifyEnvelope_sound:
  assumes "sev_contract (TeeSev lib)" and "tdx_contract (TeeTdx lib)"
    and "VerifyEnvelope lib env params opts = Inr res"
  shows "answers params res \<and> ResPlatform res = NormalizePlatform (EvPlatform env) \<and>
    Family (EvPlatform env) \<noteq> FamilyUnknown \<and> Family (ResPlatform res) = Family (EvPlatform env) \<and>
    (\<forall>d. ExpectedReportData params = Some d \<longrightarrow> length d \<le> 64)"
proof -
  let ?p = "NormalizePlatform (EvPlatform env)"
  from assms(3) have len: "\<forall>d. ExpectedReportData params = Some d \<longrightarrow> length d \<le> 64"
    by (auto simp: VerifyEnvelope_def split: option.splits if_splits)
  from assms(3) consider
      (snp) "?p = PlatformSNP \<or> ?p = PlatformGcpSNP" "verifySNP lib (EvEvidence env) params (OptSNP opts) ?p = Inr res"
    | (azsnp) "?p = PlatformAzSNP" "azsnp_VerifyEvidence (TeeAzJson lib) (TeeSev lib) (EvEvidence env) params (OptSNP opts) = Inr res"
    | (tdx) "?p = PlatformTDX \<or> ?p = PlatformGcpTDX" "verifyTDX lib (EvEvidence env) params (OptTDX opts) ?p = Inr res"
    | (aztdx) "?p = PlatformAzTDX" "aztdx_VerifyEvidence (TeeAzJson lib) (TeeTdx lib) (EvEvidence env) params (OptTDX opts) = Inr res"
    unfolding VerifyEnvelope_def Let_def if_Inl_eq_Inr by (metis Inl_Inr_False)
  then have "answers params res \<and> ResPlatform res = ?p \<and> Family (EvPlatform env) \<noteq> FamilyUnknown"
  proof cases
    case snp
    with verifySNP_answers [OF assms(1) snp(2)] show ?thesis by (auto simp: Family_def)
  next
    case azsnp
    with azsnp_answers [OF assms(1) azsnp(2)] show ?thesis by (auto simp: Family_def)
  next
    case tdx
    with verifyTDX_answers [OF assms(2) tdx(2)] show ?thesis by (auto simp: Family_def)
  next
    case aztdx
    with aztdx_answers [OF assms(2) aztdx(2)] show ?thesis by (auto simp: Family_def)
  qed
  with len Family_normalized show ?thesis by simp
qed

section \<open>Properties\<close>

text \<open>
  C2: the verdict of the entry point. Whatever the platform, an accepted envelope is of a supported
  family; the result carries the canonical tag of the envelope's platform, never its spelling; the
  signature flag is set; each match flag is set exactly when there was an expectation; the signed
  data is the expected report data up to trailing zeros; and the launch measurement and the debug
  policy are those the caller asked for. Expected report data
  longer than 64 bytes is refused.
\<close>

theorem VerifyEnvelope_verdict:
  assumes "sev_contract (TeeSev lib)" and "tdx_contract (TeeTdx lib)"
    and "VerifyEnvelope lib env params opts = Inr res"
  shows "answers params res \<and> ResPlatform res = NormalizePlatform (EvPlatform env) \<and>
    Family (EvPlatform env) \<noteq> FamilyUnknown \<and> Family (ResPlatform res) = Family (EvPlatform env) \<and>
    (\<forall>d. ExpectedReportData params = Some d \<longrightarrow> length d \<le> 64)"
  using assms by (rule VerifyEnvelope_sound)

text \<open>A GCP TDX envelope, spelled with spaces and capitals.\<close>

definition sample_tee_lib :: "(nat, nat) tee_lib" where
  "sample_tee_lib = \<lparr>TeeSev = sample_sev_lib, TeeTdx = sample_tdx_lib, TeeAzJson = sample_az_json,
     UnmarshalEnvelope = (\<lambda>b. Inr \<lparr>EvPlatform = '' GCP-tdx'', EvEvidence = b\<rparr>),
     UnmarshalSnpEvidence = (\<lambda>_. Inl (Errorf ''no report'')), UnmarshalTdxEvidence = (\<lambda>_. Inr sample_tdx_evidence)\<rparr>"

definition sample_tee_opts :: "nat tee_options" where
  "sample_tee_opts = \<lparr>OptSNP = \<lparr>SnpCheckRevocations = False, SnpGetter = None\<rparr>, OptTDX = sample_tdx_opts\<rparr>"

lemma gcp_spelling: "NormalizePlatform '' GCP-tdx'' = PlatformGcpTDX"
  by code_simp

lemma sample_envelope:
  "\<exists>res. VerifyEnvelope sample_tee_lib \<lparr>EvPlatform = '' GCP-tdx'', EvEvidence = []\<rparr> sample_tdx_params sample_tee_opts = Inr res"
proof -
  note n = gcp_spelling
  obtain res where "tdx_VerifyEvidence sample_tdx_lib sample_tdx_evidence sample_tdx_params sample_tdx_opts = Inr res"
    using sample_evidence_verified ..
  then show ?thesis
    by (simp add: VerifyEnvelope_def n verifyTDX_def sample_tee_lib_def sample_tee_opts_def Let_def)
      (simp add: sample_tdx_params_def)
qed

theorem VerifyEnvelope_verdict_witness:
  "\<exists>res. VerifyEnvelope sample_tee_lib \<lparr>EvPlatform = '' GCP-tdx'', EvEvidence = []\<rparr> sample_tdx_params sample_tee_opts = Inr res \<and>
     answers sample_tdx_params res \<and> ResPlatform res = PlatformGcpTDX"
proof -
  note n = gcp_spelling
  have c: "sev_contract (TeeSev sample_tee_lib)" "tdx_contract (TeeTdx sample_tee_lib)"
    by (simp_all add: sample_tee_lib_def sample_sev_contract sample_tdx_contract)
  obtain res where res: "VerifyEnvelope sample_tee_lib \<lparr>EvPlatform = '' GCP-tdx'', EvEvidence = []\<rparr> sample_tdx_params sample_tee_opts = Inr res"
    using sample_envelope ..
  from VerifyEnvelope_verdict [OF c res] res show ?thesis by (auto simp: n)
qed

end
