(* ===== verification/KdsCache.thy ===== *)
theory KdsCache
  imports SnpVerify
begin

text \<open>
  The on-disk cache of AMD endorsement certificates, \<open>attestation/snp/kdscache.go\<close>.

  A directory is a map from file names to contents. A fetch from the key server is a function of the
  URL, the parameter \<open>next\<close>, as is the path of a URL (\<open>url.Parse\<close>, the parameter \<open>url_path\<close>). What the
  file system may refuse during one call is the datatype \<open>cache_fault\<close>; publication is a rename, so a
  reader sees a whole file or none.
\<close>

section \<open>Cacheable URLs\<close>

text \<open>The parts of a path between its slashes.\<close>

fun split_slash :: "string \<Rightarrow> string list" where
  "split_slash [] = [[]]"
| "split_slash (c # s) =
     (if c = CHR ''/'' then [] # split_slash s
      else case split_slash s of [] \<Rightarrow> [[c]] | p # ps \<Rightarrow> (c # p) # ps)"

definition hex_digit_any :: "char \<Rightarrow> bool" where
  "hex_digit_any c \<longleftrightarrow> c \<in> set ''0123456789abcdefABCDEF''"

text \<open>The regular expression \<open>^/(vcek/v1/[^/]+/[0-9a-fA-F]{128}|vlek/v1/[^/]+/cert)$\<close>.\<close>

definition endorsementPath :: "string \<Rightarrow> bool" where
  "endorsementPath p =
     (case split_slash p of
        [lead, kind, ver, product, leaf] \<Rightarrow>
          lead = [] \<and> ver = ''v1'' \<and> product \<noteq> [] \<and>
          (kind = ''vcek'' \<and> length leaf = 128 \<and> list_all hex_digit_any leaf \<or> kind = ''vlek'' \<and> leaf = ''cert'')
      | _ \<Rightarrow> False)"

definition cacheable :: "(string \<Rightarrow> err + string) \<Rightarrow> string \<Rightarrow> bool" where
  "cacheable url_path rawURL =
     (case url_path rawURL of Inl _ \<Rightarrow> False | Inr p \<Rightarrow> endorsementPath p)"

section \<open>The cache\<close>

type_synonym cache_dir = "string \<Rightarrow> bytes option"

definition cache_path :: "string \<Rightarrow> string" where
  "cache_path rawURL = hex_encode (sha256 (bytes_of_string rawURL)) @ ''.der''"

text \<open>What goes wrong in one call: reading the entry, or one of the steps that publish it.\<close>

datatype cache_fault = CacheFine | ReadFails | CreateTempFails | WriteFails | CloseFails | RenameFails

definition cache_read :: "cache_fault \<Rightarrow> cache_dir \<Rightarrow> string \<Rightarrow> bytes option" where
  "cache_read fault dir p = (if fault = ReadFails then None else dir p)"

definition cache_publish :: "cache_fault \<Rightarrow> cache_dir \<Rightarrow> string \<Rightarrow> bytes \<Rightarrow> cache_dir" where
  "cache_publish fault dir p b =
     (if fault \<in> {CreateTempFails, WriteFails, CloseFails, RenameFails} then dir else dir(p \<mapsto> b))"

definition caching_GetContext ::
    "(string \<Rightarrow> err + string) \<Rightarrow> getter \<Rightarrow> cache_fault \<Rightarrow> string \<Rightarrow> cache_dir \<Rightarrow> (err + bytes) \<times> cache_dir" where
  "caching_GetContext url_path next fault rawURL dir =
     (if \<not> cacheable url_path rawURL then (next rawURL, dir)
      else
        let p = cache_path rawURL; fetch =
          (case next rawURL of
             Inl e \<Rightarrow> (Inl e, dir)
           | Inr b \<Rightarrow> (Inr b, cache_publish fault dir p b))
        in case cache_read fault dir p of
             Some b \<Rightarrow> (if 0 < length b then (Inr b, dir) else fetch)
           | None \<Rightarrow> fetch)"

definition caching_Get ::
    "(string \<Rightarrow> err + string) \<Rightarrow> getter \<Rightarrow> cache_fault \<Rightarrow> string \<Rightarrow> cache_dir \<Rightarrow> (err + bytes) \<times> cache_dir" where
  "caching_Get url_path next fault rawURL dir = caching_GetContext url_path next fault rawURL dir"

text \<open>\<open>NewCachingKDSGetter\<close>: whether the getter it returns caches, and over what.\<close>

datatype kds_getter = Plain "getter option" | Caching string getter

definition NewCachingKDSGetter :: "(string \<Rightarrow> bool) \<Rightarrow> string \<Rightarrow> getter option \<Rightarrow> kds_getter" where
  "NewCachingKDSGetter mkdir_ok dir next =
     (case next of
        None \<Rightarrow> Plain None
      | Some n \<Rightarrow>
          (if dir = [] then Plain (Some n)
           else if \<not> mkdir_ok dir then Plain (Some n)
           else Caching dir n))"

lemma split_slash_cons: "\<exists>p ps. split_slash s = p # ps"
  by (induction s) (auto split: list.splits)

lemma split_slash_plain: "CHR ''/'' \<notin> set a \<Longrightarrow> split_slash a = [a]"
  by (induction a) auto

lemma split_slash_append: "CHR ''/'' \<notin> set a \<Longrightarrow> split_slash (a @ CHR ''/'' # s) = a # split_slash s"
  by (induction a) auto

lemma split_slash_eq:
  "split_slash s = p # ps \<longleftrightarrow>
     CHR ''/'' \<notin> set p \<and> (if ps = [] then s = p else \<exists>r. s = p @ CHR ''/'' # r \<and> split_slash r = ps)"
proof (induction s arbitrary: p ps)
  case (Cons c s)
  obtain q qs where q: "split_slash s = q # qs" using split_slash_cons by blast
  show ?case
  proof (cases "c = CHR ''/''")
    case True
    then show ?thesis using q by (cases p) (auto simp: split_slash_plain)
  next
    case False
    then show ?thesis using q Cons.IH [of "tl p" ps]
      by (cases p) (auto split: if_splits)
  qed
qed auto

lemma hex_no_slash: "hex_digit_any c \<Longrightarrow> c \<noteq> CHR ''/''"
  by (auto simp: hex_digit_any_def)

section \<open>Runs\<close>

text \<open>A call asks the server unless the URL is one it keeps and it reads an entry that is not empty.\<close>

definition requests :: "(string \<Rightarrow> err + string) \<Rightarrow> cache_fault \<Rightarrow> string \<Rightarrow> cache_dir \<Rightarrow> bool" where
  "requests url_path fault rawURL dir \<longleftrightarrow>
     \<not> cacheable url_path rawURL \<or> cache_read fault dir (cache_path rawURL) \<in> {None, Some []}"

text \<open>
  The state of a run: the directory and the bodies the server has ever returned, by URL. The server
  may answer differently each time (it is a new function in every step), and the directory may lose
  entries between calls.
\<close>

type_synonym cache_state = "cache_dir \<times> (string \<times> bytes) list"

inductive cache_step :: "(string \<Rightarrow> err + string) \<Rightarrow> cache_state \<Rightarrow> cache_state \<Rightarrow> bool" for url_path where
  get: "caching_GetContext url_path next fault rawURL dir = (r, dir') \<Longrightarrow>
     log' = (if requests url_path fault rawURL dir
             then (case next rawURL of Inl e \<Rightarrow> log | Inr b \<Rightarrow> (rawURL, b) # log) else log) \<Longrightarrow>
     cache_step url_path (dir, log) (dir', log')"
| evict: "cache_step url_path (dir, log) (dir(p := None), log)"

inductive cache_reach :: "(string \<Rightarrow> err + string) \<Rightarrow> cache_state \<Rightarrow> bool" for url_path where
  empty: "cache_reach url_path (Map.empty, [])"
| step: "cache_reach url_path s \<Longrightarrow> cache_step url_path s t \<Longrightarrow> cache_reach url_path t"

inductive_cases cache_stepE: "cache_step url_path s t"

text \<open>The invariant: an entry is a body the server returned for a cacheable URL of that name.\<close>

definition cache_inv :: "(string \<Rightarrow> err + string) \<Rightarrow> cache_state \<Rightarrow> bool" where
  "cache_inv url_path s \<longleftrightarrow>
     (\<forall>p b. fst s p = Some b \<longrightarrow>
        (\<exists>u. p = cache_path u \<and> cacheable url_path u \<and> (u, b) \<in> set (snd s)))"

text \<open>Every outcome of a call.\<close>

lemma caching_cases:
  assumes "caching_GetContext url_path next fault u dir = (r, dir')"
  obtains (fetched) "r = next u" "dir' = dir" "requests url_path fault u dir"
  | (published) b where "cacheable url_path u" "next u = Inr b" "r = Inr b" "dir' = dir(cache_path u \<mapsto> b)"
      "requests url_path fault u dir"
  | (cached) b where "cacheable url_path u" "dir (cache_path u) = Some b" "b \<noteq> []" "r = Inr b" "dir' = dir"
proof (cases "cacheable url_path u")
  case False
  with assms show ?thesis by (intro fetched) (auto simp: caching_GetContext_def requests_def)
next
  case True
  let ?p = "cache_path u"
  let ?fetch = "case next u of Inl e \<Rightarrow> (Inl e, dir) | Inr b \<Rightarrow> (Inr b, cache_publish fault dir ?p b)"
  have run: "(case cache_read fault dir ?p of Some b \<Rightarrow> if 0 < length b then (Inr b, dir) else ?fetch | None \<Rightarrow> ?fetch) = (r, dir')"
    using assms True by (simp add: caching_GetContext_def Let_def)
  have fetch: thesis if "?fetch = (r, dir')" "requests url_path fault u dir"
  proof (cases "next u")
    case (Inl e)
    with that(1) show ?thesis by (intro fetched that(2)) auto
  next
    case (Inr b)
    with that(1) have "r = Inr b" "dir' = cache_publish fault dir ?p b" by auto
    with True Inr show ?thesis
      by (cases "fault \<in> {CreateTempFails, WriteFails, CloseFails, RenameFails}")
        (auto simp: cache_publish_def intro: fetched [OF _ _ that(2)] published [OF _ _ _ _ that(2)])
  qed
  show ?thesis
  proof (cases "cache_read fault dir ?p")
    case None
    with run fetch show ?thesis by (simp add: requests_def)
  next
    case (Some b)
    show ?thesis
    proof (cases "b = []")
      case True
      with Some run fetch show ?thesis by (simp add: requests_def)
    next
      case False
      moreover have "dir ?p = Some b" using Some by (auto simp: cache_read_def split: if_splits)
      ultimately show ?thesis using Some run True by (intro cached) auto
    qed
  qed
qed

lemma cache_inv_step:
  assumes "cache_step url_path s t" and "cache_inv url_path s"
  shows "cache_inv url_path t"
  using assms
proof (induction rule: cache_step.induct)
  case (get "next" fault u dir r dir' log' log)
  have sub: "set log \<subseteq> set log'" using get(2) by (auto split: sum.splits if_splits)
  from get(1) show ?case
  proof (cases rule: caching_cases)
    case (published b)
    with get(2) have "(u, b) \<in> set log'" by simp
    with published sub get(3) show ?thesis by (auto simp: cache_inv_def) blast
  qed (use get(3) sub in \<open>auto simp: cache_inv_def, blast+\<close>)
qed (auto simp: cache_inv_def)

lemma cache_inv_reach: "cache_reach url_path s \<Longrightarrow> cache_inv url_path s"
proof (induction rule: cache_reach.induct)
  case (step s t)
  then show ?case by (blast intro: cache_inv_step)
qed (simp add: cache_inv_def)

lemma cache_path_collision:
  assumes "cache_path u = cache_path v" and "u \<noteq> v"
  shows "collision_in sha256 [bytes_of_string u, bytes_of_string v]"
  using assms by (auto simp: cache_path_def collision_in_def)

section \<open>Properties\<close>

text \<open>
  C33: the cache is transparent. After any sequence of calls, against a server that may change its
  answers and a directory that may lose entries, with any file system fault: a URL that is not an
  endorsement certificate's is always fetched and leaves the directory alone; a call fails only if
  its fetch fails; and what a call returns is either the body just fetched or a non-empty body the
  server has returned before for that very URL, unless two of the URLs asked for collide under
  SHA-256.
\<close>

theorem cache_transparent:
  assumes "cache_reach url_path (dir, log)"
    and "caching_GetContext url_path next fault u dir = (r, dir')"
  shows "(\<not> cacheable url_path u \<longrightarrow> r = next u \<and> dir' = dir) \<and>
    (\<forall>e. r = Inl e \<longrightarrow> next u = Inl e \<and> dir' = dir) \<and>
    (\<forall>b. r = Inr b \<longrightarrow> next u = Inr b \<or> b \<noteq> [] \<and> ((u, b) \<in> set log \<or>
       (\<exists>u'. (u', b) \<in> set log \<and> collision_in sha256 [bytes_of_string u, bytes_of_string u'])))"
proof -
  have inv: "cache_inv url_path (dir, log)" using assms(1) by (rule cache_inv_reach)
  from assms(2) show ?thesis
  proof (cases rule: caching_cases)
    case (cached b)
    with inv obtain u' where "cache_path u = cache_path u'" "(u', b) \<in> set log" by (auto simp: cache_inv_def)
    with cached cache_path_collision [of u u'] show ?thesis by auto
  qed auto
qed

theorem cache_transparent_witness:
  "\<exists>dir log. cache_reach Inr (dir, log) \<and>
     fst (caching_GetContext Inr (\<lambda>_. Inl (Errorf ''offline'')) CacheFine ''/vlek/v1/Milan/cert'' dir) = Inr [1] \<and>
     (\<forall>b. Inr [1] = Inr b \<longrightarrow> (Inl (Errorf ''offline'') :: err + bytes) = Inr b \<or> b \<noteq> [] \<and>
       ((''/vlek/v1/Milan/cert'', b) \<in> set log \<or> (\<exists>u'. (u', b) \<in> set log \<and>
          collision_in sha256 [bytes_of_string ''/vlek/v1/Milan/cert'', bytes_of_string u'])))"
proof -
  let ?u = "''/vlek/v1/Milan/cert''" and ?bad = "\<lambda>_. Inl (Errorf ''offline'')"
  let ?dir = "Map.empty(cache_path ?u \<mapsto> [1])" and ?log = "[(?u, [1])]"
  have c: "cacheable Inr ?u" by code_simp
  have get: "caching_GetContext Inr (\<lambda>_. Inr [1]) CacheFine ?u Map.empty = (Inr [1], ?dir)"
    using c by (simp add: caching_GetContext_def cache_read_def cache_publish_def)
  have "cache_step Inr (Map.empty, []) (?dir, ?log)" by (rule cache_step.get [OF get]) (simp add: requests_def cache_read_def)
  then have reach: "cache_reach Inr (?dir, ?log)" by (rule cache_reach.step [OF cache_reach.empty])
  have hit: "caching_GetContext Inr ?bad CacheFine ?u ?dir = (Inr [1], ?dir)"
    using c by (simp add: caching_GetContext_def cache_read_def)
  from cache_transparent [OF reach hit] reach hit show ?thesis
    by (intro exI [of _ ?dir] exI [of _ ?log]) simp
qed

text \<open>
  Which URLs are cached. The matcher accepts a path exactly when it is one of the two shapes
  the certificate URLs have: \<open>/vcek/v1/\<close>, a product, and 128 hex digits, or \<open>/vlek/v1/\<close>, a product, and
  \<open>cert\<close>, the product being non-empty and without a slash.
\<close>

lemma endorsementPath_exact:
  "endorsementPath p \<longleftrightarrow>
     (\<exists>product. product \<noteq> [] \<and> CHR ''/'' \<notin> set product \<and>
        ((\<exists>chip. length chip = 128 \<and> list_all hex_digit_any chip \<and> p = ''/vcek/v1/'' @ product @ ''/'' @ chip) \<or>
         p = ''/vlek/v1/'' @ product @ ''/cert''))"
  (is "?l \<longleftrightarrow> ?r")
proof
  assume ?l
  then obtain kind product leaf where s: "split_slash p = [[], kind, ''v1'', product, leaf]" "product \<noteq> []"
    "kind = ''vcek'' \<and> length leaf = 128 \<and> list_all hex_digit_any leaf \<or> kind = ''vlek'' \<and> leaf = ''cert''"
    by (auto simp: endorsementPath_def split: list.splits)
  from s(1) have "p = CHR ''/'' # kind @ CHR ''/'' # ''v1'' @ CHR ''/'' # product @ CHR ''/'' # leaf"
    "CHR ''/'' \<notin> set product"
    unfolding split_slash_eq by auto
  with s(2,3) show ?r by (intro exI [of _ product]) auto
next
  assume ?r
  then obtain product where pr: "product \<noteq> []" "CHR ''/'' \<notin> set product"
    and p: "(\<exists>chip. length chip = 128 \<and> list_all hex_digit_any chip \<and> p = ''/vcek/v1/'' @ product @ ''/'' @ chip) \<or>
         p = ''/vlek/v1/'' @ product @ ''/cert''" by blast
  have s: "split_slash (CHR ''/'' # kind @ CHR ''/'' # ''v1'' @ CHR ''/'' # product @ CHR ''/'' # leaf) =
      [[], kind, ''v1'', product, leaf]" if "CHR ''/'' \<notin> set kind" "CHR ''/'' \<notin> set leaf" for kind leaf
    using that pr(2) split_slash_append [of kind] split_slash_append [of "''v1''"] split_slash_append [of product]
    by (simp add: split_slash_plain)
  have leaf: "CHR ''/'' \<notin> set chip" if "list_all hex_digit_any chip" for chip
    using that hex_no_slash by (auto simp: list_all_iff)
  from p show ?l
  proof (elim disjE exE conjE)
    fix chip assume c: "length chip = 128" "list_all hex_digit_any chip" "p = ''/vcek/v1/'' @ product @ ''/'' @ chip"
    have "split_slash p = [[], ''vcek'', ''v1'', product, chip]"
      using s [of "''vcek''" chip] leaf [OF c(2)] c(3) by simp
    with c pr(1) show ?l by (simp add: endorsementPath_def)
  next
    assume "p = ''/vlek/v1/'' @ product @ ''/cert''"
    then have "split_slash p = [[], ''vlek'', ''v1'', product, ''cert'']" using s [of "''vlek''" "''cert''"] by simp
    with pr(1) show ?l by (simp add: endorsementPath_def)
  qed
qed

end
