(* ===== verification/Der.thy ===== *)
theory Der
  imports Tpm Utf8
begin

text \<open>
  The part of \<open>encoding/asn1\<close> that the certificate extension of \<open>armtls/extension.go\<close> uses: the DER
  encoding of a SEQUENCE of an INTEGER, two OCTET STRINGs and an optional, explicitly tagged SEQUENCE
  OF strings, and its decoder.

  The decoder works on the rest of the input instead of an offset. Like the library's it refuses
  indefinite and non-minimal lengths and non-minimal integers, accepts every ASN.1 string type where
  a string is expected, reads the optional member only if its tag matches, and ignores members that
  follow.
\<close>

section \<open>Encoding\<close>

definition der_length :: "nat \<Rightarrow> bytes" where
  "der_length n =
     (if n < 128 then [word_of_nat n]
      else word_of_nat (128 + byte_width n) # be_bytes (byte_width n) n)"

definition tlv :: "byte \<Rightarrow> bytes \<Rightarrow> bytes" where
  "tlv tag body = tag # der_length (length body) @ body"

record ext_asn1 =
  AsnTEEType :: int
  AsnReport :: bytes
  AsnCertChain :: bytes
  AsnRuntimeExtensions :: "string list"

text \<open>\<open>asn1.Marshal\<close> of small non-negative TEE types and printable strings, all this code encodes.\<close>

definition asn1_marshal :: "ext_asn1 \<Rightarrow> bytes" where
  "asn1_marshal v =
     tlv 0x30
       (tlv 2 [word_of_int (AsnTEEType v)] @ tlv 4 (AsnReport v) @ tlv 4 (AsnCertChain v) @
        (if AsnRuntimeExtensions v = [] then []
         else tlv 0xA0 (tlv 0x30 (concat (map (\<lambda>s. tlv 19 (bytes_of_string s)) (AsnRuntimeExtensions v))))))"

section \<open>Decoding\<close>

record der_tag =
  TagClass :: nat
  TagNumber :: nat
  TagCompound :: bool
  TagLength :: nat

text \<open>A tag number of several bytes: at most five, minimal, below \<open>2^31\<close>.\<close>

fun parse_base128 :: "nat \<Rightarrow> nat \<Rightarrow> bytes \<Rightarrow> err + (nat \<times> bytes)" where
  "parse_base128 i acc [] = Inl (Errorf ''truncated base 128 integer'')"
| "parse_base128 i acc (b # r) =
     (if i = 5 then Inl (Errorf ''base 128 integer too large'')
      else if i = 0 \<and> b = 0x80 then Inl (Errorf ''integer is not minimally encoded'')
      else
        let a = acc * 128 + unat b mod 128 in
        if unat b < 128 then (if 2 ^ 31 \<le> a then Inl (Errorf ''base 128 integer too large'') else Inr (a, r))
        else parse_base128 (Suc i) a r)"

text \<open>The \<open>n\<close> bytes of a long length.\<close>

fun parse_long_length :: "nat \<Rightarrow> nat \<Rightarrow> bytes \<Rightarrow> err + (nat \<times> bytes)" where
  "parse_long_length 0 acc r = Inr (acc, r)"
| "parse_long_length (Suc n) acc [] = Inl (Errorf ''truncated tag or length'')"
| "parse_long_length (Suc n) acc (b # r) =
     (if 2 ^ 23 \<le> acc then Inl (Errorf ''length too large'')
      else
        let a = acc * 256 + unat b in
        if a = 0 then Inl (Errorf ''superfluous leading zeros in length'') else parse_long_length n a r)"

definition parse_length :: "bytes \<Rightarrow> err + (nat \<times> bytes)" where
  "parse_length s =
     (case s of
        [] \<Rightarrow> Inl (Errorf ''truncated tag or length'')
      | b # r \<Rightarrow>
          if unat b < 128 then Inr (unat b, r)
          else if b = 0x80 then Inl (Errorf ''indefinite length found (not DER)'')
          else
            bindr (parse_long_length (unat b mod 128) 0 r) (\<lambda>(n, r').
            if n < 128 then Inl (Errorf ''non-minimal length'') else Inr (n, r')))"

definition parseTagAndLength :: "bytes \<Rightarrow> err + (der_tag \<times> bytes)" where
  "parseTagAndLength s =
     (case s of
        [] \<Rightarrow> Inl (Errorf ''truncated tag or length'')
      | b # r \<Rightarrow>
          bindr
            (if unat b mod 32 = 31
             then bindr (parse_base128 0 0 r) (\<lambda>(t, r'). if t < 31 then Inl (Errorf ''non-minimal tag'') else Inr (t, r'))
             else Inr (unat b mod 32, r)) (\<lambda>(t, r1).
          bindr (parse_length r1) (\<lambda>(n, r2).
          Inr (\<lparr>TagClass = unat b div 64, TagNumber = t, TagCompound = odd (unat b div 32), TagLength = n\<rparr>, r2))))"

text \<open>A member that must be there: its content and what follows.\<close>

definition parse_member :: "nat \<Rightarrow> bool \<Rightarrow> bytes \<Rightarrow> err + (bytes \<times> bytes)" where
  "parse_member tag compound s =
     (if s = [] then Inl (Errorf ''sequence truncated'')
      else
        bindr (parseTagAndLength s) (\<lambda>(t, r).
        if TagClass t \<noteq> 0 \<or> TagNumber t \<noteq> tag \<or> TagCompound t \<noteq> compound then Inl (Errorf ''tags don't match'')
        else if length r < TagLength t then Inl (Errorf ''data truncated'')
        else Inr (take (TagLength t) r, drop (TagLength t) r)))"

definition parse_int64 :: "bytes \<Rightarrow> err + int" where
  "parse_int64 b =
     (case b of
        [] \<Rightarrow> Inl (Errorf ''empty integer'')
      | h # r \<Rightarrow>
          if r \<noteq> [] \<and> (h = 0 \<and> unat (hd r) < 128 \<or> h = 0xFF \<and> 128 \<le> unat (hd r))
          then Inl (Errorf ''integer not minimally-encoded'')
          else if 8 < length b then Inl (Errorf ''integer too large'')
          else Inr (if unat h < 128 then int (be_nat b) else int (be_nat b) - 256 ^ length b))"

definition isPrintable :: "char \<Rightarrow> bool" where
  "isPrintable c \<longleftrightarrow>
     c \<in> set ''abcdefghijklmnopqrstuvwxyzABCDEFGHIJKLMNOPQRSTUVWXYZ0123456789 ()+,-./:=?*&'' \<or> c = CHR 0x27"

text \<open>
  The text of a string member by its tag. Of a BMPString with characters beyond ASCII only that it
  is no text this code accepts is kept.
\<close>

fun bmp_text :: "bytes \<Rightarrow> err + string" where
  "bmp_text [] = Inr []"
| "bmp_text [x] = Inl (Errorf ''odd-length BMP string'')"
| "bmp_text (x # y # r) =
     bindr (bmp_text r) (\<lambda>s.
     if x = 0 \<and> unat y < 128 then Inr (char_of (unat y) # s) else Inl (Errorf ''not ASCII''))"

definition string_text :: "nat \<Rightarrow> bytes \<Rightarrow> err + string" where
  "string_text tag b =
     (let s = string_of_bytes b in
      if tag = 19 then (if list_all isPrintable s then Inr s else Inl (Errorf ''PrintableString''))
      else if tag = 22 then (if list_all (\<lambda>x. unat x < 128) b then Inr s else Inl (Errorf ''IA5String''))
      else if tag = 18 then (if list_all (\<lambda>c. c \<in> set ''0123456789 '') s then Inr s else Inl (Errorf ''NumericString''))
      else if tag = 12 then (if utf8_valid s then Inr s else Inl (Errorf ''invalid UTF-8''))
      else if tag = 30 then
        (let n = length b in
         bmp_text (if 2 \<le> n \<and> b ! (n - 1) = 0 \<and> b ! (n - 2) = 0 \<and> even n then take (n - 2) b else b))
      else if tag \<in> {20, 27} then Inr s
      else Inl (Errorf ''sequence tag mismatch''))"

lemma parse_base128_shorter: "parse_base128 i acc s = Inr (t, r) \<Longrightarrow> length r < length s"
  by (induction i acc s rule: parse_base128.induct) (auto simp: Let_def split: if_splits)

lemma parse_long_length_shorter: "parse_long_length n acc s = Inr (m, r) \<Longrightarrow> length r \<le> length s"
  by (induction n acc s rule: parse_long_length.induct) (auto simp: Let_def split: if_splits)

lemma parse_length_shorter: "parse_length s = Inr (n, r) \<Longrightarrow> length r < length s"
  by (auto simp: parse_length_def split: list.splits if_splits dest!: parse_long_length_shorter)

lemma parseTagAndLength_shorter: "parseTagAndLength s = Inr (t, r) \<Longrightarrow> length r < length s"
  by (auto simp: parseTagAndLength_def split: list.splits if_splits
      dest!: parse_length_shorter parse_base128_shorter)

text \<open>The elements of a SEQUENCE OF string.\<close>

function parse_strings :: "bytes \<Rightarrow> err + string list" where
  "parse_strings s =
     (if s = [] then Inr []
      else case parseTagAndLength s of
          Inl e \<Rightarrow> Inl e
        | Inr (t, r) \<Rightarrow>
            if TagClass t \<noteq> 0 \<or> TagCompound t then Inl (Errorf ''sequence tag mismatch'')
            else if length r < TagLength t then Inl (Errorf ''truncated sequence'')
            else
              bindr (string_text (TagNumber t) (take (TagLength t) r)) (\<lambda>x.
              bindr (parse_strings (drop (TagLength t) r)) (\<lambda>xs. Inr (x # xs))))"
  by pat_completeness auto
termination
  by (relation "measure length") (auto dest!: parseTagAndLength_shorter)

declare parse_strings.simps [simp del]

text \<open>
  The optional member with explicit tag 0. A member with another tag is left alone; the inner
  SEQUENCE is read by its own length.
\<close>

definition parse_optional_strings :: "bytes \<Rightarrow> err + string list" where
  "parse_optional_strings s =
     (if s = [] then Inr []
      else
        bindr (parseTagAndLength s) (\<lambda>(t, r).
        if r = [] then Inl (Errorf ''explicit tag has no child'')
        else if TagClass t = 2 \<and> TagNumber t = 0 \<and> (TagLength t = 0 \<or> TagCompound t) then
          (if TagLength t = 0 then Inl (Errorf ''zero length explicit tag was not an asn1.Flag'')
           else
             bindr (parseTagAndLength r) (\<lambda>(t2, r2).
             if TagClass t2 \<noteq> 0 \<or> TagNumber t2 \<noteq> 16 \<or> \<not> TagCompound t2 then Inr []
             else if length r2 < TagLength t2 then Inl (Errorf ''data truncated'')
             else parse_strings (take (TagLength t2) r2)))
        else Inr []))"

definition asn1_unmarshal :: "bytes \<Rightarrow> err + (ext_asn1 \<times> bytes)" where
  "asn1_unmarshal der =
     bindr (parse_member 16 True der) (\<lambda>(body, rest).
     bindr (parse_member 2 False body) (\<lambda>(i, s1).
     bindr (parse_int64 i) (\<lambda>tee.
     bindr (parse_member 4 False s1) (\<lambda>(report, s2).
     bindr (parse_member 4 False s2) (\<lambda>(chain, s3).
     bindr (parse_optional_strings s3) (\<lambda>exts.
     Inr (\<lparr>AsnTEEType = tee, AsnReport = report, AsnCertChain = chain, AsnRuntimeExtensions = exts\<rparr>, rest)))))))"

section \<open>Round trip\<close>

lemma be_nat_Cons: "be_nat (x # b) = unat x * 256 ^ length b + be_nat b"
proof (induction b rule: rev_induct)
  case (snoc y b)
  then show ?case using be_nat_simps(2) [of "x # b" y] by (simp add: algebra_simps)
qed (simp add: be_nat_def)

lemma parse_long_length_bytes:
  "acc * 256 ^ length ds + be_nat ds < 2 ^ 31 \<Longrightarrow> acc \<noteq> 0 \<or> ds = [] \<or> hd ds \<noteq> 0 \<Longrightarrow>
     parse_long_length (length ds) acc (ds @ r) = Inr (acc * 256 ^ length ds + be_nat ds, r)"
proof (induction ds arbitrary: acc)
  case (Cons d ds)
  let ?a = "acc * 256 + unat d"
  have v: "acc * 256 ^ length (d # ds) + be_nat (d # ds) = ?a * 256 ^ length ds + be_nat ds"
    by (simp add: be_nat_Cons algebra_simps)
  have "?a \<le> ?a * 256 ^ length ds" by simp
  then have "acc * 256 < 2 ^ 31" using Cons.prems(1) unfolding v by linarith
  then have "acc < 2 ^ 23" by simp
  moreover have "?a \<noteq> 0" using Cons.prems(2) by (auto simp: unat_eq_0)
  ultimately show ?case using Cons.IH [of ?a] Cons.prems(1) unfolding v by (simp add: Let_def)
qed simp

lemma byte_width_bounds: "n < 256 ^ byte_width n \<and> (0 < n \<longrightarrow> 256 ^ (byte_width n - 1) \<le> n)"
proof (induction n rule: byte_width.induct)
  case (1 n)
  show ?case
  proof (cases "n = 0")
    case False
    then have w: "byte_width n = Suc (byte_width (n div 256))" by (simp add: byte_width.simps [of n])
    from 1 False have ih: "n div 256 < 256 ^ byte_width (n div 256)"
      "0 < n div 256 \<longrightarrow> 256 ^ (byte_width (n div 256) - 1) \<le> n div 256" by simp_all
    from ih(1) have "n < 256 ^ byte_width n"
      unfolding w by (simp add: less_mult_imp_div_less div_less_iff_less_mult mult.commute)
    moreover have "256 ^ (byte_width n - 1) \<le> n"
    proof (cases "n div 256 = 0")
      case True
      then have "byte_width n = 1" unfolding w by (simp add: byte_width.simps)
      then show ?thesis using False by simp
    next
      case nz: False
      then have "byte_width (n div 256) \<noteq> 0" by (simp add: byte_width.simps [of "n div 256"])
      then have "256 ^ (byte_width n - 1) = 256 * 256 ^ (byte_width (n div 256) - 1)"
        unfolding w by (metis One_nat_def diff_Suc_1 power_Suc Suc_pred neq0_conv)
      also have "\<dots> \<le> 256 * (n div 256)" using ih(2) nz by simp
      also have "\<dots> \<le> n" by simp
      finally show ?thesis .
    qed
    ultimately show ?thesis by simp
  qed (simp add: byte_width.simps)
qed

lemma hd_be_bytes:
  assumes "256 ^ k \<le> n" and "n < 256 ^ Suc k"
  shows "hd (be_bytes (Suc k) n) \<noteq> 0"
proof
  assume h: "hd (be_bytes (Suc k) n) = 0"
  obtain d ds where d: "be_bytes (Suc k) n = d # ds" by (metis length_Suc_conv length_be_bytes)
  then have l: "length ds = k" by (metis length_Cons length_be_bytes Suc_inject)
  have "n = be_nat (d # ds)" using assms(2) by (simp flip: d)
  also have "\<dots> = be_nat ds" using h d by (simp add: be_nat_Cons)
  also have "\<dots> < 256 ^ k" using be_nat_lt [of ds] l by simp
  finally show False using assms(1) by simp
qed

lemma parse_length_der: "n < 2 ^ 31 \<Longrightarrow> parse_length (der_length n @ r) = Inr (n, r)"
proof (cases "n < 128")
  case False
  assume n: "n < 2 ^ 31"
  define k where "k = byte_width n"
  have b: "n < 256 ^ k" "256 ^ (k - 1) \<le> n" using byte_width_bounds [of n] False unfolding k_def by auto
  have "(256::nat) ^ (k - 1) < 256 ^ 4" using b(2) n by simp
  then have "k - 1 < 4" by (subst (asm) power_strict_increasing_iff) simp_all
  moreover have "k \<noteq> 0" using b(1) False by (cases k) auto
  ultimately have k: "0 < k" "k \<le> 4" by simp_all
  then have hd: "hd (be_bytes k n) \<noteq> 0" using hd_be_bytes [of "k - 1" n] b by simp
  have u: "unat (word_of_nat (128 + k) :: byte) = 128 + k" using k(2) by (intro unat_of_byte) simp
  have ne: "word_of_nat (128 + k) \<noteq> (0x80 :: byte)"
  proof
    assume "word_of_nat (128 + k) = (0x80 :: byte)"
    then have "unat (word_of_nat (128 + k) :: byte) = 128" by simp
    with u k(1) show False by simp
  qed
  have m: "(128 + k) mod 128 = k" using k(2) by simp
  have "parse_long_length k 0 (be_bytes k n @ r) = Inr (n, r)"
    using parse_long_length_bytes [of 0 "be_bytes k n" r] n b(1) hd by simp
  then show ?thesis using False u ne m
    by (simp add: parse_length_def der_length_def k_def [symmetric] del: of_nat_add)
qed (simp add: parse_length_def der_length_def)

text \<open>Reading back one element with a one-byte tag.\<close>

lemma parse_tlv:
  assumes "unat tag mod 32 \<noteq> 31" and "length body < 2 ^ 31"
  shows "parseTagAndLength (tlv tag body @ r) =
    Inr (\<lparr>TagClass = unat tag div 64, TagNumber = unat tag mod 32, TagCompound = odd (unat tag div 32),
      TagLength = length body\<rparr>, body @ r)"
  using assms by (simp add: parseTagAndLength_def tlv_def parse_length_der)

lemma tlv_ne [simp]: "tlv tag body @ r \<noteq> []" "tlv tag body \<noteq> []"
  by (simp_all add: tlv_def)

lemma parse_member_tlv:
  assumes "unat tag mod 32 = n" and "unat tag div 64 = 0" and "odd (unat tag div 32) = c" and "n \<noteq> 31"
    and "length body < 2 ^ 31"
  shows "parse_member n c (tlv tag body @ r) = Inr (body, r)"
  using assms by (simp add: parse_member_def parse_tlv)

lemma length_tlv: "length (tlv tag body) = 1 + length (der_length (length body)) + length body"
  by (simp add: tlv_def)

lemma length_tlv_ge: "length body \<le> length (tlv tag body)"
  by (simp add: length_tlv)

text \<open>A printable string in a SEQUENCE OF.\<close>

lemma parse_strings_image:
  assumes "list_all (\<lambda>s. list_all isPrintable s) xs"
    and "length (concat (map (\<lambda>s. tlv 19 (bytes_of_string s)) xs)) < 2 ^ 31"
  shows "parse_strings (concat (map (\<lambda>s. tlv 19 (bytes_of_string s)) xs)) = Inr xs"
  using assms
proof (induction xs)
  case (Cons x xs)
  let ?r = "concat (map (\<lambda>s. tlv 19 (bytes_of_string s)) xs)"
  have "length (bytes_of_string x) < 2 ^ 31" using Cons.prems(2) length_tlv_ge [of "bytes_of_string x" 19] by simp
  then have "parseTagAndLength (tlv 19 (bytes_of_string x) @ ?r) =
    Inr (\<lparr>TagClass = 0, TagNumber = 19, TagCompound = False, TagLength = length (bytes_of_string x)\<rparr>,
      bytes_of_string x @ ?r)" by (subst parse_tlv) simp_all
  moreover have "string_text 19 (bytes_of_string x) = Inr x" using Cons.prems(1) by (simp add: string_text_def)
  moreover have "parse_strings ?r = Inr xs" using Cons by simp
  ultimately show ?case by (simp add: parse_strings.simps [of "tlv 19 (bytes_of_string x) @ ?r"])
qed (simp add: parse_strings.simps)

definition ext_ok :: "ext_asn1 \<Rightarrow> bool" where
  "ext_ok v \<longleftrightarrow>
     0 \<le> AsnTEEType v \<and> AsnTEEType v < 128 \<and> length (asn1_marshal v) < 2 ^ 31 \<and>
     list_all (\<lambda>s. list_all isPrintable s) (AsnRuntimeExtensions v)"

lemma parse_optional_image:
  assumes "list_all (\<lambda>s. list_all isPrintable s) xs" and "xs \<noteq> []"
    and "length (tlv 0xA0 (tlv 0x30 (concat (map (\<lambda>s. tlv 19 (bytes_of_string s)) xs)))) < 2 ^ 31"
  shows "parse_optional_strings (tlv 0xA0 (tlv 0x30 (concat (map (\<lambda>s. tlv 19 (bytes_of_string s)) xs)))) = Inr xs"
proof -
  let ?c = "concat (map (\<lambda>s. tlv 19 (bytes_of_string s)) xs)"
  have l: "length (tlv 0x30 ?c) < 2 ^ 31" using length_tlv_ge [of "tlv 0x30 ?c" "0xA0"] assms(3) by linarith
  then have lc: "length ?c < 2 ^ 31" using length_tlv_ge [of ?c "0x30"] by linarith
  have "parseTagAndLength (tlv 0xA0 (tlv 0x30 ?c)) =
      Inr (\<lparr>TagClass = 2, TagNumber = 0, TagCompound = True, TagLength = length (tlv 0x30 ?c)\<rparr>, tlv 0x30 ?c)"
    using parse_tlv [of "0xA0" "tlv 0x30 ?c" "[]"] l by simp
  moreover have "parseTagAndLength (tlv 0x30 ?c) =
      Inr (\<lparr>TagClass = 0, TagNumber = 16, TagCompound = True, TagLength = length ?c\<rparr>, ?c)"
    using parse_tlv [of "0x30" ?c "[]"] lc by simp
  moreover have "length (tlv 0x30 ?c) \<noteq> 0" by simp
  ultimately show ?thesis
    using parse_strings_image [OF assms(1) lc] by (simp add: parse_optional_strings_def)
qed

text \<open>Decoding inverts encoding, with nothing left over.\<close>

lemma asn1_round_trip:
  assumes "ext_ok v"
  shows "asn1_unmarshal (asn1_marshal v) = Inr (v, [])"
proof -
  let ?opt = "if AsnRuntimeExtensions v = [] then []
         else tlv 0xA0 (tlv 0x30 (concat (map (\<lambda>s. tlv 19 (bytes_of_string s)) (AsnRuntimeExtensions v))))"
  let ?i = "[word_of_int (AsnTEEType v)] :: bytes"
  let ?body = "tlv 2 ?i @ tlv 4 (AsnReport v) @ tlv 4 (AsnCertChain v) @ ?opt"
  have m: "asn1_marshal v = tlv 0x30 ?body" by (simp add: asn1_marshal_def)
  then have lb: "length ?body < 2 ^ 31" using assms length_tlv_ge [of ?body "0x30"] by (simp add: ext_ok_def)
  then have l: "length (AsnReport v) < 2 ^ 31" "length (AsnCertChain v) < 2 ^ 31" "length ?opt < 2 ^ 31"
    using length_tlv_ge [of "AsnReport v" 4] length_tlv_ge [of "AsnCertChain v" 4] by (simp_all split: if_splits)
  have opt: "parse_optional_strings ?opt = Inr (AsnRuntimeExtensions v)"
  proof (cases "AsnRuntimeExtensions v = []")
    case False
    with assms l(3) show ?thesis by (simp add: parse_optional_image ext_ok_def)
  qed (simp add: parse_optional_strings_def)
  have int: "parse_int64 ?i = Inr (AsnTEEType v)"
  proof -
    obtain n where n: "AsnTEEType v = int n" "n < 128" using assms by (auto simp: ext_ok_def elim: nonneg_int_cases)
    then have "unat (word_of_int (AsnTEEType v) :: byte) = n" using unat_of_byte [of n] by simp
    with n show ?thesis by (simp add: parse_int64_def be_nat_def)
  qed
  have "parse_member 16 True (tlv 0x30 ?body @ []) = Inr (?body, [])" using lb by (intro parse_member_tlv) simp_all
  moreover have "parse_member 2 False ?body = Inr (?i, tlv 4 (AsnReport v) @ tlv 4 (AsnCertChain v) @ ?opt)"
    by (rule parse_member_tlv) simp_all
  moreover have "parse_member 4 False (tlv 4 (AsnReport v) @ tlv 4 (AsnCertChain v) @ ?opt) =
      Inr (AsnReport v, tlv 4 (AsnCertChain v) @ ?opt)"
    using l by (intro parse_member_tlv) simp_all
  moreover have "parse_member 4 False (tlv 4 (AsnCertChain v) @ ?opt) = Inr (AsnCertChain v, ?opt)"
    using l by (intro parse_member_tlv) simp_all
  ultimately show ?thesis using opt int by (simp add: asn1_unmarshal_def m del: append_assoc)
qed

end
