(* ===== verification/ArmTls.thy ===== *)
theory ArmTls
  imports TeeVerify Der
begin

text \<open>
  Attested TLS, the package \<open>armtls\<close>: the certificate extension (\<open>extension.go\<close>), the evidence it
  carries (\<open>evidence.go\<close>, \<open>snpreport.go\<close>) and the verification of a certificate's key (\<open>verify.go\<close>).

  The DER codec is that of \<open>Der\<close>. \<open>encoding/json\<close> is the parameter \<open>arm_json\<close>. A certificate is its
  extensions and its key; a key is its kind and the bytes the encodings of the standard library take
  from it (the uncompressed point of a curve, none when it is not on the curve).
\<close>

section \<open>Keys\<close>

datatype ec_curve = P224 | P256 | P384 | P521 | OtherCurve

datatype public_key = EcdsaKey ec_curve "bytes option" | Ed25519Key bytes | OtherKey

text \<open>\<open>x509.MarshalPKIXPublicKey\<close> of an ECDSA key: the fixed DER header of its curve, then the point.\<close>

fun pkix_header :: "ec_curve \<Rightarrow> bytes option" where
  "pkix_header P224 = Some [0x30, 0x4e, 0x30, 0x10, 0x06, 0x07, 0x2a, 0x86, 0x48, 0xce, 0x3d, 0x02, 0x01,
     0x06, 0x05, 0x2b, 0x81, 0x04, 0x00, 0x21, 0x03, 0x3a, 0x00]"
| "pkix_header P256 = Some [0x30, 0x59, 0x30, 0x13, 0x06, 0x07, 0x2a, 0x86, 0x48, 0xce, 0x3d, 0x02, 0x01,
     0x06, 0x08, 0x2a, 0x86, 0x48, 0xce, 0x3d, 0x03, 0x01, 0x07, 0x03, 0x42, 0x00]"
| "pkix_header P384 = Some [0x30, 0x76, 0x30, 0x10, 0x06, 0x07, 0x2a, 0x86, 0x48, 0xce, 0x3d, 0x02, 0x01,
     0x06, 0x05, 0x2b, 0x81, 0x04, 0x00, 0x22, 0x03, 0x62, 0x00]"
| "pkix_header P521 = Some [0x30, 0x81, 0x9b, 0x30, 0x10, 0x06, 0x07, 0x2a, 0x86, 0x48, 0xce, 0x3d, 0x02, 0x01,
     0x06, 0x05, 0x2b, 0x81, 0x04, 0x00, 0x23, 0x03, 0x81, 0x86, 0x00]"
| "pkix_header OtherCurve = None"

definition MarshalPKIXPublicKey :: "ec_curve \<Rightarrow> bytes option \<Rightarrow> err + bytes" where
  "MarshalPKIXPublicKey curve point =
     (case pkix_header curve of
        None \<Rightarrow> Inl (Errorf ''unsupported elliptic curve'')
      | Some h \<Rightarrow>
          (case point of None \<Rightarrow> Inl (Errorf ''invalid elliptic curve public key'') | Some p \<Rightarrow> Inr (h @ p)))"

fun marshalPublicKey :: "public_key \<Rightarrow> err + bytes" where
  "marshalPublicKey (EcdsaKey curve point) = MarshalPKIXPublicKey curve point"
| "marshalPublicKey (Ed25519Key k) = Inr k"
| "marshalPublicKey OtherKey = Inl (Errorf ''unsupported key type'')"

definition ReportDataForKey :: "public_key \<Rightarrow> bytes \<Rightarrow> err + bytes" where
  "ReportDataForKey pub nonce =
     bindr (wrap_err (Errorf ''marshal public key'') (marshalPublicKey pub)) (\<lambda>keyBytes.
     Inr (pad (sha384 (keyBytes @ nonce)) 64))"

section \<open>The attestation\<close>

abbreviation (input) SNPReportSize :: nat where "SNPReportSize \<equiv> ReportSize"
abbreviation (input) ReportDataOffset :: nat where "ReportDataOffset \<equiv> 80"
abbreviation (input) wireSNP :: int where "wireSNP \<equiv> 1"
abbreviation (input) wireTDX :: int where "wireTDX \<equiv> 2"
abbreviation (input) MaxRuntimeExtensions :: nat where "MaxRuntimeExtensions \<equiv> 256"

fun wireTEEType :: "family \<Rightarrow> err + int" where
  "wireTEEType FamilySNP = Inr wireSNP"
| "wireTEEType FamilyTDX = Inr wireTDX"
| "wireTEEType FamilyUnknown = Inl (Wrap (Sentinel ErrUnsupportedTEE) (Errorf ''no ARmTLS wire value''))"

definition familyFromWire :: "int \<Rightarrow> err + family" where
  "familyFromWire v =
     (if v = wireSNP then Inr FamilySNP
      else if v = wireTDX then Inr FamilyTDX
      else Inl (Wrap (Sentinel ErrUnsupportedTEE) (Errorf ''TEE type'')))"

record attestation =
  ArmFamily :: family
  ArmReport :: bytes
  ArmCertChain :: bytes
  ArmRuntimeExtensions :: "string list"
  ArmEmbedded :: "attestation_evidence option"

record arm_json =
  UnmarshalArmEnvelope :: "bytes \<Rightarrow> err + attestation_evidence"
  MarshalArmEnvelope :: "attestation_evidence \<Rightarrow> err + bytes"
  UnmarshalSnpFields :: "bytes \<Rightarrow> err + (snp_evidence \<times> string)"
  UnmarshalSnpCollateral :: "bytes \<Rightarrow> err + snp_evidence"
  MarshalSnpEvidence :: "snp_evidence \<Rightarrow> err + bytes"
  UnmarshalTdxQuote :: "bytes \<Rightarrow> err + string"
  MarshalTdxQuote :: "string \<Rightarrow> err + bytes"

definition arm_invalid :: "string \<Rightarrow> err" where
  "arm_invalid m = Wrap (Sentinel ErrInvalidReport) (Errorf m)"

definition checkRuntimeExtensions :: "family \<Rightarrow> string list \<Rightarrow> err + unit" where
  "checkRuntimeExtensions f exts =
     (if exts \<noteq> [] \<and> f \<noteq> FamilyTDX then Inl (arm_invalid ''only TDX extends at runtime'')
      else if MaxRuntimeExtensions < length exts then Inl (arm_invalid ''too many runtime extensions'')
      else for_each (\<lambda>d. if CanonicalDigest d \<noteq> Inr d then Inl (arm_invalid ''not a canonical sha256 digest'') else Inr ()) exts)"

record x509_extension =
  ExtId :: "int list"
  ExtCritical :: bool
  ExtValue :: bytes

definition MarshalExtension :: "attestation \<Rightarrow> int list \<Rightarrow> err + x509_extension" where
  "MarshalExtension a oid =
     (if oid = [] then Inl (Errorf ''no extension OID'')
      else
        bindr (wireTEEType (ArmFamily a)) (\<lambda>teeType.
        bindr
          (if ArmRuntimeExtensions a \<noteq> [] \<and> ArmFamily a = FamilyTDX
           then bindr (checkRuntimeExtensions (ArmFamily a) (ArmRuntimeExtensions a)) (\<lambda>_. Inr (ArmRuntimeExtensions a))
           else Inr []) (\<lambda>exts.
        Inr \<lparr>ExtId = oid, ExtCritical = False,
             ExtValue = asn1_marshal \<lparr>AsnTEEType = teeType, AsnReport = ArmReport a, AsnCertChain = ArmCertChain a,
               AsnRuntimeExtensions = exts\<rparr>\<rparr>)))"

definition NormalizeSEVSNPReport :: "bytes \<Rightarrow> err + bytes" where
  "NormalizeSEVSNPReport raw =
     (if length raw = SNPReportSize then Inr raw
      else
        bindr (wrap_err (Sentinel ErrInvalidReport) (ParseHCLReport raw)) (\<lambda>hcl.
        if ReportType hcl \<noteq> HCLReportTypeSNP then Inl (arm_invalid ''HCL report type'')
        else Inr (TEEReport hcl)))"

definition parseEmbeddedEvidence :: "arm_json \<Rightarrow> bytes \<Rightarrow> err + attestation_evidence option" where
  "parseEmbeddedEvidence js raw =
     (let trimmed = trim_space (string_of_bytes raw) in
      if trimmed = [] \<or> hd trimmed \<noteq> CHR 0x7B then Inr None
      else
        bindr (wrap_err (Errorf ''parse embedded attestation evidence'')
                (UnmarshalArmEnvelope js (bytes_of_string trimmed))) (\<lambda>env.
        if EvPlatform env = [] \<or> EvEvidence env = [] then Inl (arm_invalid ''no platform or no payload'')
        else Inr (Some (env\<lparr>EvPlatform := NormalizePlatform (EvPlatform env)\<rparr>))))"

definition newAttestation ::
    "arm_json \<Rightarrow> family \<Rightarrow> bytes \<Rightarrow> bytes \<Rightarrow> attestation_evidence option \<Rightarrow> err + attestation" where
  "newAttestation js f report certChain embedded0 =
     bindr (wireTEEType f) (\<lambda>_.
     bindr
       (case embedded0 of Some e \<Rightarrow> Inr (Some e) | None \<Rightarrow> parseEmbeddedEvidence js report) (\<lambda>embedded.
     let att = \<lparr>ArmFamily = f, ArmReport = report, ArmCertChain = certChain, ArmRuntimeExtensions = [],
           ArmEmbedded = None\<rparr> in
     case embedded of
       Some e \<Rightarrow>
         (if Family (EvPlatform e) \<noteq> f then Inl (arm_invalid ''extension declares another family'')
          else Inr (att\<lparr>ArmEmbedded := Some e\<rparr>))
     | None \<Rightarrow>
         (if f = FamilySNP
          then bindr (NormalizeSEVSNPReport report) (\<lambda>r. Inr (att\<lparr>ArmReport := r\<rparr>))
          else Inl (arm_invalid ''TDX evidence must be a JSON envelope''))))"

definition UnmarshalExtension :: "arm_json \<Rightarrow> bytes \<Rightarrow> err + attestation" where
  "UnmarshalExtension js der =
     bindr (wrap_err (Errorf ''unmarshal attestation'') (asn1_unmarshal der)) (\<lambda>(raw, rest).
     if 0 < length rest then Inl (arm_invalid ''trailing bytes'')
     else
       bindr (familyFromWire (AsnTEEType raw)) (\<lambda>f.
       bindr (checkRuntimeExtensions f (AsnRuntimeExtensions raw)) (\<lambda>_.
       bindr (newAttestation js f (AsnReport raw) (AsnCertChain raw) None) (\<lambda>att.
       if 0 < length (AsnRuntimeExtensions raw)
       then Inr (att\<lparr>ArmRuntimeExtensions := AsnRuntimeExtensions raw\<rparr>) else Inr att))))"

definition EmbeddedEvidence :: "attestation \<Rightarrow> attestation_evidence option" where
  "EmbeddedEvidence a = ArmEmbedded a"

definition arm_ReportData :: "attestation \<Rightarrow> bytes option" where
  "arm_ReportData a =
     (if ArmEmbedded a \<noteq> None \<or> ArmFamily a \<noteq> FamilySNP \<or> length (ArmReport a) < ReportDataOffset + 64 then None
      else Some (take 64 (drop ReportDataOffset (ArmReport a))))"

definition Envelope :: "arm_json \<Rightarrow> attestation \<Rightarrow> err + attestation_evidence" where
  "Envelope js a =
     (case ArmEmbedded a of
        Some e \<Rightarrow> Inr e
      | None \<Rightarrow>
          (if ArmFamily a \<noteq> FamilySNP then Inl (arm_invalid ''evidence must be a JSON envelope'')
           else
             let inner = \<lparr>AttestationReport = std_encode (ArmReport a),
               CertChain = (if 0 < length (ArmCertChain a)
                 then Some \<lparr>Vcek = std_encode (ArmCertChain a), Ask = [], Ark = []\<rparr> else None)\<rparr> in
             bindr (wrap_err (Errorf ''build snp evidence'') (MarshalSnpEvidence js inner)) (\<lambda>raw.
             Inr \<lparr>EvPlatform = PlatformSNP, EvEvidence = raw\<rparr>)))"

section \<open>Evidence for an extension\<close>

definition ExtractSNPReport :: "arm_json \<Rightarrow> attestation_evidence \<Rightarrow> err + bytes" where
  "ExtractSNPReport js env =
     bindr (wrap_err (Errorf ''parse evidence'') (UnmarshalSnpFields js (EvEvidence env))) (\<lambda>(ev, hclReport).
     if AttestationReport ev \<noteq> [] then wrap_err (Errorf ''decode attestation_report'') (std_decode (AttestationReport ev))
     else if hclReport \<noteq> [] then
       bindr (wrap_err (Errorf ''decode hcl_report'') (raw_url_decode hclReport)) NormalizeSEVSNPReport
     else Inl (arm_invalid ''neither attestation_report nor hcl_report''))"

definition stripTDXEventlog :: "arm_json \<Rightarrow> bytes \<Rightarrow> err + bytes" where
  "stripTDXEventlog js raw =
     bindr (wrap_err (Errorf ''parse tdx evidence for event-log strip'') (UnmarshalTdxQuote js raw)) (\<lambda>quote.
     wrap_err (Errorf ''re-marshal stripped tdx evidence'') (MarshalTdxQuote js quote))"

definition evidenceForExtension ::
    "arm_json \<Rightarrow> attestation_evidence \<Rightarrow> err + (bytes \<times> attestation_evidence option)" where
  "evidenceForExtension js env =
     (let platform = NormalizePlatform (EvPlatform env); f = Family platform;
          marshal = (\<lambda>evidence.
            let env' = \<lparr>EvPlatform = platform, EvEvidence = evidence\<rparr> in
            bindr (wrap_err (Errorf ''marshal evidence envelope'') (MarshalArmEnvelope js env')) (\<lambda>b. Inr (b, Some env')))
      in
      if f = FamilyUnknown then Inl (Wrap (Sentinel ErrUnsupportedTEE) (Errorf ''no ARmTLS evidence shape''))
      else if \<not> HasVTPMQuote platform then
        (if f = FamilySNP then bindr (ExtractSNPReport js env) (\<lambda>report. Inr (report, None))
         else bindr (stripTDXEventlog js (EvEvidence env)) marshal)
      else marshal (EvEvidence env))"

definition EvidenceForExtension :: "arm_json \<Rightarrow> attestation_evidence \<Rightarrow> err + bytes" where
  "EvidenceForExtension js env = bindr (evidenceForExtension js env) (\<lambda>(payload, _). Inr payload)"

definition NewAttestation :: "arm_json \<Rightarrow> attestation_evidence \<Rightarrow> err + attestation" where
  "NewAttestation js env =
     bindr (evidenceForExtension js env) (\<lambda>(report, embedded).
     bindr
       (if embedded = None \<and> IsSNP (EvPlatform env) then
          bindr (wrap_err (Errorf ''parse snp collateral'') (UnmarshalSnpCollateral js (EvEvidence env))) (\<lambda>ev.
          case CertChain ev of
            None \<Rightarrow> Inr []
          | Some c \<Rightarrow>
              (if Vcek c \<noteq> [] then wrap_err (Errorf ''decode snp cert_chain.vcek'') (std_decode (Vcek c)) else Inr []))
        else Inr []) (\<lambda>certChain.
     newAttestation js (Family (EvPlatform env)) report certChain embedded))"

section \<open>Certificates\<close>

record x509_cert =
  CertExtensions :: "x509_extension list"
  CertPublicKey :: public_key

definition ExtractAttestation :: "arm_json \<Rightarrow> x509_cert \<Rightarrow> int list \<Rightarrow> err + attestation" where
  "ExtractAttestation js cert oid =
     (if oid = [] then Inl (Errorf ''no extension OID'')
      else case find (\<lambda>ext. ExtId ext = oid) (CertExtensions cert) of
          Some ext \<Rightarrow> UnmarshalExtension js (ExtValue ext)
        | None \<Rightarrow> Inl (Sentinel ErrNoAttestation))"

definition publicKeyFromCert :: "x509_cert \<Rightarrow> err + public_key" where
  "publicKeyFromCert cert =
     (case CertPublicKey cert of
        EcdsaKey curve p \<Rightarrow>
          (if curve \<noteq> P256 \<and> curve \<noteq> P384 then Inl (Errorf ''unsupported ECDSA curve'') else Inr (EcdsaKey curve p))
      | Ed25519Key k \<Rightarrow> Inr (Ed25519Key k)
      | OtherKey \<Rightarrow> Inl (Errorf ''unsupported key type in certificate''))"

definition attestationAndKey :: "arm_json \<Rightarrow> x509_cert \<Rightarrow> int list \<Rightarrow> err + (attestation \<times> public_key)" where
  "attestationAndKey js cert oid =
     bindr (ExtractAttestation js cert oid) (\<lambda>att.
     bindr (publicKeyFromCert cert) (\<lambda>pub. Inr (att, pub)))"

section \<open>Verification\<close>

definition bindingAnchor :: "public_key \<Rightarrow> bytes \<Rightarrow> bytes \<Rightarrow> err + bytes" where
  "bindingAnchor pub nonce supplied =
     bindr (ReportDataForKey pub nonce) (\<lambda>reportData.
     let anchor = take 48 reportData in
     if 0 < length supplied \<and> supplied \<noteq> anchor then Inl (Errorf ''expected report data does not bind the key'')
     else Inr anchor)"

definition VerifyOffline ::
    "('rs, 'rt) tee_lib \<Rightarrow> arm_json \<Rightarrow> attestation \<Rightarrow> public_key \<Rightarrow> bytes \<Rightarrow> verify_params \<Rightarrow> 'rt tee_options \<Rightarrow>
     err + verification_result" where
  "VerifyOffline lib js att pub nonce params opts =
     bindr (Envelope js att) (\<lambda>env.
     bindr (bindingAnchor pub nonce (case ExpectedReportData params of None \<Rightarrow> [] | Some d \<Rightarrow> d)) (\<lambda>anchor.
     bindr (wrap_err (Errorf ''verify evidence'')
       (VerifyEnvelope lib env (params\<lparr>ExpectedReportData := Some anchor\<rparr>) opts)) (\<lambda>result.
     bindr (wrap_err (Errorf ''evidence'') (Check (Some result))) (\<lambda>_.
     if ReportDataMatch result \<noteq> Some True then Inl (Errorf ''evidence does not bind the certificate key'')
     else Inr result))))"

definition VerifyCertOffline ::
    "('rs, 'rt) tee_lib \<Rightarrow> arm_json \<Rightarrow> x509_cert \<Rightarrow> int list \<Rightarrow> bytes \<Rightarrow> verify_params \<Rightarrow> 'rt tee_options \<Rightarrow>
     err + verification_result" where
  "VerifyCertOffline lib js cert oid nonce params opts =
     bindr (attestationAndKey js cert oid) (\<lambda>(att, pub). VerifyOffline lib js att pub nonce params opts)"

definition VerifyWithService ::
    "(bytes \<Rightarrow> err + raw_tpm_quote option) \<Rightarrow> arm_json \<Rightarrow> (verify_request \<Rightarrow> err + verify_response) \<Rightarrow>
     attestation \<Rightarrow> public_key \<Rightarrow> bytes \<Rightarrow> policy \<Rightarrow> err + verify_response" where
  "VerifyWithService quote_of js svc att pub nonce pol =
     bindr (Envelope js att) (\<lambda>env.
     bindr (bindingAnchor pub nonce (PolReportData pol)) (\<lambda>anchor.
     bindr
       (if ArmFamily att = FamilyTDX
        then bindr (checkRuntimeExtensions (ArmFamily att) (ArmRuntimeExtensions att)) (\<lambda>_. Inr (ArmRuntimeExtensions att))
        else Inr []) (\<lambda>claimed.
     VerifyEvidenceWithRuntimeLog quote_of svc env (pol\<lparr>PolReportData := anchor\<rparr>) claimed)))"

definition VerifyCertWithService ::
    "(bytes \<Rightarrow> err + raw_tpm_quote option) \<Rightarrow> arm_json \<Rightarrow> (verify_request \<Rightarrow> err + verify_response) \<Rightarrow>
     x509_cert \<Rightarrow> int list \<Rightarrow> bytes \<Rightarrow> policy \<Rightarrow> err + verify_response" where
  "VerifyCertWithService quote_of js svc cert oid nonce pol =
     bindr (attestationAndKey js cert oid) (\<lambda>(att, pub). VerifyWithService quote_of js svc att pub nonce pol)"

section \<open>What a verified certificate establishes\<close>

lemma ReportDataForKey_Inr:
  "ReportDataForKey pub nonce = Inr d \<longleftrightarrow>
     (\<exists>key. marshalPublicKey pub = Inr key \<and> d = sha384 (key @ nonce) @ replicate 16 0)"
  by (auto simp: ReportDataForKey_def pad_def)

lemma bindingAnchor_Inr:
  "bindingAnchor pub nonce supplied = Inr a \<longleftrightarrow>
     (\<exists>key. marshalPublicKey pub = Inr key \<and> a = sha384 (key @ nonce)) \<and> (supplied = [] \<or> supplied = a)"
  by (auto simp: bindingAnchor_def ReportDataForKey_Inr Let_def)

lemma VerifyOffline_sound:
  assumes "sev_contract (TeeSev lib)" and "tdx_contract (TeeTdx lib)"
    and "VerifyOffline lib js att pub nonce params opts = Inr res"
  obtains env key where "Envelope js att = Inr env" "marshalPublicKey pub = Inr key"
    "(case ExpectedReportData params of None \<Rightarrow> [] | Some d \<Rightarrow> d) \<in> {[], sha384 (key @ nonce)}"
    "answers (params\<lparr>ExpectedReportData := Some (sha384 (key @ nonce))\<rparr>) res"
    "ResPlatform res = NormalizePlatform (EvPlatform env)" "Family (ResPlatform res) = Family (EvPlatform env)"
    "ReportDataMatch res = Some True"
proof -
  from assms(3) obtain env anchor where env: "Envelope js att = Inr env"
    and a: "bindingAnchor pub nonce (case ExpectedReportData params of None \<Rightarrow> [] | Some d \<Rightarrow> d) = Inr anchor"
    and v: "VerifyEnvelope lib env (params\<lparr>ExpectedReportData := Some anchor\<rparr>) opts = Inr res"
    and m: "ReportDataMatch res = Some True"
    by (auto simp: VerifyOffline_def)
  from a obtain key where "marshalPublicKey pub = Inr key" "anchor = sha384 (key @ nonce)"
    and "(case ExpectedReportData params of None \<Rightarrow> [] | Some d \<Rightarrow> d) \<in> {[], sha384 (key @ nonce)}"
    by (auto simp: bindingAnchor_Inr)
  with VerifyEnvelope_sound [OF assms(1,2) v] env m that show ?thesis by blast
qed

text \<open>Only the two families of the wire come out of an extension, and its envelope is of that family.\<close>

lemma familyFromWire_Inr: "familyFromWire v = Inr f \<longleftrightarrow> v = 1 \<and> f = FamilySNP \<or> v = 2 \<and> f = FamilyTDX"
  by (auto simp: familyFromWire_def)

lemma wireTEEType_Inr: "wireTEEType f = Inr v \<longleftrightarrow> familyFromWire v = Inr f"
  by (cases f) (auto simp: familyFromWire_def)

lemma checkRuntimeExtensions_Inr [simp]:
  "checkRuntimeExtensions f exts = Inr u \<longleftrightarrow>
     (exts = [] \<or> f = FamilyTDX) \<and> length exts \<le> 256 \<and> list_all canonical exts"
  by (auto simp: checkRuntimeExtensions_def list_all_iff)

lemma checkRuntimeExtensions_run:
  "(exts = [] \<or> f = FamilyTDX) \<and> length exts \<le> 256 \<and> list_all canonical exts \<Longrightarrow> checkRuntimeExtensions f exts = Inr ()"
  by simp

lemma NormalizeSEVSNPReport_length: "NormalizeSEVSNPReport raw = Inr r \<Longrightarrow> length r = 1184"
  by (auto simp: NormalizeSEVSNPReport_def ParseHCLReport_parts Let_def split: if_splits)

text \<open>
  The well-formed attestations: the two shapes, and the runtime extensions a measuring guest
  produces.
\<close>

definition evidence_wf :: "attestation \<Rightarrow> bool" where
  "evidence_wf att \<longleftrightarrow> ArmFamily att \<noteq> FamilyUnknown \<and>
     (case ArmEmbedded att of
        Some e \<Rightarrow> Family (EvPlatform e) = ArmFamily att
      | None \<Rightarrow> ArmFamily att = FamilySNP \<and> length (ArmReport att) = 1184)"

definition runtime_wf :: "attestation \<Rightarrow> bool" where
  "runtime_wf att \<longleftrightarrow>
     (ArmRuntimeExtensions att = [] \<or> ArmFamily att = FamilyTDX) \<and>
     length (ArmRuntimeExtensions att) \<le> 256 \<and> list_all canonical (ArmRuntimeExtensions att)"

lemma newAttestation_wf:
  assumes "newAttestation js f report chain emb = Inr att"
  shows "evidence_wf att \<and> ArmFamily att = f \<and> ArmRuntimeExtensions att = [] \<and> ArmCertChain att = chain"
  using assms NormalizeSEVSNPReport_length
  by (auto simp: newAttestation_def evidence_wf_def Let_def split: option.splits if_splits)

lemma UnmarshalExtension_Inr:
  assumes "UnmarshalExtension js der = Inr att"
  obtains raw f att0 where "asn1_unmarshal der = Inr (raw, [])" "familyFromWire (AsnTEEType raw) = Inr f"
    "AsnRuntimeExtensions raw = [] \<or> f = FamilyTDX" "length (AsnRuntimeExtensions raw) \<le> 256"
    "list_all canonical (AsnRuntimeExtensions raw)"
    "newAttestation js f (AsnReport raw) (AsnCertChain raw) None = Inr att0"
    "att = att0\<lparr>ArmRuntimeExtensions := AsnRuntimeExtensions raw\<rparr>"
proof -
  from assms obtain raw f u att0 where *: "asn1_unmarshal der = Inr (raw, [])" "familyFromWire (AsnTEEType raw) = Inr f"
    "checkRuntimeExtensions f (AsnRuntimeExtensions raw) = Inr u"
    "newAttestation js f (AsnReport raw) (AsnCertChain raw) None = Inr att0"
    "(if 0 < length (AsnRuntimeExtensions raw)
      then Inr (att0\<lparr>ArmRuntimeExtensions := AsnRuntimeExtensions raw\<rparr>) else Inr att0) = (Inr att :: err + attestation)"
    unfolding UnmarshalExtension_def bindr_eq_Inr wrap_err_eq_Inr by (auto simp del: checkRuntimeExtensions_Inr)
  from newAttestation_wf [OF *(4)] *(5) have "att = att0\<lparr>ArmRuntimeExtensions := AsnRuntimeExtensions raw\<rparr>"
    by (cases "AsnRuntimeExtensions raw"; cases att0) auto
  with * that show ?thesis by simp
qed

lemma UnmarshalExtension_sound: "UnmarshalExtension js der = Inr att \<Longrightarrow> evidence_wf att \<and> runtime_wf att"
proof (erule UnmarshalExtension_Inr)
  fix raw f att0
  assume *: "newAttestation js f (AsnReport raw) (AsnCertChain raw) None = Inr att0"
    "att = att0\<lparr>ArmRuntimeExtensions := AsnRuntimeExtensions raw\<rparr>"
    "AsnRuntimeExtensions raw = [] \<or> f = FamilyTDX" "length (AsnRuntimeExtensions raw) \<le> 256"
    "list_all canonical (AsnRuntimeExtensions raw)"
  from newAttestation_wf [OF *(1)] *(2-) show "evidence_wf att \<and> runtime_wf att"
    by (auto simp: evidence_wf_def runtime_wf_def split: option.splits)
qed

lemma Envelope_family:
  assumes "evidence_wf att" and "Envelope js att = Inr env"
  shows "Family (EvPlatform env) = ArmFamily att"
  using assms by (auto simp: evidence_wf_def Envelope_def Let_def Family_def split: option.splits)

text \<open>
  The keys \<open>ReportDataForKey\<close> encodes without ambiguity: within one kind, the encoding of a key is
  no proper prefix of another's. (Between the kinds it may be: an Ed25519 key is any 32 bytes, also
  the first 32 of an ECDSA key's DER.)
\<close>

fun point_length :: "ec_curve \<Rightarrow> nat" where
  "point_length P224 = 57" | "point_length P256 = 65" | "point_length P384 = 97" | "point_length P521 = 133"
| "point_length OtherCurve = 0"

fun key_wf :: "public_key \<Rightarrow> bool" where
  "key_wf (EcdsaKey c p) = (case p of None \<Rightarrow> False | Some q \<Rightarrow> length q = point_length c)"
| "key_wf (Ed25519Key k) = (length k = 32)"
| "key_wf OtherKey = False"

fun is_ecdsa :: "public_key \<Rightarrow> bool" where
  "is_ecdsa (EcdsaKey c p) = True" | "is_ecdsa k = False"

lemma marshalPublicKey_prefix_free:
  assumes "key_wf p" "key_wf p'" "is_ecdsa p = is_ecdsa p'"
    and "marshalPublicKey p = Inr k" "marshalPublicKey p' = Inr k'" "k @ n = k' @ n'"
  shows "p = p' \<and> n = n'"
proof (cases p)
  case (EcdsaKey c q)
  with assms obtain c' q' where "p' = EcdsaKey c' q'" by (cases p') auto
  with EcdsaKey assms show ?thesis
    by (cases c; cases c') (auto simp: MarshalPKIXPublicKey_def split: option.splits)
qed (use assms in \<open>(cases p'; auto)+\<close>)

lemma VerifyCertOffline_sound:
  assumes "sev_contract (TeeSev lib)" and "tdx_contract (TeeTdx lib)"
    and "VerifyCertOffline lib js cert oid nonce params opts = Inr res"
  obtains ext att env key where
    "find (\<lambda>x. ExtId x = oid) (CertExtensions cert) = Some ext" "UnmarshalExtension js (ExtValue ext) = Inr att"
    "Envelope js att = Inr env" "publicKeyFromCert cert = Inr (CertPublicKey cert)"
    "marshalPublicKey (CertPublicKey cert) = Inr key"
    "(case ExpectedReportData params of None \<Rightarrow> [] | Some d \<Rightarrow> d) \<in> {[], sha384 (key @ nonce)}"
    "answers (params\<lparr>ExpectedReportData := Some (sha384 (key @ nonce))\<rparr>) res"
    "ResPlatform res = NormalizePlatform (EvPlatform env)" "Family (ResPlatform res) = ArmFamily att"
    "ReportDataMatch res = Some True"
proof -
  from assms(3) obtain ext att pub where e: "find (\<lambda>x. ExtId x = oid) (CertExtensions cert) = Some ext"
    and u: "UnmarshalExtension js (ExtValue ext) = Inr att" and pub: "publicKeyFromCert cert = Inr pub"
    and v: "VerifyOffline lib js att pub nonce params opts = Inr res"
    by (auto simp: VerifyCertOffline_def attestationAndKey_def ExtractAttestation_def split: option.splits if_splits)
  from pub have p: "pub = CertPublicKey cert" by (auto simp: publicKeyFromCert_def split: public_key.splits if_splits)
  from VerifyOffline_sound [OF assms(1,2) v] obtain env key where k: "Envelope js att = Inr env"
    "marshalPublicKey pub = Inr key"
    "(case ExpectedReportData params of None \<Rightarrow> [] | Some d \<Rightarrow> d) \<in> {[], sha384 (key @ nonce)}"
    "answers (params\<lparr>ExpectedReportData := Some (sha384 (key @ nonce))\<rparr>) res"
    "ResPlatform res = NormalizePlatform (EvPlatform env)" "Family (ResPlatform res) = Family (EvPlatform env)"
    "ReportDataMatch res = Some True" by blast
  with UnmarshalExtension_sound [OF u] Envelope_family have "Family (ResPlatform res) = ArmFamily att" by metis
  with e u pub p k that show ?thesis by metis
qed

section \<open>Round trip\<close>

text \<open>
  What \<open>encoding/json\<close> does with an envelope: the object starts and ends with its braces and decodes
  to the same platform and the compacted payload, which is not empty (a nil payload is the text
  \<open>null\<close>).
\<close>

definition arm_json_contract :: "arm_json \<Rightarrow> (bytes \<Rightarrow> bytes) \<Rightarrow> bool" where
  "arm_json_contract js compact \<longleftrightarrow>
     (\<forall>e b. Family (EvPlatform e) \<noteq> FamilyUnknown \<longrightarrow> NormalizePlatform (EvPlatform e) = EvPlatform e \<longrightarrow>
        MarshalArmEnvelope js e = Inr b \<longrightarrow>
        b \<noteq> [] \<and> hd b = 0x7B \<and> last b = 0x7D \<and> compact (EvEvidence e) \<noteq> [] \<and>
        UnmarshalArmEnvelope js b = Inr (e\<lparr>EvEvidence := compact (EvEvidence e)\<rparr>))"

definition same_evidence :: "(bytes \<Rightarrow> bytes) \<Rightarrow> attestation_evidence option \<Rightarrow> attestation_evidence option \<Rightarrow> bool" where
  "same_evidence compact a b \<longleftrightarrow>
     rel_option (\<lambda>e e'. EvPlatform e' = EvPlatform e \<and> EvEvidence e' \<in> {EvEvidence e, compact (EvEvidence e)}) a b"

lemma same_evidence_refl [simp]: "same_evidence compact a a"
  by (cases a) (simp_all add: same_evidence_def)

text \<open>What the probe makes of a report and of an envelope.\<close>

definition report_version :: "byte list" where
  "report_version = [2, 3, 4, 5]"

lemma parse_report:
  assumes "hd r \<in> set report_version" and "r \<noteq> []"
  shows "parseEmbeddedEvidence js r = Inr None"
proof -
  have *: "list_all (\<lambda>x::byte. char_of (unat x) \<notin> set space_bytes \<and> char_of (unat x) \<noteq> CHR 0x7B) report_version"
    by code_simp
  with assms have "hd (string_of_bytes r) \<notin> set space_bytes" "hd (string_of_bytes r) \<noteq> CHR 0x7B"
    by (auto simp: list_all_iff string_of_bytes_hd)
  then show ?thesis using trim_space_hd [of "string_of_bytes r"] by (auto simp: parseEmbeddedEvidence_def Let_def)
qed

lemma parse_envelope:
  assumes "arm_json_contract js compact" and "MarshalArmEnvelope js e = Inr b"
    and "Family (EvPlatform e) \<noteq> FamilyUnknown" and "NormalizePlatform (EvPlatform e) = EvPlatform e"
  shows "parseEmbeddedEvidence js b = Inr (Some (e\<lparr>EvEvidence := compact (EvEvidence e)\<rparr>))"
proof -
  from assms have b: "b \<noteq> []" "hd b = 0x7B" "last b = 0x7D" "compact (EvEvidence e) \<noteq> []"
    "UnmarshalArmEnvelope js b = Inr (e\<lparr>EvEvidence := compact (EvEvidence e)\<rparr>)" by (auto simp: arm_json_contract_def)
  have "CHR 0x7B \<notin> set space_bytes" "CHR 0x7D \<notin> set space_bytes" by code_simp+
  moreover have hd: "hd (string_of_bytes b) = CHR 0x7B" "last (string_of_bytes b) = CHR 0x7D"
    using b(1-3) by (simp_all add: string_of_bytes_hd string_of_bytes_last) code_simp+
  ultimately have "trim_space (string_of_bytes b) = string_of_bytes b" by (intro trim_space_id) simp
  moreover have "EvPlatform e \<noteq> []" using assms(3) by (auto simp: Family_def NormalizePlatform_def)
  ultimately show ?thesis using b hd assms(4) by (simp add: parseEmbeddedEvidence_def Let_def)
qed

text \<open>Parsing back what \<open>NewAttestation\<close> built gives the same attestation.\<close>

lemma evidenceForExtension_Some:
  "evidenceForExtension js env = Inr (payload, Some e) \<Longrightarrow>
     EvPlatform e = NormalizePlatform (EvPlatform env) \<and> MarshalArmEnvelope js e = Inr payload"
  by (auto simp: evidenceForExtension_def Let_def split: if_splits)

lemma newAttestation_Some:
  "newAttestation js f report chain (Some e) = Inr att \<longleftrightarrow> f \<noteq> FamilyUnknown \<and> Family (EvPlatform e) = f \<and>
     att = \<lparr>ArmFamily = f, ArmReport = report, ArmCertChain = chain, ArmRuntimeExtensions = [], ArmEmbedded = Some e\<rparr>"
  by (cases f) (auto simp: newAttestation_def Let_def)

lemma newAttestation_None:
  "newAttestation js f report chain None = Inr att \<longleftrightarrow>
     (\<exists>e. parseEmbeddedEvidence js report = Inr (Some e) \<and> newAttestation js f report chain (Some e) = Inr att) \<or>
     (\<exists>r. parseEmbeddedEvidence js report = Inr None \<and> f = FamilySNP \<and> NormalizeSEVSNPReport report = Inr r \<and>
        att = \<lparr>ArmFamily = f, ArmReport = r, ArmCertChain = chain, ArmRuntimeExtensions = [], ArmEmbedded = None\<rparr>)"
proof (cases "parseEmbeddedEvidence js report")
  case (Inr emb)
  then show ?thesis by (cases emb; cases f) (auto simp: newAttestation_def Let_def)
qed (auto simp: newAttestation_def)

lemma newAttestation_reparse:
  assumes "newAttestation js f report chain None = Inr att"
    and "ArmEmbedded att = None \<Longrightarrow> hd (ArmReport att) \<in> set report_version"
  shows "newAttestation js f (ArmReport att) chain None = Inr att"
  using assms(1) [unfolded newAttestation_None]
proof (elim disjE exE conjE)
  fix r assume f: "f = FamilySNP" and r: "NormalizeSEVSNPReport report = Inr r"
    and att: "att = \<lparr>ArmFamily = f, ArmReport = r, ArmCertChain = chain, ArmRuntimeExtensions = [], ArmEmbedded = None\<rparr>"
  from r have l: "length r = 1184" by (rule NormalizeSEVSNPReport_length)
  then have "r \<noteq> []" by auto
  with assms(2) att have "parseEmbeddedEvidence js r = Inr None" by (intro parse_report) auto
  with f l att show ?thesis by (simp add: newAttestation_None NormalizeSEVSNPReport_def)
qed (auto simp: newAttestation_None newAttestation_Some)

lemma NewAttestation_reparse:
  assumes js: "arm_json_contract js compact" and new: "NewAttestation js env = Inr att"
    and v: "ArmEmbedded att = None \<Longrightarrow> hd (ArmReport att) \<in> set report_version"
  shows "\<exists>emb. newAttestation js (ArmFamily att) (ArmReport att) (ArmCertChain att) None = Inr (att\<lparr>ArmEmbedded := emb\<rparr>) \<and>
    same_evidence compact (ArmEmbedded att) emb"
proof -
  from new obtain report embedded chain where ev: "evidenceForExtension js env = Inr (report, embedded)"
    and na: "newAttestation js (Family (EvPlatform env)) report chain embedded = Inr att"
    by (auto simp: NewAttestation_def)
  show ?thesis
  proof (cases embedded)
    case None
    with newAttestation_reparse [of js _ report chain att] na v newAttestation_wf [of js _ report chain None att]
    have "newAttestation js (ArmFamily att) (ArmReport att) (ArmCertChain att) None = Inr (att\<lparr>ArmEmbedded := ArmEmbedded att\<rparr>)"
      by auto
    then show ?thesis by (intro exI [of _ "ArmEmbedded att"]) simp
  next
    case (Some e)
    with na have f: "Family (EvPlatform env) \<noteq> FamilyUnknown"
      and att: "att = \<lparr>ArmFamily = Family (EvPlatform env), ArmReport = report, ArmCertChain = chain,
        ArmRuntimeExtensions = [], ArmEmbedded = Some e\<rparr>" by (simp_all add: newAttestation_Some)
    from ev Some have e: "EvPlatform e = NormalizePlatform (EvPlatform env)" "MarshalArmEnvelope js e = Inr report"
      using evidenceForExtension_Some by blast+
    with f have n: "NormalizePlatform (EvPlatform e) = EvPlatform e" "Family (EvPlatform e) = Family (EvPlatform env)"
      by (simp_all add: Normalize_known Family_normalized)
    have "parseEmbeddedEvidence js report = Inr (Some (e\<lparr>EvEvidence := compact (EvEvidence e)\<rparr>))"
      using parse_envelope [OF js e(2)] n f by simp
    with f n have "newAttestation js (ArmFamily att) (ArmReport att) (ArmCertChain att) None =
        Inr (att\<lparr>ArmEmbedded := Some (e\<lparr>EvEvidence := compact (EvEvidence e)\<rparr>)\<rparr>)"
      by (simp add: att newAttestation_None newAttestation_Some)
    then show ?thesis by (intro exI [of _ "Some (e\<lparr>EvEvidence := compact (EvEvidence e)\<rparr>)"]) (simp add: att same_evidence_def)
  qed
qed

lemma canonical_printable: "list_all canonical xs \<Longrightarrow> list_all (\<lambda>s. list_all isPrintable s) xs"
proof -
  have "list_all isPrintable (hex_digits @ ''sha256:'')" by code_simp
  then have "list_all isPrintable s" if "canonical s" for s
    using that [unfolded canonical_split] by (auto simp: list_all_iff)
  then show "list_all canonical xs \<Longrightarrow> ?thesis" by (auto simp: list_all_iff)
qed

lemma MarshalExtension_round_trip:
  assumes "MarshalExtension a oid = Inr ext" and "length (ExtValue ext) < 2 ^ 31"
  shows "ExtId ext = oid \<and> \<not> ExtCritical ext \<and>
    (\<exists>tee. familyFromWire tee = Inr (ArmFamily a) \<and>
      asn1_unmarshal (ExtValue ext) = Inr (\<lparr>AsnTEEType = tee, AsnReport = ArmReport a, AsnCertChain = ArmCertChain a,
        AsnRuntimeExtensions = (if ArmFamily a = FamilyTDX then ArmRuntimeExtensions a else [])\<rparr>, [])) \<and>
    (ArmFamily a = FamilyTDX \<longrightarrow> length (ArmRuntimeExtensions a) \<le> 256 \<and> list_all canonical (ArmRuntimeExtensions a))"
proof -
  let ?exts = "if ArmFamily a = FamilyTDX then ArmRuntimeExtensions a else []"
  from assms(1) obtain tee where tee: "familyFromWire tee = Inr (ArmFamily a)"
    and ext: "ext = \<lparr>ExtId = oid, ExtCritical = False, ExtValue = asn1_marshal \<lparr>AsnTEEType = tee, AsnReport = ArmReport a,
        AsnCertChain = ArmCertChain a, AsnRuntimeExtensions = ?exts\<rparr>\<rparr>"
    and x: "ArmFamily a = FamilyTDX \<longrightarrow> length (ArmRuntimeExtensions a) \<le> 256 \<and> list_all canonical (ArmRuntimeExtensions a)"
    by (auto simp: MarshalExtension_def wireTEEType_Inr split: if_splits)
  have "ext_ok \<lparr>AsnTEEType = tee, AsnReport = ArmReport a, AsnCertChain = ArmCertChain a, AsnRuntimeExtensions = ?exts\<rparr>"
    using tee x assms(2) by (auto simp: ext_ok_def ext familyFromWire_Inr canonical_printable)
  with asn1_round_trip tee ext x show ?thesis by auto
qed

section \<open>Properties\<close>

text \<open>
  C8: a certificate that verifies offline binds its own key. The evidence is that of the first
  extension under the identifier, well-formed and of the family the extension declares; the
  certificate's key is of a supported kind; the result answers the caller's expectations with the
  report data replaced by SHA-384 of the key and the nonce, so the signed data is that hash up to
  trailing zeros; and a report data expectation of the caller's own was that hash.
\<close>

theorem cert_key_bound:
  assumes "sev_contract (TeeSev lib)" and "tdx_contract (TeeTdx lib)"
    and "VerifyCertOffline lib js cert oid nonce params opts = Inr res"
  shows "\<exists>ext att env key.
    find (\<lambda>x. ExtId x = oid) (CertExtensions cert) = Some ext \<and> UnmarshalExtension js (ExtValue ext) = Inr att \<and>
    evidence_wf att \<and> Envelope js att = Inr env \<and>
    publicKeyFromCert cert = Inr (CertPublicKey cert) \<and> marshalPublicKey (CertPublicKey cert) = Inr key \<and>
    (case ExpectedReportData params of None \<Rightarrow> True | Some d \<Rightarrow> d = [] \<or> d = sha384 (key @ nonce)) \<and>
    answers (params\<lparr>ExpectedReportData := Some (sha384 (key @ nonce))\<rparr>) res \<and>
    ResPlatform res = NormalizePlatform (EvPlatform env) \<and> Family (ResPlatform res) = ArmFamily att"
proof (rule VerifyCertOffline_sound [OF assms])
  fix ext :: x509_extension and att :: attestation and env :: attestation_evidence and key
  assume "UnmarshalExtension js (ExtValue ext) = Inr att"
    and "(case ExpectedReportData params of None \<Rightarrow> [] | Some d \<Rightarrow> d) \<in> {[], sha384 (key @ nonce)}"
  then have "evidence_wf att"
    and "case ExpectedReportData params of None \<Rightarrow> True | Some d \<Rightarrow> d = [] \<or> d = sha384 (key @ nonce)"
    using UnmarshalExtension_sound by (auto split: option.splits)
  moreover assume "find (\<lambda>x. ExtId x = oid) (CertExtensions cert) = Some ext"
    "UnmarshalExtension js (ExtValue ext) = Inr att" "Envelope js att = Inr env"
    "publicKeyFromCert cert = Inr (CertPublicKey cert)" "marshalPublicKey (CertPublicKey cert) = Inr key"
    "answers (params\<lparr>ExpectedReportData := Some (sha384 (key @ nonce))\<rparr>) res"
    "ResPlatform res = NormalizePlatform (EvPlatform env)" "Family (ResPlatform res) = ArmFamily att"
  ultimately show ?thesis by blast
qed

text \<open>
  Evidence is bound to one key. Two certificates whose keys are of one kind and whose verified
  evidence signs the same data have the same key and were verified for the same nonce, or the two
  strings hashed are a SHA-384 collision.
\<close>

lemma cert_evidence_not_shared:
  assumes "sev_contract (TeeSev lib)" and "tdx_contract (TeeTdx lib)"
    and "VerifyCertOffline lib js cert oid nonce params opts = Inr res"
    and "VerifyCertOffline lib js cert' oid' nonce' params' opts' = Inr res'"
    and "SignedData (Claims res) = SignedData (Claims res')"
    and "key_wf (CertPublicKey cert)" and "key_wf (CertPublicKey cert')"
    and "is_ecdsa (CertPublicKey cert) = is_ecdsa (CertPublicKey cert')"
  shows "CertPublicKey cert = CertPublicKey cert' \<and> nonce = nonce' \<or>
    (\<exists>k k'. marshalPublicKey (CertPublicKey cert) = Inr k \<and> marshalPublicKey (CertPublicKey cert') = Inr k' \<and>
       collision_in sha384 [k @ nonce, k' @ nonce'])"
proof -
  obtain k where k: "marshalPublicKey (CertPublicKey cert) = Inr k"
    "answers (params\<lparr>ExpectedReportData := Some (sha384 (k @ nonce))\<rparr>) res"
    using VerifyCertOffline_sound [OF assms(1,2,3)] by blast
  obtain k' where k': "marshalPublicKey (CertPublicKey cert') = Inr k'"
    "answers (params'\<lparr>ExpectedReportData := Some (sha384 (k' @ nonce'))\<rparr>) res'"
    using VerifyCertOffline_sound [OF assms(1,2,4)] by blast
  from k(2) k'(2) assms(5) have "strip_trailing 0 (sha384 (k @ nonce)) = strip_trailing 0 (sha384 (k' @ nonce'))"
    by (simp add: answers_def)
  then have "sha384 (k @ nonce) = sha384 (k' @ nonce')" by (rule strip_trailing_inj) simp
  then have "k @ nonce = k' @ nonce' \<or> collision_in sha384 [k @ nonce, k' @ nonce']" by (auto simp: collision_in_def)
  with marshalPublicKey_prefix_free [OF assms(6-8) k(1) k'(1)] k(1) k'(1) show ?thesis by blast
qed

text \<open>
  C9: the same through a service. A certificate that verifies through an attestation service was
  judged on the envelope of its own extension, with the SHA-384 of its own key and the nonce as the
  expected report data and the extension's runtime list as the claimed one; the service's reply
  says that the signature is valid and the report data matches, and it meets the pins of the policy.
\<close>

theorem service_key_bound:
  assumes "VerifyCertWithService quote_of js svc cert oid nonce pol = Inr resp"
  shows "\<exists>ext att env key.
    find (\<lambda>x. ExtId x = oid) (CertExtensions cert) = Some ext \<and> UnmarshalExtension js (ExtValue ext) = Inr att \<and>
    Envelope js att = Inr env \<and> Family (EvPlatform env) = ArmFamily att \<and>
    marshalPublicKey (CertPublicKey cert) = Inr key \<and> PolReportData pol \<in> {[], sha384 (key @ nonce)} \<and>
    svc (NewVerifyRequestNoToken env (Some (policy_params (pol\<lparr>PolReportData := sha384 (key @ nonce)\<rparr>)))) = Inr resp \<and>
    SignatureValid (RespResult resp) \<and> ReportDataMatch (RespResult resp) = Some True \<and>
    EnforcePinsWithRuntimeLog quote_of resp (pol\<lparr>PolReportData := sha384 (key @ nonce)\<rparr>) env
      (ArmRuntimeExtensions att) = Inr ()"
proof -
  from assms obtain ext :: x509_extension and att :: attestation and pub env anchor claimed
    where e: "find (\<lambda>x. ExtId x = oid) (CertExtensions cert) = Some ext"
    and u: "UnmarshalExtension js (ExtValue ext) = Inr att" and pub: "publicKeyFromCert cert = Inr pub"
    and env: "Envelope js att = Inr env" and a: "bindingAnchor pub nonce (PolReportData pol) = Inr anchor"
    and c: "claimed = (if ArmFamily att = FamilyTDX then ArmRuntimeExtensions att else [])"
    and v: "VerifyEvidenceWithRuntimeLog quote_of svc env (pol\<lparr>PolReportData := anchor\<rparr>) claimed = Inr resp"
    by (auto simp: VerifyCertWithService_def VerifyWithService_def attestationAndKey_def ExtractAttestation_def
        split: option.splits if_splits)
  from pub have p: "pub = CertPublicKey cert" by (auto simp: publicKeyFromCert_def split: public_key.splits if_splits)
  from UnmarshalExtension_sound [OF u] have wf: "evidence_wf att" and cl: "claimed = ArmRuntimeExtensions att"
    by (auto simp: c runtime_wf_def)
  from a p obtain key where k: "marshalPublicKey (CertPublicKey cert) = Inr key" "anchor = sha384 (key @ nonce)"
    "PolReportData pol \<in> {[], sha384 (key @ nonce)}" by (auto simp: bindingAnchor_Inr)
  have "sha384 (key @ nonce) \<noteq> []" using length_sha384 [of "key @ nonce"] by force
  with v k(2) cl have "svc (NewVerifyRequestNoToken env (Some (policy_params (pol\<lparr>PolReportData := sha384 (key @ nonce)\<rparr>)))) = Inr resp"
    "SignatureValid (RespResult resp)" "ReportDataMatch (RespResult resp) = Some True"
    "EnforcePinsWithRuntimeLog quote_of resp (pol\<lparr>PolReportData := sha384 (key @ nonce)\<rparr>) env (ArmRuntimeExtensions att) = Inr ()"
    by (auto simp: VerifyEvidenceWithRuntimeLog_Inr verdict_ok_def policy_params_def)
  with e u env k Envelope_family [OF wf env] show ?thesis by blast
qed

text \<open>
  The data type of a decoded extension. Whatever the bytes, an accepted attestation is of a
  known family; it carries an envelope of that family or, for SEV-SNP only, a report of exactly 1184
  bytes; runtime extensions are canonical digests, at most 256, and only on TDX; and the collateral
  is that of the extension.
\<close>

lemma UnmarshalExtension_wf:
  assumes "UnmarshalExtension js der = Inr att"
  shows "evidence_wf att \<and> runtime_wf att \<and>
    (\<exists>raw. asn1_unmarshal der = Inr (raw, []) \<and> wireTEEType (ArmFamily att) = Inr (AsnTEEType raw) \<and>
       ArmCertChain att = AsnCertChain raw \<and> ArmRuntimeExtensions att = AsnRuntimeExtensions raw)"
proof -
  from assms obtain raw f att0 where *: "asn1_unmarshal der = Inr (raw, [])" "familyFromWire (AsnTEEType raw) = Inr f"
    "newAttestation js f (AsnReport raw) (AsnCertChain raw) None = Inr att0"
    "att = att0\<lparr>ArmRuntimeExtensions := AsnRuntimeExtensions raw\<rparr>" by (rule UnmarshalExtension_Inr)
  with newAttestation_wf [OF *(3)] UnmarshalExtension_sound [OF assms] show ?thesis by (auto simp: wireTEEType_Inr)
qed

text \<open>
  C20: the producer and the verifier agree on every attestation. Whatever \<open>NewAttestation\<close> builds from
  an envelope, with any runtime extension list set on it, if \<open>MarshalExtension\<close> encodes it then
  \<open>UnmarshalExtension\<close> returns it: the same family, report, collateral and, on TDX, the same list
  (none on SEV-SNP), with the embedded payload at most compacted. The encoding is below 2 GiB, and a
  raw report starts with a version from 2 to 5.
\<close>

theorem extension_round_trip:
  assumes "arm_json_contract js compact" and "NewAttestation js env = Inr att"
    and "ArmEmbedded att = None \<Longrightarrow> hd (ArmReport att) \<in> set report_version"
    and "MarshalExtension (att\<lparr>ArmRuntimeExtensions := exts\<rparr>) oid = Inr ext" and "length (ExtValue ext) < 2 ^ 31"
  shows "ExtId ext = oid \<and> (\<exists>emb. same_evidence compact (ArmEmbedded att) emb \<and>
    UnmarshalExtension js (ExtValue ext) =
      Inr (att\<lparr>ArmRuntimeExtensions := (if ArmFamily att = FamilyTDX then exts else []), ArmEmbedded := emb\<rparr>))"
proof -
  obtain emb where emb: "same_evidence compact (ArmEmbedded att) emb"
    "newAttestation js (ArmFamily att) (ArmReport att) (ArmCertChain att) None = Inr (att\<lparr>ArmEmbedded := emb\<rparr>)"
    using NewAttestation_reparse [OF assms(1-3)] by blast
  have "ArmRuntimeExtensions att = []" using newAttestation_wf [OF emb(2)] by simp
  then have none: "att\<lparr>ArmRuntimeExtensions := [], ArmEmbedded := emb\<rparr> = att\<lparr>ArmEmbedded := emb\<rparr>" by (cases att) simp
  from MarshalExtension_round_trip [OF assms(4,5)] obtain tee where
    "ExtId ext = oid" "familyFromWire tee = Inr (ArmFamily att)"
    "asn1_unmarshal (ExtValue ext) = Inr (\<lparr>AsnTEEType = tee, AsnReport = ArmReport att, AsnCertChain = ArmCertChain att,
        AsnRuntimeExtensions = (if ArmFamily att = FamilyTDX then exts else [])\<rparr>, [])"
    "ArmFamily att = FamilyTDX \<longrightarrow> length exts \<le> 256 \<and> list_all canonical exts" by auto
  with emb none show ?thesis
    by (intro conjI exI [of _ emb]) (simp_all add: UnmarshalExtension_def checkRuntimeExtensions_run)
qed

section \<open>Instances\<close>

text \<open>A JSON layer that keeps the contract: a brace, the length of the platform, the platform, the payload, a brace.\<close>

definition sample_arm_json :: arm_json where
  "sample_arm_json = \<lparr>
     UnmarshalArmEnvelope = (\<lambda>b. case b of
         brace # n # r \<Rightarrow>
           if r = [] then Inl (Errorf ''short'')
           else Inr \<lparr>EvPlatform = string_of_bytes (take (unat n) r), EvEvidence = butlast (drop (unat n) r)\<rparr>
       | _ \<Rightarrow> Inl (Errorf ''short'')),
     MarshalArmEnvelope = (\<lambda>e.
       if EvEvidence e = [] \<or> 255 < length (EvPlatform e) then Inl (Errorf ''cannot marshal'')
       else Inr (0x7B # word_of_nat (length (EvPlatform e)) # bytes_of_string (EvPlatform e) @ EvEvidence e @ [0x7D])),
     UnmarshalSnpFields = (\<lambda>b. Inl (Errorf ''no report'')), UnmarshalSnpCollateral = (\<lambda>b. Inl (Errorf ''no report'')),
     MarshalSnpEvidence = (\<lambda>e. Inr (bytes_of_string (AttestationReport e))),
     UnmarshalTdxQuote = (\<lambda>b. Inr (string_of_bytes b)), MarshalTdxQuote = (\<lambda>q. Inr (bytes_of_string q))\<rparr>"

lemma sample_arm_contract: "arm_json_contract sample_arm_json (\<lambda>b. b)"
proof -
  have "unat (word_of_nat n :: byte) = n" if "n \<le> 255" for n using that by (intro unat_of_byte) simp
  then show ?thesis by (auto simp: arm_json_contract_def sample_arm_json_def not_less split: if_splits)
qed

definition arm_list :: "string list" where
  "arm_list = [''sha256:'' @ replicate 64 CHR ''a'']"

definition arm_cert :: x509_cert where
  "arm_cert = \<lparr>CertExtensions = [\<lparr>ExtId = [1, 2], ExtCritical = False, ExtValue = asn1_marshal
      \<lparr>AsnTEEType = 2, AsnReport = 0x7B # 7 # bytes_of_string ''gcp-tdx'' @ [9, 0x7D], AsnCertChain = [],
       AsnRuntimeExtensions = arm_list\<rparr>\<rparr>],
     CertPublicKey = Ed25519Key (replicate 32 9)\<rparr>"

definition arm_attestation :: attestation where
  "arm_attestation = \<lparr>ArmFamily = FamilyTDX, ArmReport = 0x7B # 7 # bytes_of_string ''gcp-tdx'' @ [9, 0x7D],
     ArmCertChain = [], ArmRuntimeExtensions = arm_list, ArmEmbedded = Some \<lparr>EvPlatform = PlatformGcpTDX, EvEvidence = [9]\<rparr>\<rparr>"

lemma arm_unmarshal:
  "UnmarshalExtension sample_arm_json (ExtValue (hd (CertExtensions arm_cert))) = Inr arm_attestation"
proof -
  let ?e = "\<lparr>EvPlatform = PlatformGcpTDX, EvEvidence = [9]\<rparr>" and ?r = "0x7B # 7 # bytes_of_string ''gcp-tdx'' @ [9, 0x7D]"
  have fam: "Family PlatformGcpTDX = FamilyTDX" by (simp add: Family_def)
  have m: "MarshalArmEnvelope sample_arm_json ?e = Inr ?r" by (simp add: sample_arm_json_def)
  have "parseEmbeddedEvidence sample_arm_json ?r = Inr (Some (?e\<lparr>EvEvidence := [9]\<rparr>))"
    using parse_envelope [OF sample_arm_contract m] fam by simp
  then have new: "newAttestation sample_arm_json FamilyTDX ?r [] None = Inr (arm_attestation\<lparr>ArmRuntimeExtensions := []\<rparr>)"
    using fam by (simp add: newAttestation_None newAttestation_Some arm_attestation_def)
  let ?v = "\<lparr>AsnTEEType = 2, AsnReport = ?r, AsnCertChain = [], AsnRuntimeExtensions = arm_list\<rparr>"
  have l: "list_all canonical arm_list"
    by (auto simp: arm_list_def canonical_split hex_digits_def)
  then have "ext_ok ?v"
    by (simp add: ext_ok_def canonical_printable) (simp add: asn1_marshal_def arm_list_def bytes_of_string_def tlv_def der_length_def byte_width.simps)
  then have "asn1_unmarshal (asn1_marshal ?v) = Inr (?v, [])" by (rule asn1_round_trip)
  with l new show ?thesis
    by (simp add: UnmarshalExtension_def arm_cert_def familyFromWire_def checkRuntimeExtensions_run)
      (simp add: arm_list_def arm_attestation_def)
qed

text \<open>The quote of the TDX sample, with given report data.\<close>

definition arm_tee_lib :: "bytes \<Rightarrow> (nat, nat) tee_lib" where
  "arm_tee_lib d = sample_tee_lib\<lparr>
     TeeTdx := sample_tdx_lib\<lparr>QuoteToProto := (\<lambda>_. Inr (QuoteV4
       (sample_tdx_quote\<lparr>QuoteBody := Some (sample_td_body\<lparr>BodyReportData := d\<rparr>)\<rparr>)))\<rparr>,
     UnmarshalTdxEvidence := (\<lambda>_. Inr \<lparr>Quote = ''AAAA'', CCEventlog = []\<rparr>)\<rparr>"

lemma arm_tee_contracts: "sev_contract (TeeSev (arm_tee_lib d))" "tdx_contract (TeeTdx (arm_tee_lib d))"
  using sample_sev_contract sample_tdx_contract by (simp_all add: arm_tee_lib_def sample_tee_lib_def tdx_contract_def)

lemma arm_quote_verified:
  assumes "length d = 48"
  shows "\<exists>res. VerifyQuoteBytes (TeeTdx (arm_tee_lib (pad d 64))) q (sample_tdx_params\<lparr>ExpectedReportData := Some d\<rparr>)
    PlatformTDX sample_tdx_opts = Inr res"
proof -
  let ?p = "sample_tdx_params\<lparr>ExpectedReportData := Some d\<rparr>" and ?lib = "TeeTdx (arm_tee_lib (pad d 64))"
  let ?q = "sample_tdx_quote\<lparr>QuoteBody := Some (sample_td_body\<lparr>BodyReportData := pad d 64\<rparr>)\<rparr>"
  let ?vo = "\<lparr>TvReportData = Some (pad d 64), TvMrConfigID = Some (replicate 48 6), TvMrTd = Some (replicate 48 7),
      TvRtmrs = [None, Some Zero, None, None]\<rparr>"
  have chk: "checkAcceptedTCBStatuses sample_options = Inr ()"
    by (auto simp: checkAcceptedTCBStatuses_Inr sample_options_def simp del: status_name.simps)
  have acc: "AcceptedTCBStatuses sample_options \<noteq> []" by (simp add: sample_options_def)
  have vo: "tdx_validateOptions ?p = Inr ?vo"
    using assms by (simp add: tdx_validateOptions_def sample_tdx_params_def)
  have val: "TdxQuoteValidate ?lib ?q ?vo = Inr ()"
    by (simp add: arm_tee_lib_def sample_tdx_lib_def sample_tdx_quote_def sample_td_body_def matches_def numeral_eq_Suc)
  have lib: "TdxQuoteValidate ?lib = TdxQuoteValidate sample_tdx_lib" by (simp add: arm_tee_lib_def)
  show ?thesis
    using chk acc vo val [unfolded lib] sample_evaluates
    by (simp add: VerifyQuoteBytes_def arm_tee_lib_def sample_tdx_lib_def sample_tdx_quote_def sample_td_body_def
        sample_tdx_opts_def Let_def)
qed

definition arm_params :: verify_params where
  "arm_params = sample_tdx_params\<lparr>ExpectedReportData := None\<rparr>"

definition arm_anchor :: "bytes \<Rightarrow> bytes" where
  "arm_anchor nonce = sha384 (replicate 32 9 @ nonce)"

lemma arm_cert_verified:
  "\<exists>res. VerifyCertOffline (arm_tee_lib (pad (arm_anchor nonce) 64)) sample_arm_json arm_cert [1, 2] nonce arm_params
     sample_tee_opts = Inr res"
proof -
  let ?lib = "arm_tee_lib (pad (arm_anchor nonce) 64)" and ?e = "\<lparr>EvPlatform = PlatformGcpTDX, EvEvidence = [9]\<rparr>"
  let ?params = "arm_params\<lparr>ExpectedReportData := Some (arm_anchor nonce)\<rparr>"
  have ext: "find (\<lambda>x. ExtId x = [1, 2]) (CertExtensions arm_cert) = Some (hd (CertExtensions arm_cert))"
    by (simp add: arm_cert_def)
  have key: "bindingAnchor (Ed25519Key (replicate 32 9)) nonce [] = Inr (arm_anchor nonce)"
    by (auto simp: bindingAnchor_Inr arm_anchor_def)
  have p: "?params = sample_tdx_params\<lparr>ExpectedReportData := Some (arm_anchor nonce)\<rparr>" by (simp add: arm_params_def)
  have l: "length (arm_anchor nonce) = 48" by (simp add: arm_anchor_def)
  obtain res where res: "VerifyQuoteBytes (TeeTdx ?lib) [0, 0, 0] ?params PlatformTDX sample_tdx_opts = Inr res"
    using arm_quote_verified [OF l, of "[0, 0, 0]"] unfolding p by blast
  have "std_decode ''AAAA'' = Inr [0, 0, 0]" by code_simp
  with res have ev: "tdx_VerifyEvidence (TeeTdx ?lib) \<lparr>Quote = ''AAAA'', CCEventlog = []\<rparr> ?params sample_tdx_opts = Inr res"
    by (simp add: tdx_VerifyEvidence_def)
  then have v: "VerifyEnvelope ?lib ?e ?params sample_tee_opts = Inr (res\<lparr>ResPlatform := PlatformGcpTDX\<rparr>)"
    using l by (simp add: VerifyEnvelope_def verifyTDX_def Let_def) (simp add: arm_tee_lib_def sample_tee_opts_def)
  have "answers ?params res" using tdx_evidence_answers [OF arm_tee_contracts(2) ev] .
  then have "SignatureValid res" "ReportDataMatch res = Some True" by (simp_all add: answers_def match_flag_def)
  with v key have "VerifyOffline ?lib sample_arm_json arm_attestation (Ed25519Key (replicate 32 9)) nonce arm_params sample_tee_opts
      = Inr (res\<lparr>ResPlatform := PlatformGcpTDX\<rparr>)"
    by (simp add: VerifyOffline_def Envelope_def arm_attestation_def Check_def) (simp add: arm_params_def)
  with ext arm_unmarshal show ?thesis
    by (auto simp: VerifyCertOffline_def attestationAndKey_def ExtractAttestation_def publicKeyFromCert_def)
      (simp add: arm_cert_def)
qed

theorem cert_key_bound_witness:
  "\<exists>res key. VerifyCertOffline (arm_tee_lib (pad (arm_anchor [1]) 64)) sample_arm_json arm_cert [1, 2] [1] arm_params
       sample_tee_opts = Inr res \<and> marshalPublicKey (CertPublicKey arm_cert) = Inr key \<and>
     SignatureValid res \<and> SignedData (Claims res) = strip_trailing 0 (sha384 (key @ [1]))"
proof -
  obtain res where res: "VerifyCertOffline (arm_tee_lib (pad (arm_anchor [1]) 64)) sample_arm_json arm_cert [1, 2] [1]
      arm_params sample_tee_opts = Inr res" using arm_cert_verified ..
  from cert_key_bound [OF arm_tee_contracts res] obtain key where "marshalPublicKey (CertPublicKey arm_cert) = Inr key"
    "answers (arm_params\<lparr>ExpectedReportData := Some (sha384 (key @ [1]))\<rparr>) res" by blast
  with res show ?thesis by (auto simp: answers_def)
qed

lemma cert_evidence_not_shared_example:
  "\<exists>res. VerifyCertOffline (arm_tee_lib (pad (arm_anchor [1]) 64)) sample_arm_json arm_cert [1, 2] [1] arm_params
       sample_tee_opts = Inr res \<and>
     (CertPublicKey arm_cert = CertPublicKey arm_cert \<and> [1 :: byte] = [1] \<or>
      (\<exists>k k'. marshalPublicKey (CertPublicKey arm_cert) = Inr k \<and> marshalPublicKey (CertPublicKey arm_cert) = Inr k' \<and>
         collision_in sha384 [k @ [1], k' @ [1]]))"
proof -
  obtain res where res: "VerifyCertOffline (arm_tee_lib (pad (arm_anchor [1]) 64)) sample_arm_json arm_cert [1, 2] [1]
      arm_params sample_tee_opts = Inr res" using arm_cert_verified ..
  have "key_wf (CertPublicKey arm_cert)" by (simp add: arm_cert_def)
  from cert_evidence_not_shared [OF arm_tee_contracts res res refl this this refl] res show ?thesis by blast
qed

lemma UnmarshalExtension_wf_example:
  "evidence_wf arm_attestation \<and> runtime_wf arm_attestation \<and> wireTEEType (ArmFamily arm_attestation) = Inr 2"
  using UnmarshalExtension_wf [OF arm_unmarshal] by (auto simp: arm_attestation_def)

theorem service_key_bound_witness:
  "\<exists>resp key. VerifyCertWithService (\<lambda>_. Inr None)
       sample_arm_json (\<lambda>_. Inr \<lparr>RespResult = zero_result\<lparr>SignatureValid := True, ReportDataMatch := Some True\<rparr>, RespToken = None\<rparr>)
       arm_cert [1, 2] [1] \<lparr>PolReportData = [], PolAllowDebug = False, PolMinTcb = None, PolImages = [], PolMeasurements = [],
         PolRegisters = [], PolPCRs = [], PolInitDataHash = []\<rparr> = Inr resp \<and>
     marshalPublicKey (CertPublicKey arm_cert) = Inr key \<and> ReportDataMatch (RespResult resp) = Some True"
proof -
  let ?resp = "\<lparr>RespResult = zero_result\<lparr>SignatureValid := True, ReportDataMatch := Some True\<rparr>, RespToken = None\<rparr>"
  let ?pol = "\<lparr>PolReportData = [], PolAllowDebug = False, PolMinTcb = None, PolImages = [], PolMeasurements = [],
         PolRegisters = [], PolPCRs = [], PolInitDataHash = []\<rparr>"
  have ext: "find (\<lambda>x. ExtId x = [1, 2]) (CertExtensions arm_cert) = Some (hd (CertExtensions arm_cert))"
    by (simp add: arm_cert_def)
  have key: "bindingAnchor (Ed25519Key (replicate 32 9)) [1] [] = Inr (arm_anchor [1])"
    by (auto simp: bindingAnchor_Inr arm_anchor_def)
  have fam: "Family PlatformGcpTDX = FamilyTDX" by (simp add: Family_def)
  have att: "checkRuntimeExtensions FamilyTDX arm_list = Inr ()"
    using UnmarshalExtension_sound [OF arm_unmarshal] by (simp add: runtime_wf_def arm_attestation_def)
  have "VerifyEvidenceWithRuntimeLog (\<lambda>_. Inr None) (\<lambda>_. Inr ?resp) \<lparr>EvPlatform = PlatformGcpTDX, EvEvidence = [9]\<rparr>
      (?pol\<lparr>PolReportData := arm_anchor [1]\<rparr>) arm_list = Inr ?resp"
    by (simp add: VerifyEvidenceWithRuntimeLog_Inr EnforcePinsWithRuntimeLog_Inr verdict_ok_def policy_params_def fam
        platform_agrees_def pcr_pins_hold_def flat_pins_hold_def EnforceLaunchMeasurement_def)
  with key att fam have "VerifyWithService (\<lambda>_. Inr None) sample_arm_json (\<lambda>_. Inr ?resp) arm_attestation
      (Ed25519Key (replicate 32 9)) [1] ?pol = Inr ?resp"
    by (simp add: VerifyWithService_def Envelope_def arm_attestation_def)
  with ext arm_unmarshal have run: "VerifyCertWithService (\<lambda>_. Inr None) sample_arm_json (\<lambda>_. Inr ?resp) arm_cert [1, 2] [1] ?pol
      = Inr ?resp"
    by (auto simp: VerifyCertWithService_def attestationAndKey_def ExtractAttestation_def publicKeyFromCert_def)
      (simp add: arm_cert_def)
  from service_key_bound [OF run] run show ?thesis by blast
qed

text \<open>Native TDX evidence, with its event log stripped, and one runtime extension.\<close>

lemma arm_new:
  "NewAttestation sample_arm_json \<lparr>EvPlatform = '' GCP-tdx'', EvEvidence = [9]\<rparr> =
     Inr (arm_attestation\<lparr>ArmRuntimeExtensions := []\<rparr>)"
proof -
  note n = gcp_spelling
  have f: "Family PlatformGcpTDX = FamilyTDX" "Family '' GCP-tdx'' = FamilyTDX" using n by (simp_all add: Family_def)
  have v: "\<not> HasVTPMQuote PlatformGcpTDX" by (simp add: HasVTPMQuote_def)
  show ?thesis
    by (simp add: NewAttestation_def evidenceForExtension_def n f v IsSNP_def Let_def stripTDXEventlog_def sample_arm_json_def
        newAttestation_Some arm_attestation_def)
qed

theorem extension_round_trip_witness:
  "\<exists>att ext. NewAttestation sample_arm_json \<lparr>EvPlatform = '' GCP-tdx'', EvEvidence = [9]\<rparr> = Inr att \<and>
     MarshalExtension (att\<lparr>ArmRuntimeExtensions := arm_list\<rparr>) [1, 2] = Inr ext \<and>
     (\<exists>emb. UnmarshalExtension sample_arm_json (ExtValue ext) =
        Inr (att\<lparr>ArmRuntimeExtensions := arm_list, ArmEmbedded := emb\<rparr>))"
proof -
  let ?att = "arm_attestation\<lparr>ArmRuntimeExtensions := []\<rparr>"
  have att: "checkRuntimeExtensions FamilyTDX arm_list = Inr ()"
    using UnmarshalExtension_sound [OF arm_unmarshal] by (simp add: runtime_wf_def arm_attestation_def)
  then have m: "MarshalExtension (?att\<lparr>ArmRuntimeExtensions := arm_list\<rparr>) [1, 2] = Inr (hd (CertExtensions arm_cert))"
    by (simp add: MarshalExtension_def arm_attestation_def arm_cert_def arm_list_def)
  have len: "length (ExtValue (hd (CertExtensions arm_cert))) < 2 ^ 31"
    by (simp add: arm_cert_def asn1_marshal_def arm_list_def bytes_of_string_def tlv_def der_length_def byte_width.simps)
  have "ArmEmbedded ?att \<noteq> None" by (simp add: arm_attestation_def)
  then have "ArmEmbedded ?att = None \<Longrightarrow> hd (ArmReport ?att) \<in> set report_version" by simp
  from extension_round_trip [OF sample_arm_contract arm_new this m len] arm_new m show ?thesis
    by (auto simp: arm_attestation_def)
qed

end
