(* ===== verification/LaunchSnp.thy ===== *)
theory LaunchSnp
  imports Sha2 GoStrings
begin

unbundle bit_operations_syntax

text \<open>
  The SEV-SNP launch measurement, package \<open>launchmeasure/snp\<close>: the CPUID signature of a vCPU model
  (\<open>vcpu.go\<close>), QEMU's kernel hash table and its page (\<open>hashes.go\<close>), and the launch digest
  (\<open>snp.go\<close>).

  The module \<open>sev-snp-measure-go\<close> (the OVMF parser, the digest context, the VMSA builder and the table
  of CPUID signatures) and the file system are the fields of the record \<open>launch_lib\<close>. A digest context
  is a value of an abstract type, updated by its operations.
\<close>

section \<open>CPUID signatures\<close>

type_synonym word32 = "32 word"
type_synonym word64 = "64 word"

definition VCPUSignature :: "word32 \<Rightarrow> word32 \<Rightarrow> word32 \<Rightarrow> word32" where
  "VCPUSignature family model stepping =
     (let (familyLow, familyHigh) =
        (if 0xF < family then (0xF, (family - 0xF) AND 0xFF) else (family, 0)) in
      push_bit 20 familyHigh OR push_bit 16 (drop_bit 4 model AND 0xF) OR push_bit 8 familyLow OR
      push_bit 4 (model AND 0xF) OR (stepping AND 0xF))"

text \<open>The table of the module (\<open>cpuid.CpuSigs\<close>) overrides the one entry the package adds.\<close>

definition vcpuTypes :: "(string \<times> int) list \<Rightarrow> (string \<times> word32) list" where
  "vcpuTypes sigs = map (\<lambda>(name, sig). (name, word_of_int sig)) sigs @ [(''EPYC-Turin'', VCPUSignature 26 0 0)]"

definition VCPUSignatureByName :: "(string \<times> int) list \<Rightarrow> string \<Rightarrow> err + word32" where
  "VCPUSignatureByName sigs name =
     (case map_of (vcpuTypes sigs) name of
        None \<Rightarrow> Inl (Errorf ''unknown vcpu type'')
      | Some sig \<Rightarrow> Inr sig)"

section \<open>Kernel hashes\<close>

record kernel_hashes =
  KhKernel :: bytes
  KhInitrd :: bytes
  KhCmdline :: bytes

definition NewKernelHashes :: "bytes \<Rightarrow> bytes \<Rightarrow> string \<Rightarrow> kernel_hashes" where
  "NewKernelHashes vmlinuz initrd cmdline =
     \<lparr>KhKernel = sha256 vmlinuz, KhInitrd = sha256 initrd, KhCmdline = sha256 (bytes_of_string cmdline @ [0])\<rparr>"

definition sha256File :: "(string \<Rightarrow> err + bytes) \<Rightarrow> string \<Rightarrow> err + bytes" where
  "sha256File read_file path = bindr (read_file path) (\<lambda>content. Inr (sha256 content))"

definition KernelHashesFromFiles :: "(string \<Rightarrow> err + bytes) \<Rightarrow> string \<Rightarrow> string \<Rightarrow> string \<Rightarrow> err + kernel_hashes" where
  "KernelHashesFromFiles read_file kernelPath initrdPath cmdline =
     bindr (sha256File read_file kernelPath) (\<lambda>vmlinuz.
     bindr (if initrdPath \<noteq> [] then sha256File read_file initrdPath else Inr (sha256 [])) (\<lambda>initrd.
     Inr \<lparr>KhKernel = vmlinuz, KhInitrd = initrd, KhCmdline = sha256 (bytes_of_string cmdline @ [0])\<rparr>))"

abbreviation (input) hashEntrySize :: nat where "hashEntrySize \<equiv> 50"
abbreviation (input) hashTableSize :: nat where "hashTableSize \<equiv> 168"
abbreviation (input) hashTablePadded :: nat where "hashTablePadded \<equiv> 176"
abbreviation (input) pageSize :: nat where "pageSize \<equiv> 4096"
abbreviation (input) DigestLen :: nat where "DigestLen \<equiv> 48"

text \<open>\<open>mustGUID\<close> runs when the package is initialised; the byte order is the module's \<open>LittleEndianBytes\<close>.\<close>

definition mustGUID :: "(bytes \<Rightarrow> bytes) \<Rightarrow> string \<Rightarrow> err + bytes" where
  "mustGUID little_endian s =
     (case hex_decode (filter (\<lambda>c. c \<noteq> CHR ''-'') s) of
        Inl e \<Rightarrow> Inl Panic
      | Inr b \<Rightarrow> (if length b \<noteq> 16 then Inl Panic else Inr (little_endian b)))"

definition guid_of :: "(bytes \<Rightarrow> bytes) \<Rightarrow> string \<Rightarrow> bytes" where
  "guid_of little_endian s = (case mustGUID little_endian s of Inl e \<Rightarrow> [] | Inr g \<Rightarrow> g)"

definition guidHashTable :: "(bytes \<Rightarrow> bytes) \<Rightarrow> bytes" where
  "guidHashTable le = guid_of le ''9438d606-4f22-4cc9-b479-a793d411fd21''"

definition guidHashKernel :: "(bytes \<Rightarrow> bytes) \<Rightarrow> bytes" where
  "guidHashKernel le = guid_of le ''4de79437-abd2-427f-b835-d5b172d2045b''"

definition guidHashInitrd :: "(bytes \<Rightarrow> bytes) \<Rightarrow> bytes" where
  "guidHashInitrd le = guid_of le ''44baf731-3a2f-4bd7-9af1-41e29169781d''"

definition guidHashCmdline :: "(bytes \<Rightarrow> bytes) \<Rightarrow> bytes" where
  "guidHashCmdline le = guid_of le ''97d02dd8-bd20-4c94-aa78-e7714d36ab2a''"

text \<open>\<open>copy(b[at:], src)\<close>, for an offset within the slice: what does not fit is not copied.\<close>

definition copy_at :: "bytes \<Rightarrow> nat \<Rightarrow> bytes \<Rightarrow> bytes" where
  "copy_at b off src = take off b @ take (length b - off) src @ drop (off + length src) b"

fun put_entries :: "(bytes \<times> bytes) list \<Rightarrow> nat \<Rightarrow> bytes \<Rightarrow> bytes" where
  "put_entries [] off b = b"
| "put_entries ((guid, hash) # es) off b =
     put_entries es (off + hashEntrySize)
       (copy_at (copy_at (copy_at b off guid) (off + 16) (le_bytes 2 hashEntrySize)) (off + 18) hash)"

definition kh_table :: "(bytes \<Rightarrow> bytes) \<Rightarrow> kernel_hashes \<Rightarrow> bytes" where
  "kh_table le k =
     put_entries [(guidHashCmdline le, KhCmdline k), (guidHashInitrd le, KhInitrd k), (guidHashKernel le, KhKernel k)] 18
       (copy_at (copy_at (replicate hashTablePadded 0) 0 (guidHashTable le)) 16 (le_bytes 2 hashTableSize))"

definition kh_page :: "(bytes \<Rightarrow> bytes) \<Rightarrow> kernel_hashes \<Rightarrow> nat \<Rightarrow> err + bytes" where
  "kh_page le k offset =
     (if pageSize < offset then Inl Panic else Inr (copy_at (replicate pageSize 0) offset (kh_table le k)))"

section \<open>The launch digest\<close>

datatype section_type = SNPSECMEM | SNPSecrets | CPUIDPage | SVSM_CAA | SNPKernelHashes | OtherSection nat

record metadata_section =
  SecGPA :: word32
  SecSize :: word32
  SectionType :: "err + section_type"

record ('g, 'fw, 'v) launch_lib =
  StatSize :: "string \<Rightarrow> err + nat"
  OvmfNew :: "string \<Rightarrow> err + 'fw"
  MetadataItems :: "'fw \<Rightarrow> metadata_section list"
  FwGPA :: "'fw \<Rightarrow> word32"
  FwData :: "'fw \<Rightarrow> bytes"
  HashTableItem :: "'fw \<Rightarrow> err + bytes"
  SevESResetEIP :: "'fw \<Rightarrow> err + word32"
  GuidBytes :: "bytes \<Rightarrow> bytes"
  GctxNew :: 'g
  UpdateNormalPages :: "'g \<Rightarrow> word64 \<Rightarrow> bytes \<Rightarrow> err + 'g"
  UpdateZeroPages :: "'g \<Rightarrow> word64 \<Rightarrow> nat \<Rightarrow> err + 'g"
  UpdateSecretsPage :: "'g \<Rightarrow> word64 \<Rightarrow> err + 'g"
  UpdateCpuidPage :: "'g \<Rightarrow> word64 \<Rightarrow> err + 'g"
  UpdateVmsaPage :: "'g \<Rightarrow> bytes \<Rightarrow> err + 'g"
  LD :: "'g \<Rightarrow> bytes"
  VmsaNew :: "word32 \<Rightarrow> word64 \<Rightarrow> word64 \<Rightarrow> err + 'v"
  VmsaPages :: "'v \<Rightarrow> int \<Rightarrow> err + bytes list"

record config =
  FirmwarePath :: string
  KernelHashes :: "kernel_hashes option"
  VCPUs :: int
  VCPUSig :: word32
  GuestFeatures :: word64

text \<open>A panic of the parser is recovered into an error.\<close>

definition openFirmware :: "('g, 'fw, 'v) launch_lib \<Rightarrow> string \<Rightarrow> err + 'fw" where
  "openFirmware lib path =
     (if path = [] then Inl (Errorf ''firmware path is required'')
      else
        bindr (wrap_err (Errorf ''read firmware'') (StatSize lib path)) (\<lambda>size.
        if size = 0 \<or> size mod pageSize \<noteq> 0 then Inl (Errorf ''firmware size'')
        else
          (case OvmfNew lib path of
             Inl e \<Rightarrow> Inl (if panics e then Errorf ''malformed OVMF image'' else Wrap (Errorf ''parse firmware'') e)
           | Inr img \<Rightarrow>
               (if MetadataItems lib img = [] then Inl (Errorf ''OVMF image has no SEV metadata sections'') else Inr img))))"

definition hashTableOffset :: "('g, 'fw, 'v) launch_lib \<Rightarrow> 'fw \<Rightarrow> err + nat" where
  "hashTableOffset lib fw =
     (case HashTableItem lib fw of
        Inl e \<Rightarrow> Inl (Errorf ''OVMF has no SEV_HASH_TABLE_RV entry'')
      | Inr item \<Rightarrow>
          (if length item < 4 then Inl (Errorf ''OVMF has no SEV_HASH_TABLE_RV entry'')
           else
             let tableGPA = le_nat (take 4 item) in
             if tableGPA = 0 then Inl (Errorf ''OVMF has no SEV_HASH_TABLE_RV entry'') else Inr (tableGPA mod pageSize)))"

text \<open>One section of \<open>measureMetadata\<close>.\<close>

definition measure_section ::
    "('g, 'fw, 'v) launch_lib \<Rightarrow> 'fw \<Rightarrow> kernel_hashes option \<Rightarrow> metadata_section \<Rightarrow> 'g \<Rightarrow> err + 'g" where
  "measure_section lib fw kh s ld =
     bindr (SectionType s) (\<lambda>st.
     let gpa = ucast (SecGPA s) in
     case st of
       SNPSECMEM \<Rightarrow> wrap_err (Errorf ''section'') (UpdateZeroPages lib ld gpa (unat (SecSize s)))
     | SVSM_CAA \<Rightarrow> wrap_err (Errorf ''section'') (UpdateZeroPages lib ld gpa (unat (SecSize s)))
     | SNPSecrets \<Rightarrow> UpdateSecretsPage lib ld gpa
     | CPUIDPage \<Rightarrow> UpdateCpuidPage lib ld gpa
     | SNPKernelHashes \<Rightarrow>
         (case kh of
            None \<Rightarrow> wrap_err (Errorf ''section'') (UpdateZeroPages lib ld gpa (unat (SecSize s)))
          | Some k \<Rightarrow>
              (if unat (SecSize s) \<noteq> pageSize then Inl (Errorf ''kernel-hashes section size'')
               else
                 bindr (hashTableOffset lib fw) (\<lambda>off.
                 bindr (kh_page (GuidBytes lib) k off) (\<lambda>p. UpdateNormalPages lib ld gpa p))))
     | OtherSection t \<Rightarrow> Inl (Errorf ''unhandled OVMF metadata section type''))"

fun measure_sections ::
    "('g, 'fw, 'v) launch_lib \<Rightarrow> 'fw \<Rightarrow> kernel_hashes option \<Rightarrow> metadata_section list \<Rightarrow> 'g \<Rightarrow> bool \<Rightarrow> err + ('g \<times> bool)" where
  "measure_sections lib fw kh [] ld sawKernelHashes = Inr (ld, sawKernelHashes)"
| "measure_sections lib fw kh (s # ss) ld sawKernelHashes =
     bindr (measure_section lib fw kh s ld) (\<lambda>ld'.
     measure_sections lib fw kh ss ld' (sawKernelHashes \<or> SectionType s = Inr SNPKernelHashes))"

definition measureMetadata :: "('g, 'fw, 'v) launch_lib \<Rightarrow> 'g \<Rightarrow> 'fw \<Rightarrow> kernel_hashes option \<Rightarrow> err + 'g" where
  "measureMetadata lib ld fw kh =
     bindr (measure_sections lib fw kh (MetadataItems lib fw) ld False) (\<lambda>(ld', sawKernelHashes).
     if kh \<noteq> None \<and> \<not> sawKernelHashes then Inl (Errorf ''no SNP_KERNEL_HASHES metadata section'') else Inr ld')"

definition vmsaPages :: "('g, 'fw, 'v) launch_lib \<Rightarrow> word32 \<Rightarrow> config \<Rightarrow> err + bytes list" where
  "vmsaPages lib resetEIP cfg = 
     bindr (wrap_err (Errorf ''build VMSA'') (VmsaNew lib resetEIP (GuestFeatures cfg) (ucast (VCPUSig cfg)))) (\<lambda>v.
     wrap_err (Errorf ''serialise VMSA'') (VmsaPages lib v (VCPUs cfg)))"

fun update_vmsa_pages :: "('g, 'fw, 'v) launch_lib \<Rightarrow> 'g \<Rightarrow> bytes list \<Rightarrow> err + 'g" where
  "update_vmsa_pages lib ld [] = Inr ld"
| "update_vmsa_pages lib ld (p # ps) =
     bindr (wrap_err (Errorf ''measure VMSA page'') (UpdateVmsaPage lib ld p)) (\<lambda>ld'. update_vmsa_pages lib ld' ps)"

definition LaunchDigest :: "('g, 'fw, 'v) launch_lib \<Rightarrow> config \<Rightarrow> err + bytes" where
  "LaunchDigest lib cfg =
     (if VCPUs cfg < 1 then Inl (Errorf ''vcpus must be at least 1'')
      else
        bindr (openFirmware lib (FirmwarePath cfg)) (\<lambda>fw.
        bindr (wrap_err (Errorf ''measure firmware'')
          (UpdateNormalPages lib (GctxNew lib) (ucast (FwGPA lib fw)) (FwData lib fw))) (\<lambda>ld1.
        bindr (measureMetadata lib ld1 fw (KernelHashes cfg)) (\<lambda>ld2.
        bindr (wrap_err (Errorf ''OVMF SEV-ES reset block'') (SevESResetEIP lib fw)) (\<lambda>resetEIP.
        bindr (vmsaPages lib resetEIP cfg) (\<lambda>pages.
        bindr (update_vmsa_pages lib ld2 pages) (\<lambda>ld3.
        let digest = LD lib ld3 in
        if length digest \<noteq> DigestLen then Inl (Errorf ''launch digest length'') else Inr digest)))))))"

section \<open>Reading a signature back\<close>

text \<open>The fields of CPUID Fn0000_0001_EAX, as the processor manual defines them.\<close>

definition cpuid_family :: "word32 \<Rightarrow> word32" where
  "cpuid_family sig =
     (let low = drop_bit 8 sig AND 0xF in if low = 0xF then low + (drop_bit 20 sig AND 0xFF) else low)"

definition cpuid_model :: "word32 \<Rightarrow> word32" where
  "cpuid_model sig = (push_bit 4 (drop_bit 16 sig AND 0xF) OR (drop_bit 4 sig AND 0xF))"

definition cpuid_stepping :: "word32 \<Rightarrow> word32" where
  "cpuid_stepping sig = (sig AND 0xF)"

lemma mask_lits: "(0xF :: word32) = mask 4" "(0xFF :: word32) = mask 8"
  by (simp_all add: mask_eq_exp_minus_1)

lemma word_above_bits: "unat (w :: word32) < 2 ^ n \<Longrightarrow> n \<le> k \<Longrightarrow> \<not> bit w k"
proof
  assume *: "unat w < 2 ^ n" "n \<le> k" "bit w k"
  from *(1) have "take_bit n (unat w) = unat w" by (rule take_bit_nat_eq_self)
  then have "take_bit n w = w" by (metis unsigned_take_bit_eq word_unat_eq_iff)
  with *(2,3) show False by (metis bit_take_bit_iff not_less)
qed

lemma and_mask_below: "unat (w :: word32) < 2 ^ n \<Longrightarrow> w AND mask n = w"
  by (rule bit_word_eqI) (auto simp: bit_simps, meson leI word_above_bits)

lemma signature_fields:
  fixes low high model stepping sig :: word32
  assumes "low < 16" "high < 256"
  defines "sig \<equiv> push_bit 20 high OR push_bit 16 (drop_bit 4 model AND 0xF) OR push_bit 8 low OR
      push_bit 4 (model AND 0xF) OR (stepping AND 0xF)"
  shows "drop_bit 8 sig AND 0xF = low" "drop_bit 20 sig AND 0xFF = high" "sig AND 0xF = stepping AND 0xF"
    "drop_bit 16 sig AND 0xF = drop_bit 4 model AND 0xF" "drop_bit 4 sig AND 0xF = model AND 0xF"
proof -
  have "unat low < 2 ^ 4" "unat high < 2 ^ 8" using assms(1,2) by (simp_all add: word_less_nat_alt)
  then have l: "4 \<le> k \<Longrightarrow> \<not> bit low k" and h: "8 \<le> k \<Longrightarrow> \<not> bit high k" for k
    using word_above_bits by blast+
  then have l': "bit low k \<Longrightarrow> k < 4" and h': "bit high k \<Longrightarrow> k < 8" for k by (meson leI)+
  note fields = bit_simps l h
  show "drop_bit 8 sig AND 0xF = low" unfolding sig_def mask_lits
    by (rule bit_word_eqI) (auto simp: fields dest: l' h')
  show "drop_bit 20 sig AND 0xFF = high" unfolding sig_def mask_lits
    by (rule bit_word_eqI) (auto simp: fields dest: h')
  show "sig AND 0xF = stepping AND 0xF" unfolding sig_def mask_lits
    by (rule bit_word_eqI) (auto simp: fields dest: l' h')
  show "drop_bit 16 sig AND 0xF = drop_bit 4 model AND 0xF" unfolding sig_def mask_lits
    by (rule bit_word_eqI) (auto simp: fields dest: l' h')
  show "drop_bit 4 sig AND 0xF = model AND 0xF" unfolding sig_def mask_lits
    by (rule bit_word_eqI) (auto simp: fields dest: l' h')
qed

text \<open>
  Signatures decode. The signature of a family up to 0x10E, a model up to 0xFF and a stepping up
  to 0xF has these three as its CPUID fields, extended family and model included.
\<close>

lemma VCPUSignature_decodes:
  assumes "family \<le> 0x10E" and "model \<le> 0xFF" and "stepping \<le> 0xF"
  shows "cpuid_family (VCPUSignature family model stepping) = family \<and>
    cpuid_model (VCPUSignature family model stepping) = model \<and>
    cpuid_stepping (VCPUSignature family model stepping) = stepping"
proof -
  define low where "low = (if 0xF < family then 0xF else family)"
  define high where "high = (if 0xF < family then (family - 0xF) AND 0xFF else 0)"
  have sig: "VCPUSignature family model stepping = push_bit 20 high OR push_bit 16 (drop_bit 4 model AND 0xF) OR
      push_bit 8 low OR push_bit 4 (model AND 0xF) OR (stepping AND 0xF)"
    by (simp add: VCPUSignature_def low_def high_def)
  have m8: "x \<le> 0xFF \<Longrightarrow> x AND 0xFF = x" and m4: "x \<le> 0xF \<Longrightarrow> x AND 0xF = x" for x :: word32
    using and_mask_below [of x 8] and_mask_below [of x 4] by (simp_all add: word_le_nat_alt flip: mask_lits)
  have "low < 16" by (auto simp: low_def word_less_nat_alt)
  moreover have "high < 256"
    unfolding high_def mask_lits using and_mask_less' [of 8 "family - mask 4"] by simp
  ultimately have b: "low < 16" "high < 256" by simp_all
  note f = signature_fields [OF b, of model stepping, folded sig]
  have "low = 0xF \<Longrightarrow> low + high = family" "low \<noteq> 0xF \<Longrightarrow> low = family"
    using assms(1) by (auto simp: low_def high_def m8 word_le_nat_alt unat_sub word_less_nat_alt)
  then have "cpuid_family (VCPUSignature family model stepping) = family" by (simp add: cpuid_family_def f Let_def)
  moreover have "push_bit 4 (drop_bit 4 model AND 0xF) OR (model AND 0xF) = model"
  proof (rule bit_word_eqI)
    fix n
    have "unat model < 2 ^ 8" using assms(2) by (simp add: word_le_nat_alt)
    then have "bit model n \<Longrightarrow> n < 8" by (meson leI word_above_bits)
    then show "bit (push_bit 4 (drop_bit 4 model AND 0xF) OR (model AND 0xF)) n = bit model n"
      unfolding mask_lits by (auto simp: bit_simps)
  qed
  then have "cpuid_model (VCPUSignature family model stepping) = model" by (simp add: cpuid_model_def f)
  moreover have "cpuid_stepping (VCPUSignature family model stepping) = stepping"
    using assms(3) by (simp add: cpuid_stepping_def f m4)
  ultimately show ?thesis by blast
qed

lemma VCPUSignature_decodes_example:
  "cpuid_family (VCPUSignature 25 0x11 1) = 25 \<and> cpuid_model (VCPUSignature 25 0x11 1) = 0x11 \<and>
   cpuid_stepping (VCPUSignature 25 0x11 1) = 1"
  using VCPUSignature_decodes [of 25 "0x11" 1] by simp

section \<open>The hash table and its page\<close>

lemma length_copy_at [simp]: "off + length src \<le> length b \<Longrightarrow> length (copy_at b off src) = length b"
  by (simp add: copy_at_def)

lemma copy_at_fill:
  "off = length p \<Longrightarrow> length src \<le> n \<Longrightarrow> copy_at (p @ replicate n z) off src = p @ src @ replicate (n - length src) z"
  by (simp add: copy_at_def)

definition hash_entry :: "bytes \<times> bytes \<Rightarrow> bytes" where
  "hash_entry e = fst e @ le_bytes 2 hashEntrySize @ snd e"

definition entry_ok :: "bytes \<times> bytes \<Rightarrow> bool" where
  "entry_ok e \<longleftrightarrow> length (fst e) = 16 \<and> length (snd e) = 32"

lemma length_hash_entry: "entry_ok e \<Longrightarrow> length (hash_entry e) = 50"
  by (simp add: hash_entry_def entry_ok_def)

lemma put_entries_fill:
  "list_all entry_ok es \<Longrightarrow> off = length p \<Longrightarrow> 50 * length es \<le> n \<Longrightarrow>
     put_entries es off (p @ replicate n 0) = p @ concat (map hash_entry es) @ replicate (n - 50 * length es) 0"
proof (induction es arbitrary: off p n)
  case (Cons e es)
  obtain guid hash where e: "e = (guid, hash)" by (cases e)
  with Cons.prems have l: "length guid = 16" "length hash = 32" "50 \<le> n" by (auto simp: entry_ok_def)
  let ?q = "p @ guid @ le_bytes 2 50 @ hash"
  have "copy_at (p @ replicate n 0) off guid = (p @ guid) @ replicate (n - 16) 0"
    using copy_at_fill [of off p guid n 0] Cons.prems l by simp
  moreover have "copy_at ((p @ guid) @ replicate (n - 16) 0) (off + 16) (le_bytes 2 50) =
      (p @ guid @ le_bytes 2 50) @ replicate (n - 18) 0"
    using copy_at_fill [of "off + 16" "p @ guid" "le_bytes 2 50" "n - 16" 0] Cons.prems l by simp
  moreover have "copy_at ((p @ guid @ le_bytes 2 50) @ replicate (n - 18) 0) (off + 18) hash = ?q @ replicate (n - 50) 0"
    using copy_at_fill [of "off + 18" "p @ guid @ le_bytes 2 50" hash "n - 18" 0] Cons.prems l by simp
  ultimately have "put_entries (e # es) off (p @ replicate n 0) = put_entries es (off + 50) (?q @ replicate (n - 50) 0)"
    by (simp add: e)
  also have "\<dots> = ?q @ concat (map hash_entry es) @ replicate (n - 50 - 50 * length es) 0"
    using Cons.prems l by (intro Cons.IH) auto
  finally show ?case by (simp add: hash_entry_def [of "(guid, hash)"] e)
qed simp

definition guid_width :: "(bytes \<Rightarrow> bytes) \<Rightarrow> bool" where
  "guid_width le \<longleftrightarrow> (\<forall>b. length b = 16 \<longrightarrow> length (le b) = 16)"

lemma mustGUID_constants:
  "mustGUID le ''9438d606-4f22-4cc9-b479-a793d411fd21'' = Inr (guidHashTable le)"
  "mustGUID le ''4de79437-abd2-427f-b835-d5b172d2045b'' = Inr (guidHashKernel le)"
  "mustGUID le ''44baf731-3a2f-4bd7-9af1-41e29169781d'' = Inr (guidHashInitrd le)"
  "mustGUID le ''97d02dd8-bd20-4c94-aa78-e7714d36ab2a'' = Inr (guidHashCmdline le)"
  by code_simp+

lemma length_guid: "guid_width le \<Longrightarrow> mustGUID le s = Inr g \<Longrightarrow> length g = 16"
  by (auto simp: mustGUID_def guid_width_def split: sum.splits if_splits)

lemmas length_guids = length_guid [OF _ mustGUID_constants(1)] length_guid [OF _ mustGUID_constants(2)]
  length_guid [OF _ mustGUID_constants(3)] length_guid [OF _ mustGUID_constants(4)]

definition kh_ok :: "kernel_hashes \<Rightarrow> bool" where
  "kh_ok k \<longleftrightarrow> length (KhKernel k) = 32 \<and> length (KhInitrd k) = 32 \<and> length (KhCmdline k) = 32"

definition table_image :: "(bytes \<Rightarrow> bytes) \<Rightarrow> kernel_hashes \<Rightarrow> bytes" where
  "table_image le k =
     guidHashTable le @ le_bytes 2 168 @ hash_entry (guidHashCmdline le, KhCmdline k) @
     hash_entry (guidHashInitrd le, KhInitrd k) @ hash_entry (guidHashKernel le, KhKernel k) @ replicate 8 0"

lemma kh_table_image: "guid_width le \<Longrightarrow> kh_ok k \<Longrightarrow> kh_table le k = table_image le k"
proof -
  assume w: "guid_width le" and k: "kh_ok k"
  let ?es = "[(guidHashCmdline le, KhCmdline k), (guidHashInitrd le, KhInitrd k), (guidHashKernel le, KhKernel k)]"
  have "copy_at (replicate 176 0) 0 (guidHashTable le) = guidHashTable le @ replicate 160 0"
    using copy_at_fill [of 0 "[]" "guidHashTable le" 176 0] w by (simp add: length_guids)
  moreover have "copy_at (guidHashTable le @ replicate 160 0) 16 (le_bytes 2 168) =
      (guidHashTable le @ le_bytes 2 168) @ replicate 158 0"
    using copy_at_fill [of 16 "guidHashTable le" "le_bytes 2 168" 160 0] w by (simp add: length_guids)
  moreover have "put_entries ?es 18 ((guidHashTable le @ le_bytes 2 168) @ replicate 158 0) =
      (guidHashTable le @ le_bytes 2 168) @ concat (map hash_entry ?es) @ replicate (158 - 50 * length ?es) 0"
    using w k by (intro put_entries_fill) (simp_all add: length_guids entry_ok_def kh_ok_def)
  ultimately show ?thesis by (simp add: kh_table_def table_image_def)
qed

lemma length_table_image: "guid_width le \<Longrightarrow> kh_ok k \<Longrightarrow> length (table_image le k) = 176"
  by (simp add: table_image_def length_guids length_hash_entry entry_ok_def kh_ok_def)

lemma table_image_inj:
  assumes "guid_width le" "kh_ok k" "kh_ok k'" "table_image le k = table_image le k'"
  shows "k = k'"
  using assms by (cases k; cases k') (auto simp: table_image_def hash_entry_def kh_ok_def)

text \<open>The page: the whole table where it fits, its start where it does not.\<close>

lemma kh_page_image:
  assumes "guid_width le" "kh_ok k" "off \<le> 4096"
  shows "kh_page le k off = Inr (take 4096 (replicate off 0 @ table_image le k @ replicate (4096 - off - 176) 0))"
proof -
  have "length (table_image le k) = 176" using assms(1,2) by (rule length_table_image)
  then show ?thesis using assms(3)
    by (auto simp: kh_page_def kh_table_image [OF assms(1,2)] copy_at_def min_def)
qed

lemma kh_page_inj:
  assumes "guid_width le" "kh_ok k" "kh_ok k'" "off \<le> 3920" "kh_page le k off = kh_page le k' off"
  shows "k = k'"
proof -
  have l: "length (table_image le k) = 176" "length (table_image le k') = 176"
    using assms(1-3) by (simp_all add: length_table_image)
  with assms have "table_image le k = table_image le k'" by (simp add: kh_page_image)
  then show ?thesis using assms(1-3) by (rule table_image_inj [rotated 3])
qed

text \<open>From offset 3960 on, the hash of the kernel is past the end of the page.\<close>

lemma kh_page_truncated:
  assumes "guid_width le" "kh_ok k" "length x = 32" "3960 \<le> off" "off \<le> 4096"
  shows "kh_page le (k\<lparr>KhKernel := x\<rparr>) off = kh_page le k off"
proof -
  let ?front = "guidHashTable le @ le_bytes 2 168 @ hash_entry (guidHashCmdline le, KhCmdline k) @
     hash_entry (guidHashInitrd le, KhInitrd k) @ guidHashKernel le @ le_bytes 2 50"
  have l: "length ?front = 136"
    using assms(1,2) by (simp add: length_guids length_hash_entry entry_ok_def kh_ok_def)
  have t: "table_image le (k\<lparr>KhKernel := y\<rparr>) = ?front @ y @ replicate 8 0" for y
    by (simp add: table_image_def hash_entry_def)
  have p: "kh_page le (k\<lparr>KhKernel := y\<rparr>) off = Inr (replicate off 0 @ take (4096 - off) ?front)" if "length y = 32" for y
    using kh_page_image [of le "k\<lparr>KhKernel := y\<rparr>" off] assms that l by (simp add: t kh_ok_def del: append_assoc)
  have "length (KhKernel k) = 32" "k\<lparr>KhKernel := KhKernel k\<rparr> = k" using assms(2) by (auto simp: kh_ok_def)
  with p [OF assms(3)] p [of "KhKernel k"] show ?thesis by simp
qed

section \<open>The digest as a plan of updates\<close>

text \<open>
  The specification of \<open>LaunchDigest\<close>: the list of context updates a launch performs, written over the
  library's answers. The page of kernel hashes is a layout of zeros, the table and zeros, cut off at the end of
  the page, at the offset the firmware names; the vCPU pages are what the library makes for all of
  \<open>VCPUs\<close>.
\<close>

datatype gctx_op = NormalOp word64 bytes | ZeroOp word64 nat | SecretsOp word64 | CpuidOp word64 | VmsaOp bytes

fun run_op :: "('g, 'fw, 'v) launch_lib \<Rightarrow> gctx_op \<Rightarrow> 'g \<Rightarrow> err + 'g" where
  "run_op lib (NormalOp gpa b) g = UpdateNormalPages lib g gpa b"
| "run_op lib (ZeroOp gpa n) g = UpdateZeroPages lib g gpa n"
| "run_op lib (SecretsOp gpa) g = UpdateSecretsPage lib g gpa"
| "run_op lib (CpuidOp gpa) g = UpdateCpuidPage lib g gpa"
| "run_op lib (VmsaOp p) g = UpdateVmsaPage lib g p"

fun run_ops :: "('g, 'fw, 'v) launch_lib \<Rightarrow> gctx_op list \<Rightarrow> 'g \<Rightarrow> err + 'g" where
  "run_ops lib [] g = Inr g"
| "run_ops lib (x # xs) g = bindr (run_op lib x g) (run_ops lib xs)"

definition hash_page :: "(bytes \<Rightarrow> bytes) \<Rightarrow> kernel_hashes \<Rightarrow> nat \<Rightarrow> bytes" where
  "hash_page le k off = take 4096 (replicate off 0 @ table_image le k @ replicate (4096 - off - 176) 0)"

definition section_op :: "('g, 'fw, 'v) launch_lib \<Rightarrow> 'fw \<Rightarrow> kernel_hashes option \<Rightarrow> metadata_section \<Rightarrow> err + gctx_op" where
  "section_op lib fw kh s =
     bindr (SectionType s) (\<lambda>st.
     let gpa = ucast (SecGPA s); zero = Inr (ZeroOp gpa (unat (SecSize s))) in
     case st of
       SNPSECMEM \<Rightarrow> zero | SVSM_CAA \<Rightarrow> zero
     | SNPSecrets \<Rightarrow> Inr (SecretsOp gpa)
     | CPUIDPage \<Rightarrow> Inr (CpuidOp gpa)
     | SNPKernelHashes \<Rightarrow>
         (case kh of
            None \<Rightarrow> zero
          | Some k \<Rightarrow>
              bindr (HashTableItem lib fw) (\<lambda>item.
              let addr = le_nat (take 4 item) in
              if unat (SecSize s) = 4096 \<and> 4 \<le> length item \<and> addr \<noteq> 0
              then Inr (NormalOp gpa (hash_page (GuidBytes lib) k (addr mod 4096)))
              else Inl (Errorf ''kernel hashes'')))
     | OtherSection t \<Rightarrow> Inl (Errorf ''unhandled''))"

definition has_kernel_section :: "('g, 'fw, 'v) launch_lib \<Rightarrow> 'fw \<Rightarrow> bool" where
  "has_kernel_section lib fw \<longleftrightarrow> (\<exists>s\<in>set (MetadataItems lib fw). SectionType s = Inr SNPKernelHashes)"

definition launch_plan :: "('g, 'fw, 'v) launch_lib \<Rightarrow> 'fw \<Rightarrow> config \<Rightarrow> err + gctx_op list" where
  "launch_plan lib fw cfg =
     bindr (map_each (section_op lib fw (KernelHashes cfg)) (MetadataItems lib fw)) (\<lambda>sections.
     if KernelHashes cfg \<noteq> None \<and> \<not> has_kernel_section lib fw then Inl (Errorf ''no section'')
     else
       bindr (SevESResetEIP lib fw) (\<lambda>eip.
       bindr (VmsaNew lib eip (GuestFeatures cfg) (ucast (VCPUSig cfg))) (\<lambda>v.
       bindr (VmsaPages lib v (VCPUs cfg)) (\<lambda>pages.
       Inr (NormalOp (ucast (FwGPA lib fw)) (FwData lib fw) # sections @ map VmsaOp pages)))))"

text \<open>The Go type of a hash is an array of 32 bytes.\<close>

definition hashes_ok :: "kernel_hashes option \<Rightarrow> bool" where
  "hashes_ok kh \<longleftrightarrow> (case kh of None \<Rightarrow> True | Some k \<Rightarrow> kh_ok k)"

text \<open>
  What the library documents of the pages it makes, for at least one virtual CPU: one page of the boot
  processor, then the same page for each of the others.
\<close>

definition vmsa_contract :: "('g, 'fw, 'v) launch_lib \<Rightarrow> bool" where
  "vmsa_contract lib \<longleftrightarrow>
     (\<forall>v n ps. 1 \<le> n \<longrightarrow> VmsaPages lib v n = Inr ps \<longrightarrow> (\<exists>bsp ap. ps = bsp # replicate (nat n - 1) ap))"

lemma hashTableOffset_Inr:
  "hashTableOffset lib fw = Inr off \<longleftrightarrow>
     (\<exists>item. HashTableItem lib fw = Inr item \<and> 4 \<le> length item \<and> le_nat (take 4 item) \<noteq> 0 \<and>
        off = le_nat (take 4 item) mod 4096)"
  by (auto simp: hashTableOffset_def Let_def split: sum.splits)

lemma kh_page_hash_page: "guid_width le \<Longrightarrow> kh_ok k \<Longrightarrow> off \<le> 4096 \<Longrightarrow> kh_page le k off = Inr (hash_page le k off)"
  by (simp add: kh_page_image hash_page_def)

lemma hash_page_inj:
  "guid_width le \<Longrightarrow> kh_ok k \<Longrightarrow> kh_ok k' \<Longrightarrow> off \<le> 3920 \<Longrightarrow> hash_page le k off = hash_page le k' off \<Longrightarrow> k = k'"
  using kh_page_inj [of le k k' off] by (simp add: kh_page_hash_page)

lemma openFirmware_Inr:
  "openFirmware lib path = Inr fw \<longleftrightarrow>
     path \<noteq> [] \<and> (\<exists>size. StatSize lib path = Inr size \<and> size \<noteq> 0 \<and> size mod 4096 = 0) \<and>
     OvmfNew lib path = Inr fw \<and> MetadataItems lib fw \<noteq> []"
  by (auto simp: openFirmware_def split: sum.splits if_splits)

lemma run_ops_append: "run_ops lib (xs @ ys) g = bindr (run_ops lib xs g) (run_ops lib ys)"
proof (induction xs arbitrary: g)
  case (Cons x xs)
  then show ?case by (cases "run_op lib x g") simp_all
qed simp

lemma measure_section_op:
  assumes "guid_width (GuidBytes lib)" and "hashes_ok kh"
  shows "measure_section lib fw kh s g = Inr g' \<longleftrightarrow> (\<exists>x. section_op lib fw kh s = Inr x \<and> run_op lib x g = Inr g')"
proof (cases "SectionType s")
  case (Inr st)
  show ?thesis
  proof (cases "st = SNPKernelHashes \<and> kh \<noteq> None")
    case True
    then obtain k where k: "kh = Some k" by blast
    with assms(2) have "kh_ok k" by (simp add: hashes_ok_def)
    then have page: "kh_page (GuidBytes lib) k (n mod 4096) = Inr (hash_page (GuidBytes lib) k (n mod 4096))" for n
      using assms(1) by (intro kh_page_hash_page) (simp_all add: less_imp_le)
    show ?thesis
      using Inr True k by (auto simp: measure_section_def section_op_def Let_def hashTableOffset_Inr page)
  next
    case False
    with Inr show ?thesis
      by (cases st; cases kh) (auto simp: measure_section_def section_op_def Let_def)
  qed
qed (simp add: measure_section_def section_op_def)

lemma measure_sections_ops:
  assumes "guid_width (GuidBytes lib)" and "hashes_ok kh"
  shows "measure_sections lib fw kh ss g saw = Inr (g', saw') \<longleftrightarrow>
     (\<exists>ops. map_each (section_op lib fw kh) ss = Inr ops \<and> run_ops lib ops g = Inr g') \<and>
     saw' = (saw \<or> (\<exists>s\<in>set ss. SectionType s = Inr SNPKernelHashes))"
proof (induction ss arbitrary: g saw)
  case (Cons s ss)
  have "measure_sections lib fw kh (s # ss) g saw = Inr (g', saw') \<longleftrightarrow>
      (\<exists>x g1. section_op lib fw kh s = Inr x \<and> run_op lib x g = Inr g1 \<and>
         measure_sections lib fw kh ss g1 (saw \<or> SectionType s = Inr SNPKernelHashes) = Inr (g', saw'))"
    by (auto simp: measure_section_op [OF assms])
  then show ?case unfolding Cons.IH by auto
qed auto

lemma update_vmsa_pages_ops: "update_vmsa_pages lib g ps = Inr g' \<longleftrightarrow> run_ops lib (map VmsaOp ps) g = Inr g'"
  by (induction ps arbitrary: g) auto

lemma measureMetadata_ops:
  assumes "guid_width (GuidBytes lib)" and "hashes_ok kh"
  shows "measureMetadata lib g fw kh = Inr g' \<longleftrightarrow>
     (\<exists>ops. map_each (section_op lib fw kh) (MetadataItems lib fw) = Inr ops \<and> run_ops lib ops g = Inr g') \<and>
     (kh = None \<or> has_kernel_section lib fw)"
  by (auto simp: measureMetadata_def measure_sections_ops [OF assms] has_kernel_section_def)

lemma vmsaPages_Inr:
  "vmsaPages lib eip cfg = Inr ps \<longleftrightarrow>
     (\<exists>v. VmsaNew lib eip (GuestFeatures cfg) (ucast (VCPUSig cfg)) = Inr v \<and> VmsaPages lib v (VCPUs cfg) = Inr ps)"
  by (auto simp: vmsaPages_def)

lemma LaunchDigest_plan:
  assumes "guid_width (GuidBytes lib)" and "hashes_ok (KernelHashes cfg)"
  shows "LaunchDigest lib cfg = Inr d \<longleftrightarrow>
     1 \<le> VCPUs cfg \<and> length d = 48 \<and>
     (\<exists>fw plan g. openFirmware lib (FirmwarePath cfg) = Inr fw \<and> launch_plan lib fw cfg = Inr plan \<and>
        run_ops lib plan (GctxNew lib) = Inr g \<and> LD lib g = d)"
  unfolding LaunchDigest_def launch_plan_def
  by (auto simp: measureMetadata_ops [OF assms] vmsaPages_Inr update_vmsa_pages_ops run_ops_append Let_def
      split: if_splits)

lemma launch_plan_Inr:
  assumes "vmsa_contract lib" and "1 \<le> VCPUs cfg"
  shows "launch_plan lib fw cfg = Inr plan \<longleftrightarrow>
    (\<exists>sections eip v bsp ap.
       list_all2 (\<lambda>s x. section_op lib fw (KernelHashes cfg) s = Inr x) (MetadataItems lib fw) sections \<and>
       (KernelHashes cfg \<noteq> None \<longrightarrow> (\<exists>s\<in>set (MetadataItems lib fw). SectionType s = Inr SNPKernelHashes)) \<and>
       SevESResetEIP lib fw = Inr eip \<and> VmsaNew lib eip (GuestFeatures cfg) (ucast (VCPUSig cfg)) = Inr v \<and>
       VmsaPages lib v (VCPUs cfg) = Inr (bsp # replicate (nat (VCPUs cfg) - 1) ap) \<and>
       plan = NormalOp (ucast (FwGPA lib fw)) (FwData lib fw) # sections @
         VmsaOp bsp # replicate (nat (VCPUs cfg) - 1) (VmsaOp ap))"
    (is "_ \<longleftrightarrow> ?spec")
proof
  assume "launch_plan lib fw cfg = Inr plan"
  then obtain sections eip v pages where
    p: "map_each (section_op lib fw (KernelHashes cfg)) (MetadataItems lib fw) = Inr sections"
      "KernelHashes cfg \<noteq> None \<longrightarrow> has_kernel_section lib fw" "SevESResetEIP lib fw = Inr eip"
      "VmsaNew lib eip (GuestFeatures cfg) (ucast (VCPUSig cfg)) = Inr v" "VmsaPages lib v (VCPUs cfg) = Inr pages"
      "plan = NormalOp (ucast (FwGPA lib fw)) (FwData lib fw) # sections @ map VmsaOp pages"
    by (auto simp: launch_plan_def split: if_splits)
  with assms obtain bsp ap where "pages = bsp # replicate (nat (VCPUs cfg) - 1) ap"
    unfolding vmsa_contract_def by blast
  with p show ?spec by (auto simp: map_each_eq_Inr has_kernel_section_def)
next
  assume ?spec
  then show "launch_plan lib fw cfg = Inr plan"
    by (auto simp: launch_plan_def map_each_eq_Inr [symmetric] has_kernel_section_def)
qed

lemma KernelHashesFromFiles_exact:
  "KernelHashesFromFiles read_file kernelPath initrdPath cmdline = Inr k \<longleftrightarrow>
     (\<exists>vmlinuz initrd. read_file kernelPath = Inr vmlinuz \<and>
        (if initrdPath = [] then initrd = [] else read_file initrdPath = Inr initrd) \<and>
        k = NewKernelHashes vmlinuz initrd cmdline)"
  by (auto simp: KernelHashesFromFiles_def sha256File_def NewKernelHashes_def)

lemma NewKernelHashes_ok [simp]: "kh_ok (NewKernelHashes k i c)"
  by (simp add: kh_ok_def NewKernelHashes_def)

lemma NewKernelHashes_inj:
  assumes "NewKernelHashes k i c = NewKernelHashes k' i' c'"
  shows "k = k' \<and> i = i' \<and> c = c' \<or>
    collision_in sha256 [k, i, bytes_of_string c @ [0], k', i', bytes_of_string c' @ [0]]"
proof -
  let ?S = "[k, i, bytes_of_string c @ [0], k', i', bytes_of_string c' @ [0]]"
  have eq: "x = y \<or> collision_in sha256 ?S" if "sha256 x = sha256 y" "x \<in> set ?S" "y \<in> set ?S" for x y
    using that by (meson collision_inI)
  from assms have "sha256 k = sha256 k'" "sha256 i = sha256 i'"
    "sha256 (bytes_of_string c @ [0]) = sha256 (bytes_of_string c' @ [0])" by (simp_all add: NewKernelHashes_def)
  from eq [OF this(1)] eq [OF this(2)] eq [OF this(3)] show ?thesis by (simp; blast)
qed

lemma hashTableOffset_lt: "hashTableOffset lib fw = Inr off \<Longrightarrow> off < 4096"
  by (auto simp: hashTableOffset_def Let_def split: sum.splits if_splits)

text \<open>Equal plans place equal pages.\<close>

lemma launch_plan_page:
  assumes "launch_plan lib fw (cfg\<lparr>KernelHashes := Some a\<rparr>) = Inr plan"
    and "launch_plan lib fw (cfg\<lparr>KernelHashes := Some b\<rparr>) = Inr plan"
  shows "\<exists>off. hashTableOffset lib fw = Inr off \<and> hash_page (GuidBytes lib) a off = hash_page (GuidBytes lib) b off"
proof -
  from assms obtain xs ys pages ps' where
    xs: "map_each (section_op lib fw (Some a)) (MetadataItems lib fw) = Inr xs" and
    ys: "map_each (section_op lib fw (Some b)) (MetadataItems lib fw) = Inr ys" and
    has: "has_kernel_section lib fw" and "ys @ map VmsaOp ps' = xs @ map VmsaOp pages"
    by (auto simp: launch_plan_def split: if_splits)
  moreover have "length xs = length ys" using map_each_Inr_length [OF xs] map_each_Inr_length [OF ys] by simp
  ultimately have "xs = ys" by simp
  with xs ys have all: "list_all2 (\<lambda>s x. section_op lib fw (Some a) s = Inr x) (MetadataItems lib fw) xs"
    "list_all2 (\<lambda>s x. section_op lib fw (Some b) s = Inr x) (MetadataItems lib fw) xs"
    by (simp_all add: map_each_eq_Inr)
  from has obtain i where i: "i < length (MetadataItems lib fw)"
    and s: "SectionType (MetadataItems lib fw ! i) = Inr SNPKernelHashes"
    by (auto simp: has_kernel_section_def in_set_conv_nth)
  from all i have "section_op lib fw (Some a) (MetadataItems lib fw ! i) = Inr (xs ! i)"
    "section_op lib fw (Some b) (MetadataItems lib fw ! i) = Inr (xs ! i)"
    by (simp_all add: list_all2_conv_all_nth)
  with s obtain item where "HashTableItem lib fw = Inr item" "4 \<le> length item" "le_nat (take 4 item) \<noteq> 0"
    "NormalOp (ucast (SecGPA (MetadataItems lib fw ! i))) (hash_page (GuidBytes lib) a (le_nat (take 4 item) mod 4096)) = xs ! i"
    "NormalOp (ucast (SecGPA (MetadataItems lib fw ! i))) (hash_page (GuidBytes lib) b (le_nat (take 4 item) mod 4096)) = xs ! i"
    by (auto simp: section_op_def Let_def split: if_splits)
  then show ?thesis
    by (intro exI [of _ "le_nat (take 4 item) mod 4096"]) (auto simp: hashTableOffset_Inr dest: sym)
qed

section \<open>Properties of the digest\<close>

text \<open>
  C16: the launch digest is the digest context after a list of updates in a fixed order: the firmware
  image, one update for each metadata section (zero pages, the secrets page, the CPUID page, or the
  page of kernel hashes laid out at the firmware's offset), and one page per virtual CPU, of which the first
  is the boot processor's and the others are equal. It is returned exactly when there is a virtual
  CPU, the firmware is a readable image of whole pages with metadata, every section has an update (a
  hash page needs a section of one page and an offset the firmware names), kernel hashes have a section
  to go to, the library builds the vCPU pages, every update succeeds and the digest has 48 bytes.
  The library is taken to keep the width of a GUID and to make the vCPU pages as it documents.
\<close>

theorem LaunchDigest_runs_plan:
  assumes "guid_width (GuidBytes lib)" and "vmsa_contract lib" and "hashes_ok (KernelHashes cfg)"
  shows "LaunchDigest lib cfg = Inr d \<longleftrightarrow>
     1 \<le> VCPUs cfg \<and> length d = 48 \<and>
     (\<exists>size fw sections eip v bsp ap g.
        FirmwarePath cfg \<noteq> [] \<and> StatSize lib (FirmwarePath cfg) = Inr size \<and> size \<noteq> 0 \<and> size mod 4096 = 0 \<and>
        OvmfNew lib (FirmwarePath cfg) = Inr fw \<and> MetadataItems lib fw \<noteq> [] \<and>
        list_all2 (\<lambda>s x. section_op lib fw (KernelHashes cfg) s = Inr x) (MetadataItems lib fw) sections \<and>
        (KernelHashes cfg \<noteq> None \<longrightarrow> (\<exists>s\<in>set (MetadataItems lib fw). SectionType s = Inr SNPKernelHashes)) \<and>
        SevESResetEIP lib fw = Inr eip \<and> VmsaNew lib eip (GuestFeatures cfg) (ucast (VCPUSig cfg)) = Inr v \<and>
        VmsaPages lib v (VCPUs cfg) = Inr (bsp # replicate (nat (VCPUs cfg) - 1) ap) \<and>
        run_ops lib
          (NormalOp (ucast (FwGPA lib fw)) (FwData lib fw) # sections @
           VmsaOp bsp # replicate (nat (VCPUs cfg) - 1) (VmsaOp ap)) (GctxNew lib) = Inr g \<and>
        LD lib g = d)"
proof (cases "1 \<le> VCPUs cfg")
  case True
  show ?thesis
    unfolding LaunchDigest_plan [OF assms(1,3)] openFirmware_Inr launch_plan_Inr [OF assms(2) True]
    by (auto 0 4)
next
  case False
  then show ?thesis by (simp add: LaunchDigest_def)
qed

definition ld_collision :: "('g, 'fw, 'v) launch_lib \<Rightarrow> gctx_op list \<Rightarrow> gctx_op list \<Rightarrow> bool" where
  "ld_collision lib p q \<longleftrightarrow> p \<noteq> q \<and>
     (\<exists>g h. run_ops lib p (GctxNew lib) = Inr g \<and> run_ops lib q (GctxNew lib) = Inr h \<and> LD lib g = LD lib h)"

lemma LaunchDigest_binds:
  assumes "guid_width (GuidBytes lib)" and "openFirmware lib (FirmwarePath cfg) = Inr fw"
    and "hashTableOffset lib fw = Inr off" and "off + 176 \<le> 4096"
    and "LaunchDigest lib (cfg\<lparr>KernelHashes := Some (NewKernelHashes k i c)\<rparr>) = Inr d"
    and "LaunchDigest lib (cfg\<lparr>KernelHashes := Some (NewKernelHashes k' i' c')\<rparr>) = Inr d"
  shows "k = k' \<and> i = i' \<and> c = c' \<or>
    collision_in sha256 [k, i, bytes_of_string c @ [0], k', i', bytes_of_string c' @ [0]] \<or>
    (\<exists>p q. launch_plan lib fw (cfg\<lparr>KernelHashes := Some (NewKernelHashes k i c)\<rparr>) = Inr p \<and>
       launch_plan lib fw (cfg\<lparr>KernelHashes := Some (NewKernelHashes k' i' c')\<rparr>) = Inr q \<and> ld_collision lib p q)"
proof -
  from assms(2,5,6) obtain p q g h where
    p: "launch_plan lib fw (cfg\<lparr>KernelHashes := Some (NewKernelHashes k i c)\<rparr>) = Inr p" "run_ops lib p (GctxNew lib) = Inr g"
    and q: "launch_plan lib fw (cfg\<lparr>KernelHashes := Some (NewKernelHashes k' i' c')\<rparr>) = Inr q" "run_ops lib q (GctxNew lib) = Inr h"
    and "LD lib g = LD lib h" by (auto simp: LaunchDigest_plan [OF assms(1)] hashes_ok_def)
  then have "p = q \<or> ld_collision lib p q" by (auto simp: ld_collision_def)
  moreover have "NewKernelHashes k i c = NewKernelHashes k' i' c'" if "p = q"
  proof -
    have "hash_page (GuidBytes lib) (NewKernelHashes k i c) off = hash_page (GuidBytes lib) (NewKernelHashes k' i' c') off"
      using launch_plan_page [OF p(1)] q(1) that assms(3) by auto
    then show ?thesis using assms(1,4) by (intro hash_page_inj) simp_all
  qed
  ultimately show ?thesis using p(1) q(1) NewKernelHashes_inj by blast
qed

text \<open>
  C15: the digest binds the boot artifacts. Two launches of one configuration that differ only in the
  kernel, the initrd and the command line, whose hash table fits in its page, have equal digests
  only if the artifacts are the same, or two of the hashed strings are a SHA-256 collision, or the
  digest context maps two different plans to one digest.
\<close>

theorem LaunchDigest_binds_kernel:
  assumes "guid_width (GuidBytes lib)" and "openFirmware lib (FirmwarePath cfg) = Inr fw"
    and "hashTableOffset lib fw = Inr off" and "off + 176 \<le> 4096"
    and "LaunchDigest lib (cfg\<lparr>KernelHashes := Some (NewKernelHashes k i c)\<rparr>) = Inr d"
    and "LaunchDigest lib (cfg\<lparr>KernelHashes := Some (NewKernelHashes k' i' c')\<rparr>) = Inr d"
  shows "k = k' \<and> i = i' \<and> c = c' \<or>
    collision_in sha256 [k, i, bytes_of_string c @ [0], k', i', bytes_of_string c' @ [0]] \<or>
    (\<exists>p q. launch_plan lib fw (cfg\<lparr>KernelHashes := Some (NewKernelHashes k i c)\<rparr>) = Inr p \<and>
       launch_plan lib fw (cfg\<lparr>KernelHashes := Some (NewKernelHashes k' i' c')\<rparr>) = Inr q \<and> ld_collision lib p q)"
  using assms by (rule LaunchDigest_binds)

lemma measure_sections_page_cong:
  assumes "\<And>off. hashTableOffset lib fw = Inr off \<Longrightarrow> kh_page (GuidBytes lib) a off = kh_page (GuidBytes lib) b off"
  shows "measure_sections lib fw (Some a) ss g saw = measure_sections lib fw (Some b) ss g saw"
proof -
  have "measure_section lib fw (Some a) s g = measure_section lib fw (Some b) s g" for s g
  proof (cases "hashTableOffset lib fw")
    case (Inr off)
    with assms show ?thesis
      by (cases "SectionType s"; cases "projr (SectionType s)") (simp_all add: measure_section_def Let_def)
  next
    case (Inl e)
    then show ?thesis by (cases "SectionType s"; cases "projr (SectionType s)") (simp_all add: measure_section_def Let_def)
  qed
  then show ?thesis by (induction ss arbitrary: g saw) simp_all
qed

text \<open>
  C39: a table that does not fit is cut off silently. When the offset the firmware names leaves fewer
  than 136 bytes of the page, the digest does not depend on the kernel at all, although kernel
  hashes were asked for.
\<close>

theorem LaunchDigest_drops_kernel:
  assumes "guid_width (GuidBytes lib)" and "openFirmware lib (FirmwarePath cfg) = Inr fw"
    and "hashTableOffset lib fw = Inr off" and "3960 \<le> off"
  shows "LaunchDigest lib (cfg\<lparr>KernelHashes := Some (NewKernelHashes k i c)\<rparr>) =
    LaunchDigest lib (cfg\<lparr>KernelHashes := Some (NewKernelHashes k' i c)\<rparr>)"
proof -
  have k': "NewKernelHashes k' i c = (NewKernelHashes k i c)\<lparr>KhKernel := sha256 k'\<rparr>" by (simp add: NewKernelHashes_def)
  have "kh_page (GuidBytes lib) (NewKernelHashes k i c) off = kh_page (GuidBytes lib) (NewKernelHashes k' i c) off"
    unfolding k' using assms(1,4) hashTableOffset_lt [OF assms(3)] by (subst kh_page_truncated) simp_all
  then have "measure_sections lib fw (Some (NewKernelHashes k i c)) ss g saw =
      measure_sections lib fw (Some (NewKernelHashes k' i c)) ss g saw" for ss g saw
    using assms(3) by (intro measure_sections_page_cong) simp
  then have "measureMetadata lib g fw (Some (NewKernelHashes k i c)) = measureMetadata lib g fw (Some (NewKernelHashes k' i c))" for g
    by (simp add: measureMetadata_def)
  then show ?thesis using assms(2) by (simp add: LaunchDigest_def vmsaPages_def)
qed

section \<open>An instance\<close>

text \<open>A context that keeps the list of updates, and a firmware with one kernel-hashes section.\<close>

definition sample_launch_lib :: "bytes \<Rightarrow> (gctx_op list, nat, nat) launch_lib" where
  "sample_launch_lib item = \<lparr>
     StatSize = (\<lambda>_. Inr 4096), OvmfNew = (\<lambda>_. Inr 0),
     MetadataItems = (\<lambda>_. [\<lparr>SecGPA = 0x800000, SecSize = 4096, SectionType = Inr SNPKernelHashes\<rparr>]),
     FwGPA = (\<lambda>_. 0xFFC00000), FwData = (\<lambda>_. [1]), HashTableItem = (\<lambda>_. Inr item), SevESResetEIP = (\<lambda>_. Inr 0xFFF0),
     GuidBytes = rev, GctxNew = [],
     UpdateNormalPages = (\<lambda>g gpa b. Inr (g @ [NormalOp gpa b])), UpdateZeroPages = (\<lambda>g gpa n. Inr (g @ [ZeroOp gpa n])),
     UpdateSecretsPage = (\<lambda>g gpa. Inr (g @ [SecretsOp gpa])), UpdateCpuidPage = (\<lambda>g gpa. Inr (g @ [CpuidOp gpa])),
     UpdateVmsaPage = (\<lambda>g p. Inr (g @ [VmsaOp p])), LD = (\<lambda>g. replicate 48 (word_of_nat (length g))),
     VmsaNew = (\<lambda>eip feats sig. Inr 0), VmsaPages = (\<lambda>v n. Inr (replicate (nat n) [2]))\<rparr>"

definition sample_config :: config where
  "sample_config = \<lparr>FirmwarePath = ''ovmf.fd'', KernelHashes = None, VCPUs = 1, VCPUSig = 0x800F12, GuestFeatures = 1\<rparr>"

lemma sample_launch_fw: "openFirmware (sample_launch_lib item) (FirmwarePath sample_config) = Inr 0"
  by (simp add: openFirmware_def sample_launch_lib_def sample_config_def)

lemma sample_launch_offset:
  "length item = 4 \<Longrightarrow> le_nat item \<noteq> 0 \<Longrightarrow> hashTableOffset (sample_launch_lib item) 0 = Inr (le_nat item mod 4096)"
  by (simp add: hashTableOffset_def sample_launch_lib_def Let_def)

lemma sample_launch_width: "guid_width (GuidBytes (sample_launch_lib item))"
  by (simp add: guid_width_def sample_launch_lib_def)

lemma sample_section_op:
  assumes "length item = 4" "le_nat item \<noteq> 0"
  shows "section_op (sample_launch_lib item) 0 (Some k)
      \<lparr>SecGPA = 0x800000, SecSize = 4096, SectionType = Inr SNPKernelHashes\<rparr> =
    Inr (NormalOp 0x800000 (hash_page rev k (le_nat item mod 4096)))"
  using assms by (simp add: section_op_def sample_launch_lib_def)

lemma sample_launch_digest:
  assumes "length item = 4" "le_nat item \<noteq> 0"
  shows "LaunchDigest (sample_launch_lib item) (sample_config\<lparr>KernelHashes := Some (NewKernelHashes k i c)\<rparr>) =
    Inr (replicate 48 3)"
proof -
  let ?lib = "sample_launch_lib item" and ?k = "NewKernelHashes k i c" and ?off = "le_nat item mod 4096"
  let ?p = "hash_page rev ?k ?off" and ?cfg = "sample_config\<lparr>KernelHashes := Some ?k\<rparr>"
  have ok: "hashes_ok (KernelHashes ?cfg)" by (simp add: hashes_ok_def)
  have "launch_plan ?lib 0 ?cfg = Inr [NormalOp 0xFFC00000 [1], NormalOp 0x800000 ?p, VmsaOp [2]]"
    using sample_section_op [OF assms, of ?k]
    by (simp add: launch_plan_def has_kernel_section_def)
      (simp add: sample_launch_lib_def sample_config_def has_kernel_section_def)
  moreover have "run_ops ?lib [NormalOp 0xFFC00000 [1], NormalOp 0x800000 ?p, VmsaOp [2]] (GctxNew ?lib) =
      Inr [NormalOp 0xFFC00000 [1], NormalOp 0x800000 ?p, VmsaOp [2]]"
    by (simp add: sample_launch_lib_def)
  ultimately show ?thesis using sample_launch_fw [of item]
    unfolding LaunchDigest_plan [OF sample_launch_width ok] by (auto simp: sample_config_def) (simp add: sample_launch_lib_def)
qed

lemma sample_launch_vmsa: "vmsa_contract (sample_launch_lib item)"
proof -
  have "replicate (nat n) x = x # replicate (nat n - 1) x" if "1 \<le> n" for n :: int and x :: bytes
    using that by (cases "nat n") auto
  then show ?thesis by (auto simp: vmsa_contract_def sample_launch_lib_def)
qed

text \<open>Three virtual CPUs: five updates, the length of which is the sample's digest.\<close>

theorem LaunchDigest_runs_plan_witness:
  "LaunchDigest (sample_launch_lib [16, 0, 1, 0])
     (sample_config\<lparr>KernelHashes := Some (NewKernelHashes [1] [] ''quiet''), VCPUs := 3\<rparr>) = Inr (replicate 48 5)"
proof -
  let ?item = "[16, 0, 1, 0 :: byte]" and ?k = "NewKernelHashes [1] [] ''quiet''"
  let ?lib = "sample_launch_lib ?item" and ?cfg = "sample_config\<lparr>KernelHashes := Some ?k, VCPUs := 3\<rparr>"
  let ?p = "NormalOp 0x800000 (hash_page rev ?k (le_nat ?item mod 4096))"
  let ?ops = "[NormalOp 0xFFC00000 [1], ?p, VmsaOp [2], VmsaOp [2], VmsaOp [2]]"
  have i: "length ?item = 4" "le_nat ?item \<noteq> 0" by (simp_all add: le_nat_def be_nat_def)
  have ok: "hashes_ok (KernelHashes ?cfg)" by (simp add: hashes_ok_def)
  have run: "run_ops ?lib ?ops (GctxNew ?lib) = Inr ?ops" and ld: "LD ?lib ?ops = replicate 48 5"
    by (simp_all add: sample_launch_lib_def)
  have three: "nat 3 - 1 = Suc (Suc 0)" "nat 3 = Suc (Suc (Suc 0))" by simp_all
  have pages: "VmsaPages ?lib 0 3 = Inr ([2] # replicate (nat 3 - 1) [2])"
    unfolding three by (simp add: sample_launch_lib_def numeral_3_eq_3)
  have secs: "list_all2 (\<lambda>s x. section_op ?lib 0 (Some ?k) s = Inr x) (MetadataItems ?lib 0) [?p]"
    using sample_section_op [OF i, of ?k] by (simp add: sample_launch_lib_def)
  have cfg: "VCPUs ?cfg = 3" "FirmwarePath ?cfg \<noteq> []" "KernelHashes ?cfg = Some ?k" by (simp_all add: sample_config_def)
  have ops: "NormalOp (ucast (FwGPA ?lib 0)) (FwData ?lib 0) # [?p] @ VmsaOp [2] # replicate (nat 3 - 1) (VmsaOp [2]) = ?ops"
    unfolding three by (simp add: sample_launch_lib_def)
  have lib: "StatSize ?lib path = Inr 4096" "OvmfNew ?lib path = Inr 0" "SevESResetEIP ?lib 0 = Inr 0xFFF0"
    "VmsaNew ?lib eip feats sig = Inr 0" for path eip feats sig
    by (simp_all add: sample_launch_lib_def)
  have meta: "MetadataItems ?lib 0 \<noteq> []" "\<exists>s\<in>set (MetadataItems ?lib 0). SectionType s = Inr SNPKernelHashes"
    by (simp_all add: sample_launch_lib_def)
  show ?thesis
  proof (subst LaunchDigest_runs_plan [OF sample_launch_width sample_launch_vmsa ok], unfold cfg, intro conjI)
    show "\<exists>size fw sections eip v bsp ap g.
        FirmwarePath ?cfg \<noteq> [] \<and> StatSize ?lib (FirmwarePath ?cfg) = Inr size \<and> size \<noteq> 0 \<and> size mod 4096 = 0 \<and>
        OvmfNew ?lib (FirmwarePath ?cfg) = Inr fw \<and> MetadataItems ?lib fw \<noteq> [] \<and>
        list_all2 (\<lambda>s x. section_op ?lib fw (Some ?k) s = Inr x) (MetadataItems ?lib fw) sections \<and>
        (Some ?k \<noteq> None \<longrightarrow> (\<exists>s\<in>set (MetadataItems ?lib fw). SectionType s = Inr SNPKernelHashes)) \<and>
        SevESResetEIP ?lib fw = Inr eip \<and> VmsaNew ?lib eip (GuestFeatures ?cfg) (ucast (VCPUSig ?cfg)) = Inr v \<and>
        VmsaPages ?lib v 3 = Inr (bsp # replicate (nat 3 - 1) ap) \<and>
        run_ops ?lib
          (NormalOp (ucast (FwGPA ?lib fw)) (FwData ?lib fw) # sections @
           VmsaOp bsp # replicate (nat 3 - 1) (VmsaOp ap)) (GctxNew ?lib) = Inr g \<and>
        LD ?lib g = replicate 48 5"
      by (rule exI [of _ 4096], rule exI [of _ 0], rule exI [of _ "[?p]"], rule exI [of _ "0xFFF0"], rule exI [of _ 0],
          rule exI [of _ "[2]"], rule exI [of _ "[2]"], rule exI [of _ ?ops], unfold ops lib run ld,
          intro conjI impI pages secs cfg(2) meta) simp_all
  qed simp_all
qed

theorem LaunchDigest_binds_kernel_witness:
  "LaunchDigest (sample_launch_lib [16, 0, 1, 0]) (sample_config\<lparr>KernelHashes := Some (NewKernelHashes [1] [] ''quiet'')\<rparr>) =
     Inr (replicate 48 3) \<and>
   ([1] = [1 :: byte] \<and> [] = ([] :: bytes) \<and> ''quiet'' = ''quiet'' \<or>
    collision_in sha256 [[1], [], bytes_of_string ''quiet'' @ [0], [1], [], bytes_of_string ''quiet'' @ [0]] \<or>
    (\<exists>p q. ld_collision (sample_launch_lib [16, 0, 1, 0]) p q))"
proof -
  have i: "length [16, 0, 1, 0 :: byte] = 4" "le_nat [16, 0, 1, 0] \<noteq> 0" "le_nat [16, 0, 1, 0] mod 4096 + 176 \<le> 4096"
    by (simp_all add: le_nat_def be_nat_def)
  note d = sample_launch_digest [OF i(1,2), of "[1]" "[]" "''quiet''"]
  from LaunchDigest_binds_kernel [OF sample_launch_width sample_launch_fw sample_launch_offset [OF i(1,2)] i(3) d d] d
  show ?thesis by blast
qed

theorem LaunchDigest_drops_kernel_witness:
  "LaunchDigest (sample_launch_lib [0x80, 0xF, 1, 0]) (sample_config\<lparr>KernelHashes := Some (NewKernelHashes [1] [] [])\<rparr>) =
   LaunchDigest (sample_launch_lib [0x80, 0xF, 1, 0]) (sample_config\<lparr>KernelHashes := Some (NewKernelHashes [2] [] [])\<rparr>)"
proof -
  have i: "length [0x80, 0xF, 1, 0 :: byte] = 4" "le_nat [0x80, 0xF, 1, 0] \<noteq> 0" "3960 \<le> le_nat [0x80, 0xF, 1, 0] mod 4096"
    by (simp_all add: le_nat_def be_nat_def)
  from LaunchDigest_drops_kernel [OF sample_launch_width sample_launch_fw sample_launch_offset [OF i(1,2)] i(3)]
  show ?thesis by blast
qed

end
