(* ===== verification/Manifest.thy ===== *)
theory Manifest
  imports Identity StrictJson
begin

text \<open>
  Build manifests: \<open>runtimemeasure/manifest.go\<close>, \<open>manifest_snp.go\<close>, \<open>manifest_platform.go\<close> and
  \<open>refvalues/manifest.go\<close>.

  The file system and \<open>encoding/json\<close> are the fields of \<open>manifest_env\<close>: the decoders of the three
  JSON subsets, and the token stream that the duplicate-key walk reads. An absent field is the zero
  value of its Go type.
\<close>

section \<open>Loading\<close>

record tdx_measurements =
  MfMRTD :: string
  MfRTMR1 :: string
  MfRTMR2 :: string

record image_manifest =
  MfFlat :: tdx_measurements
  MfTDX :: "tdx_measurements option"

record snp_variant =
  VarSMP :: int
  VarDigest :: string
  VarAlgorithm :: string

record manifest_header =
  HdrVersion :: int
  HdrPlatform :: string

record manifest_env =
  ReadManifest :: "string \<Rightarrow> err + bytes"
  UnmarshalImageManifest :: "bytes \<Rightarrow> err + image_manifest"
  UnmarshalSnpManifest :: "bytes \<Rightarrow> err + snp_variant list"
  UnmarshalHeader :: "bytes \<Rightarrow> err + manifest_header"
  ManifestTokens :: "bytes \<Rightarrow> token list"

abbreviation (input) manifestSchemaVersion :: int where "manifestSchemaVersion \<equiv> 3"

definition mf_decodeRegister :: "string \<Rightarrow> err + bytes" where
  "mf_decodeRegister s = ParseDigest s (int Size)"

definition register_names :: "string list" where
  "register_names = [''mrtd'', ''rtmr1'', ''rtmr2'']"

text \<open>One field of the tuple: present, and a register.\<close>

definition manifest_register :: "string \<Rightarrow> err + bytes" where
  "manifest_register h =
     (if h = [] then Inl (Errorf ''missing register'')
      else wrap_err (Errorf ''image manifest'') (mf_decodeRegister h))"

definition loadTDXImageManifest :: "manifest_env \<Rightarrow> string \<Rightarrow> err + tdx_pins" where
  "loadTDXImageManifest env path =
     bindr (wrap_err (Errorf ''read image manifest'') (ReadManifest env path)) (\<lambda>data.
     bindr (wrap_err (Errorf ''not a JSON object'') (UnmarshalImageManifest env data)) (\<lambda>m.
     bindr (wrap_err (Errorf ''image manifest'') (RejectDuplicateKeys (ManifestTokens env data))) (\<lambda>keys.
     bindr
       (case MfTDX m of
          None \<Rightarrow> Inr (MfFlat m)
        | Some nested \<Rightarrow>
            (if list_ex (\<lambda>k. list_ex (\<lambda>reg. equal_fold k reg) register_names) keys
             then Inl (Errorf ''named both at the top level and under tdx'') else Inr nested)) (\<lambda>c.
     bindr (manifest_register (MfMRTD c)) (\<lambda>mrtd.
     bindr (manifest_register (MfRTMR1 c)) (\<lambda>rtmr1.
     bindr (manifest_register (MfRTMR2 c)) (\<lambda>rtmr2.
     Inr \<lparr>PinMRTD = mrtd, PinRTMR1 = rtmr1, PinRTMR2 = rtmr2\<rparr>)))))))"

text \<open>The loop over the variants of a SEV-SNP manifest; \<open>smps\<close> is the map built so far.\<close>

fun snp_variants_loop :: "snp_variant list \<Rightarrow> pins \<Rightarrow> err + pins" where
  "snp_variants_loop [] smps = Inr smps"
| "snp_variants_loop (v # vs) smps =
     (if VarSMP v \<le> 0 then Inl (Errorf ''smp is not positive'')
      else if map_of smps (VarSMP v) \<noteq> None then Inl (Errorf ''duplicate smp'')
      else if VarAlgorithm v \<noteq> ''sha384'' then Inl (Errorf ''algorithm'')
      else if VarDigest v = [] then Inl (Errorf ''no snp_launch_digest'')
      else bindr (wrap_err (Errorf ''snp_launch_digest'') (mf_decodeRegister (VarDigest v))) (\<lambda>digest.
        snp_variants_loop vs ((VarSMP v, digest) # smps)))"

definition loadSNPImageManifest :: "manifest_env \<Rightarrow> string \<Rightarrow> err + snp_pins" where
  "loadSNPImageManifest env path =
     bindr (wrap_err (Errorf ''read image manifest'') (ReadManifest env path)) (\<lambda>data.
     bindr (wrap_err (Errorf ''not a JSON object'') (UnmarshalSnpManifest env data)) (\<lambda>variants.
     bindr (wrap_err (Errorf ''image manifest'') (RejectDuplicateKeys (ManifestTokens env data))) (\<lambda>_.
     if variants = [] then Inl (Errorf ''no snp_variants'')
     else bindr (snp_variants_loop variants []) (\<lambda>smps. Inr \<lparr>BySMP = smps, Observed = False\<rparr>))))"

definition ManifestFamilies :: "manifest_env \<Rightarrow> string \<Rightarrow> err + family list" where
  "ManifestFamilies env path =
     bindr (wrap_err (Errorf ''read image manifest'') (ReadManifest env path)) (\<lambda>data.
     bindr (wrap_err (Errorf ''not a JSON object'') (UnmarshalHeader env data)) (\<lambda>h.
     if HdrVersion h \<noteq> manifestSchemaVersion then Inl (Errorf ''schema version'')
     else if HdrPlatform h = ''multi'' then Inr [FamilyTDX, FamilySNP]
     else bindr (wrap_err (Errorf ''image manifest'') (ParseFamily (HdrPlatform h))) (\<lambda>fam. Inr [fam])))"

definition LoadImageManifest :: "manifest_env \<Rightarrow> string \<Rightarrow> err + image_identity_value" where
  "LoadImageManifest env path =
     (case loadTDXImageManifest env path of
        Inr pins \<Rightarrow> Inr (TdxImagePins pins)
      | Inl tdxErr \<Rightarrow>
          (case loadSNPImageManifest env path of
             Inl snpErr \<Rightarrow> Inl tdxErr
           | Inr snpPins \<Rightarrow> Inr (SnpImagePins snpPins)))"

definition LoadImageManifestFor :: "manifest_env \<Rightarrow> string \<Rightarrow> family \<Rightarrow> err + image_identity_value" where
  "LoadImageManifestFor env path f =
     (case f of
        FamilySNP \<Rightarrow> bindr (loadSNPImageManifest env path) (\<lambda>p. Inr (SnpImagePins p))
      | FamilyTDX \<Rightarrow> bindr (loadTDXImageManifest env path) (\<lambda>p. Inr (TdxImagePins p))
      | FamilyUnknown \<Rightarrow> Inl (Errorf ''tee family has no manifest shape''))"

text \<open>The methods of the interface, and the image pins of a manifest.\<close>

fun identity_LaunchDigests :: "image_identity_value \<Rightarrow> launch_variant list" where
  "identity_LaunchDigests (TdxImagePins p) = tdx_LaunchDigests p"
| "identity_LaunchDigests (SnpImagePins p) = snp_LaunchDigests p"

fun identity_RTMRs :: "image_identity_value \<Rightarrow> pins" where
  "identity_RTMRs (TdxImagePins p) = tdx_RTMRs p"
| "identity_RTMRs (SnpImagePins p) = []"

definition FromImageManifest :: "manifest_env \<Rightarrow> string \<Rightarrow> string \<Rightarrow> family \<Rightarrow> err + image_pin list" where
  "FromImageManifest env path name fam =
     bindr (LoadImageManifestFor env path fam) (\<lambda>ident.
     Inr (identity_images name (identity_LaunchDigests ident) (identity_RTMRs ident)))"

section \<open>What a loaded pin says\<close>

lemma manifest_register_Inr [simp]: "manifest_register h = Inr b \<longleftrightarrow> length b = 48 \<and> h = hex_encode b"
  by (auto simp: manifest_register_def mf_decodeRegister_def)

text \<open>The tuple a TDX manifest states: the nested one, provided nothing at the top level could be read as one.\<close>

definition tdx_stated :: "image_manifest \<Rightarrow> string list \<Rightarrow> tdx_measurements \<Rightarrow> bool" where
  "tdx_stated m keys c \<longleftrightarrow>
     (case MfTDX m of
        None \<Rightarrow> c = MfFlat m
      | Some nested \<Rightarrow> c = nested \<and> fold_key ` set keys \<inter> fold_key ` set register_names = {})"

definition tdx_encoded :: "tdx_pins \<Rightarrow> tdx_measurements" where
  "tdx_encoded p = \<lparr>MfMRTD = hex_encode (PinMRTD p), MfRTMR1 = hex_encode (PinRTMR1 p), MfRTMR2 = hex_encode (PinRTMR2 p)\<rparr>"

definition tdx_width :: "tdx_pins \<Rightarrow> bool" where
  "tdx_width p \<longleftrightarrow> length (PinMRTD p) = 48 \<and> length (PinRTMR1 p) = 48 \<and> length (PinRTMR2 p) = 48"

lemma loadTDX_Inr:
  "loadTDXImageManifest env path = Inr p \<longleftrightarrow>
     (\<exists>data m keys. ReadManifest env path = Inr data \<and> UnmarshalImageManifest env data = Inr m \<and>
        RejectDuplicateKeys (ManifestTokens env data) = Inr keys \<and> tdx_stated m keys (tdx_encoded p) \<and> tdx_width p)"
proof -
  have clash: "\<not> list_ex (\<lambda>k. list_ex (\<lambda>reg. equal_fold k reg) register_names) keys \<longleftrightarrow>
      fold_key ` set keys \<inter> fold_key ` set register_names = {}" for keys
    unfolding list_ex_iff equal_fold_def by blast
  have choose: "(case MfTDX m of None \<Rightarrow> Inr (MfFlat m)
        | Some nested \<Rightarrow> (if list_ex (\<lambda>k. list_ex (\<lambda>reg. equal_fold k reg) register_names) keys
             then Inl (Errorf ''named both at the top level and under tdx'') else Inr nested)) = Inr c \<longleftrightarrow>
      tdx_stated m keys c" for m keys c
    using clash [of keys] by (auto simp: tdx_stated_def split: option.splits)
  have enc: "c = tdx_encoded q \<longleftrightarrow> MfMRTD c = hex_encode (PinMRTD q) \<and> MfRTMR1 c = hex_encode (PinRTMR1 q) \<and>
      MfRTMR2 c = hex_encode (PinRTMR2 q)" for c q
    by (cases c) (simp add: tdx_encoded_def)
  show ?thesis
  proof
    assume "loadTDXImageManifest env path = Inr p"
    then obtain data m keys c mrtd r1 r2 where "ReadManifest env path = Inr data" "UnmarshalImageManifest env data = Inr m"
      "RejectDuplicateKeys (ManifestTokens env data) = Inr keys" "tdx_stated m keys c"
      "manifest_register (MfMRTD c) = Inr mrtd" "manifest_register (MfRTMR1 c) = Inr r1"
      "manifest_register (MfRTMR2 c) = Inr r2" "p = \<lparr>PinMRTD = mrtd, PinRTMR1 = r1, PinRTMR2 = r2\<rparr>"
      unfolding loadTDXImageManifest_def bindr_eq_Inr wrap_err_eq_Inr choose by auto
    moreover from this have "c = tdx_encoded p" "tdx_width p" by (simp_all add: enc tdx_width_def)
    ultimately show "\<exists>data m keys. ReadManifest env path = Inr data \<and> UnmarshalImageManifest env data = Inr m \<and>
        RejectDuplicateKeys (ManifestTokens env data) = Inr keys \<and> tdx_stated m keys (tdx_encoded p) \<and> tdx_width p"
      by blast
  next
    assume "\<exists>data m keys. ReadManifest env path = Inr data \<and> UnmarshalImageManifest env data = Inr m \<and>
        RejectDuplicateKeys (ManifestTokens env data) = Inr keys \<and> tdx_stated m keys (tdx_encoded p) \<and> tdx_width p"
    then obtain data m keys where r: "ReadManifest env path = Inr data" "UnmarshalImageManifest env data = Inr m"
      "RejectDuplicateKeys (ManifestTokens env data) = Inr keys" and s: "tdx_stated m keys (tdx_encoded p)" "tdx_width p"
      by blast
    from s(2) have "manifest_register (MfMRTD (tdx_encoded p)) = Inr (PinMRTD p)"
      "manifest_register (MfRTMR1 (tdx_encoded p)) = Inr (PinRTMR1 p)"
      "manifest_register (MfRTMR2 (tdx_encoded p)) = Inr (PinRTMR2 p)" by (simp_all add: tdx_encoded_def tdx_width_def)
    with r s(1) [folded choose] show "loadTDXImageManifest env path = Inr p"
      unfolding loadTDXImageManifest_def by (simp del: manifest_register_Inr)
  qed
qed

text \<open>The variants a SEV-SNP manifest states, in file order.\<close>

definition variant_ok :: "snp_variant \<Rightarrow> int \<times> bytes \<Rightarrow> bool" where
  "variant_ok v e \<longleftrightarrow> 0 < VarSMP v \<and> VarAlgorithm v = ''sha384'' \<and> fst e = VarSMP v \<and> length (snd e) = 48 \<and>
     VarDigest v = hex_encode (snd e)"

definition snp_stated :: "snp_variant list \<Rightarrow> pins \<Rightarrow> bool" where
  "snp_stated vs smps \<longleftrightarrow> list_all2 variant_ok vs smps \<and> distinct (map fst smps)"

lemma snp_stated_Cons:
  "snp_stated (v # vs) smps \<longleftrightarrow>
     (\<exists>e zs. smps = e # zs \<and> variant_ok v e \<and> snp_stated vs zs \<and> fst e \<notin> fst ` set zs)"
  by (auto simp: snp_stated_def list_all2_Cons1)

lemma snp_variants_loop_Inr:
  "snp_variants_loop vs acc = Inr out \<longleftrightarrow>
     (\<exists>smps. snp_stated vs smps \<and> fst ` set smps \<inter> fst ` set acc = {} \<and> out = rev smps @ acc)"
proof (induction vs arbitrary: acc)
  case (Cons v vs)
  have fresh: "map_of acc k = None \<longleftrightarrow> k \<notin> fst ` set acc" for k by (simp add: map_of_eq_None_iff)
  have "snp_variants_loop (v # vs) acc = Inr out \<longleftrightarrow>
      (\<exists>e. variant_ok v e \<and> fst e \<notin> fst ` set acc \<and> snp_variants_loop vs (e # acc) = Inr out)"
    by (auto simp: mf_decodeRegister_def fresh variant_ok_def dest!: sym [of "[]"])
  also have "\<dots> \<longleftrightarrow> (\<exists>e zs. variant_ok v e \<and> fst e \<notin> fst ` set acc \<and> snp_stated vs zs \<and>
      fst ` set zs \<inter> fst ` set (e # acc) = {} \<and> out = rev zs @ e # acc)"
    unfolding Cons.IH by blast
  also have "\<dots> \<longleftrightarrow> (\<exists>e zs. variant_ok v e \<and> snp_stated vs zs \<and> fst e \<notin> fst ` set zs \<and>
      fst ` set (e # zs) \<inter> fst ` set acc = {} \<and> out = rev (e # zs) @ acc)"
    by (simp, blast)
  also have "\<dots> \<longleftrightarrow> (\<exists>smps. snp_stated (v # vs) smps \<and> fst ` set smps \<inter> fst ` set acc = {} \<and> out = rev smps @ acc)"
    unfolding snp_stated_Cons by blast
  finally show ?case .
qed (auto simp: snp_stated_def)

lemma loadSNP_Inr:
  "loadSNPImageManifest env path = Inr p \<longleftrightarrow>
     (\<exists>data vs keys smps. ReadManifest env path = Inr data \<and> UnmarshalSnpManifest env data = Inr vs \<and>
        RejectDuplicateKeys (ManifestTokens env data) = Inr keys \<and> vs \<noteq> [] \<and> snp_stated vs smps \<and>
        p = \<lparr>BySMP = rev smps, Observed = False\<rparr>)"
  by (auto simp: loadSNPImageManifest_def snp_variants_loop_Inr)

lemma snp_stated_pins: "snp_stated vs smps \<Longrightarrow> vs \<noteq> [] \<Longrightarrow> snp_pins_ok \<lparr>BySMP = rev smps, Observed = b\<rparr>"
  by (cases vs) (auto simp: snp_stated_def snp_pins_ok_def list_all2_Cons1)

section \<open>Properties\<close>

text \<open>
  A TDX pin is loaded whole. The loader returns a tuple exactly when the file is read and decoded,
  names no key twice, and states all three registers in one form, nested or flat, each as 96 lower
  case hex digits; the tuple is then the one stated. A nested tuple next to a top-level key that
  folds to a register name is refused.
\<close>

lemma loadTDX_whole:
  "loadTDXImageManifest env path = Inr p \<longleftrightarrow>
     (\<exists>data m keys. ReadManifest env path = Inr data \<and> UnmarshalImageManifest env data = Inr m \<and>
        RejectDuplicateKeys (ManifestTokens env data) = Inr keys \<and> tdx_stated m keys (tdx_encoded p) \<and> tdx_width p)"
  by (rule loadTDX_Inr)

text \<open>
  A SEV-SNP pin set is loaded whole: at least one variant, each with its own positive vCPU
  count, algorithm sha384 and a 96-digit launch digest, and the set is what they state.
\<close>

lemma loadSNP_whole:
  "loadSNPImageManifest env path = Inr p \<longleftrightarrow>
     (\<exists>data vs keys smps. ReadManifest env path = Inr data \<and> UnmarshalSnpManifest env data = Inr vs \<and>
        RejectDuplicateKeys (ManifestTokens env data) = Inr keys \<and> vs \<noteq> [] \<and> snp_stated vs smps \<and>
        p = \<lparr>BySMP = rev smps, Observed = False\<rparr>)"
  by (rule loadSNP_Inr)

text \<open>
  C22: from the manifest to the policy. The image pins derived from a manifest for a family enforce
  exactly the identity the manifest states: a signature-verified response of that family passes
  them, whatever boot log it comes with, if and only if the loaded identity verifies its result.
  There is at least one pin.
\<close>

theorem manifest_pins_enforced:
  assumes "FromImageManifest env path name fam = Inr imgs"
  shows "imgs \<noteq> [] \<and> (\<exists>ident. LoadImageManifestFor env path fam = Inr ident \<and>
    (\<forall>resp claimed. SignatureValid (RespResult resp) \<and> Family (ResPlatform (RespResult resp)) = fam \<longrightarrow>
       (EnforceImagesWithRuntimeLog resp imgs (ResPlatform (RespResult resp)) claimed = Inr () \<longleftrightarrow>
        identity_Verify ident (Some (RespResult resp)) = Inr ())))"
proof -
  from assms obtain ident where l: "LoadImageManifestFor env path fam = Inr ident"
    and imgs: "imgs = identity_images name (identity_LaunchDigests ident) (identity_RTMRs ident)"
    by (auto simp: FromImageManifest_def)
  have "imgs \<noteq> [] \<and> (\<forall>resp claimed. SignatureValid (RespResult resp) \<and> Family (ResPlatform (RespResult resp)) = fam \<longrightarrow>
       (EnforceImagesWithRuntimeLog resp imgs (ResPlatform (RespResult resp)) claimed = Inr () \<longleftrightarrow>
        identity_Verify ident (Some (RespResult resp)) = Inr ()))"
  proof (cases fam)
    case FamilyTDX
    with l obtain p where "ident = TdxImagePins p" by (auto simp: LoadImageManifestFor_def)
    with imgs FamilyTDX tdx_images_accept show ?thesis by (simp add: identity_images_def tdx_LaunchDigests_def)
  next
    case FamilySNP
    with l obtain p where p: "ident = SnpImagePins p" "loadSNPImageManifest env path = Inr p"
      by (auto simp: LoadImageManifestFor_def)
    then have "snp_pins_ok p" using snp_stated_pins by (auto simp: loadSNP_Inr)
    with imgs p FamilySNP snp_images_accept snp_identity.LaunchDigests_some show ?thesis
      by (simp add: identity_images_def)
  next
    case FamilyUnknown
    with l show ?thesis by (simp add: LoadImageManifestFor_def)
  qed
  with l show ?thesis by blast
qed

text \<open>A multi build: a nested tuple and two variants.\<close>

definition sample_manifest_env :: manifest_env where
  "sample_manifest_env = \<lparr>ReadManifest = (\<lambda>path. Inr [1]),
     UnmarshalImageManifest = (\<lambda>_. Inr \<lparr>MfFlat = \<lparr>MfMRTD = [], MfRTMR1 = [], MfRTMR2 = []\<rparr>,
       MfTDX = Some (tdx_encoded \<lparr>PinMRTD = replicate 48 7, PinRTMR1 = replicate 48 1, PinRTMR2 = replicate 48 2\<rparr>)\<rparr>),
     UnmarshalSnpManifest = (\<lambda>_. Inr [\<lparr>VarSMP = 2, VarDigest = hex_encode (replicate 48 9), VarAlgorithm = ''sha384''\<rparr>,
       \<lparr>VarSMP = 4, VarDigest = hex_encode (replicate 48 7), VarAlgorithm = ''sha384''\<rparr>]),
     UnmarshalHeader = (\<lambda>_. Inr \<lparr>HdrVersion = 3, HdrPlatform = ''multi''\<rparr>),
     ManifestTokens = (\<lambda>_. [Delim CHR ''{'', StrTok ''tdx'', Delim CHR ''{'', Delim CHR ''}'', Delim CHR ''}''])\<rparr>"

lemma sample_manifest_loads:
  "LoadImageManifest sample_manifest_env p = Inr (TdxImagePins \<lparr>PinMRTD = replicate 48 7, PinRTMR1 = replicate 48 1,
     PinRTMR2 = replicate 48 2\<rparr>)"
  "LoadImageManifestFor sample_manifest_env p FamilySNP = Inr (SnpImagePins \<lparr>BySMP = [(4, replicate 48 7), (2, replicate 48 9)],
     Observed = False\<rparr>)"
proof -
  have t: "RejectDuplicateKeys [Delim CHR ''{'', StrTok ''tdx'', Delim CHR ''{'', Delim CHR ''}'', Delim CHR ''}''] = Inr [''tdx'']"
    by code_simp
  have "fold_key ` set [''tdx''] \<inter> fold_key ` set register_names = {}"
    by (simp add: register_names_def fold_key_ascii simple_fold_def)
  then have "loadTDXImageManifest sample_manifest_env p = Inr \<lparr>PinMRTD = replicate 48 7, PinRTMR1 = replicate 48 1,
     PinRTMR2 = replicate 48 2\<rparr>"
    using t by (simp add: loadTDX_Inr sample_manifest_env_def tdx_stated_def tdx_width_def)
  then show "LoadImageManifest sample_manifest_env p = Inr (TdxImagePins \<lparr>PinMRTD = replicate 48 7,
     PinRTMR1 = replicate 48 1, PinRTMR2 = replicate 48 2\<rparr>)" by (simp add: LoadImageManifest_def)
  have "loadSNPImageManifest sample_manifest_env p = Inr \<lparr>BySMP = rev [(2, replicate 48 9), (4, replicate 48 7)], Observed = False\<rparr>"
    unfolding loadSNP_Inr
    by (intro exI [of _ "[(2, replicate 48 9), (4, replicate 48 7)]"] exI [of _ "[''tdx'']"] exI [of _ "[1]"] exI)
      (use t in \<open>auto simp: sample_manifest_env_def snp_stated_def variant_ok_def\<close>)
  then show "LoadImageManifestFor sample_manifest_env p FamilySNP = Inr (SnpImagePins
     \<lparr>BySMP = [(4, replicate 48 7), (2, replicate 48 9)], Observed = False\<rparr>)"
    by (simp add: LoadImageManifestFor_def)
qed

lemma sample_manifest_verifies:
  "identity_Verify (SnpImagePins \<lparr>BySMP = [(4, replicate 48 7), (2, replicate 48 9)], Observed = False\<rparr>)
     (Some (sample_result PlatformAzSNP)) = Inr ()"
  by (simp add: snp_Verify_Inr exI [of _ 4])

theorem manifest_pins_enforced_witness:
  "\<exists>imgs. FromImageManifest sample_manifest_env ''m.json'' ''node'' FamilySNP = Inr imgs \<and> imgs \<noteq> [] \<and>
     EnforceImagesWithRuntimeLog \<lparr>RespResult = sample_result PlatformAzSNP, RespToken = None\<rparr> imgs PlatformAzSNP [] = Inr ()"
proof -
  let ?resp = "\<lparr>RespResult = sample_result PlatformAzSNP, RespToken = None\<rparr>"
  obtain imgs where i: "FromImageManifest sample_manifest_env ''m.json'' ''node'' FamilySNP = Inr imgs"
    using sample_manifest_loads(2) by (simp add: FromImageManifest_def)
  from manifest_pins_enforced [OF i] obtain ident where ne: "imgs \<noteq> []"
    and l: "LoadImageManifestFor sample_manifest_env ''m.json'' FamilySNP = Inr ident"
    and e: "\<And>resp claimed. SignatureValid (RespResult resp) \<and> Family (ResPlatform (RespResult resp)) = FamilySNP \<Longrightarrow>
       (EnforceImagesWithRuntimeLog resp imgs (ResPlatform (RespResult resp)) claimed = Inr () \<longleftrightarrow>
        identity_Verify ident (Some (RespResult resp)) = Inr ())" by blast
  from l sample_manifest_loads(2) [of "''m.json''"] have "ident = SnpImagePins \<lparr>BySMP = [(4, replicate 48 7), (2, replicate 48 9)],
      Observed = False\<rparr>" by simp
  with e [of ?resp "[]"] sample_manifest_verifies have
    "EnforceImagesWithRuntimeLog ?resp imgs (ResPlatform (RespResult ?resp)) [] = Inr ()"
    by (simp del: identity_Verify.simps)
  with i ne show ?thesis by simp
qed

end
