(* ===== verification/Client.thy ===== *)
theory Client
  imports Remote
begin

unbundle bit_operations_syntax

text \<open>
  The HTTP client of the attestation service: \<open>remote/client.go\<close>, \<open>remote/health.go\<close> and the owner
  check of \<open>remote/socketowner_unix.go\<close>.

  What a call meets is the record \<open>http_env\<close>: the file system as \<open>Lstat\<close> sees it, the user of the
  process, the exchange \<open>http.Client.Do\<close> performs once it may connect, and \<open>encoding/json\<close>. Each
  request has an environment of its own, so the socket may change between two requests.
\<close>

section \<open>Addresses and sockets\<close>

datatype transport = SocketAt string | Supplied

record http_client =
  HttpTimeout :: nat
  HttpTransport :: transport

record client =
  BaseURL :: string
  HttpClient :: http_client

abbreviation (input) maxErrorBodyBytes :: nat where "maxErrorBodyBytes \<equiv> 8192"
abbreviation (input) maxResponseBytes :: nat where "maxResponseBytes \<equiv> 4 * MaxEvidenceFieldSize"
abbreviation (input) requestTimeout :: nat where "requestTimeout \<equiv> 60"

definition NewClientWithHTTP :: "string \<Rightarrow> http_client \<Rightarrow> client" where
  "NewClientWithHTTP baseURL h =
     (case cut_prefix ''unix://'' baseURL of
        Some socket \<Rightarrow> \<lparr>BaseURL = ''http://unix'', HttpClient = h\<lparr>HttpTransport := SocketAt socket\<rparr>\<rparr>
      | None \<Rightarrow> \<lparr>BaseURL = strip_trailing CHR ''/'' baseURL, HttpClient = h\<rparr>)"

definition NewClient :: "string \<Rightarrow> client" where
  "NewClient baseURL = NewClientWithHTTP baseURL \<lparr>HttpTimeout = requestTimeout, HttpTransport = Supplied\<rparr>"

text \<open>\<open>fs.FileMode\<close>: bit 24 marks a socket, bit 27 a symbolic link, the low nine are the permissions.\<close>

record file_info =
  FileMode :: "32 word"
  FileUid :: "(32 word) option"

abbreviation (input) ModeSocket :: "32 word" where "ModeSocket \<equiv> 0x1000000"
abbreviation (input) ModeSymlink :: "32 word" where "ModeSymlink \<equiv> 0x8000000"

definition mode_perm :: "32 word \<Rightarrow> 32 word" where
  "mode_perm m = (m AND 0x1FF)"

record http_request =
  ReqMethod :: string
  ReqURL :: string
  ReqBody :: bytes

record http_response =
  StatusCode :: int
  RespBody :: bytes

record error_response =
  ErrError :: string
  ErrMessage :: string

record http_env =
  Lstat :: "string \<Rightarrow> err + file_info"
  Getuid :: int
  NewRequest :: "string \<Rightarrow> string \<Rightarrow> err + unit"
  Exchange :: "transport \<Rightarrow> http_request \<Rightarrow> err + http_response"
  UnmarshalErrorResponse :: "bytes \<Rightarrow> err + error_response"

definition checkSocketOwner :: "int \<Rightarrow> file_info \<Rightarrow> err + unit" where
  "checkSocketOwner uid fi =
     (case FileUid fi of
        None \<Rightarrow> Inl (Errorf ''ownership cannot be read'')
      | Some u \<Rightarrow> (if u \<noteq> 0 \<and> uint u \<noteq> uid then Inl (Errorf ''socket is owned by another uid'') else Inr ()))"

text \<open>Off Unix, where ownership cannot be read, every socket is refused.\<close>

definition checkSocketOwner_other :: "file_info \<Rightarrow> err + unit" where
  "checkSocketOwner_other fi = Inl (Errorf ''ownership cannot be checked on this platform'')"

definition validateSocket :: "http_env \<Rightarrow> string \<Rightarrow> err + unit" where
  "validateSocket env path =
     (if \<not> has_prefix ''/'' path then Inl (Errorf ''socket must be an absolute path'')
      else
        bindr (wrap_err (Errorf ''stat attestation-api socket'') (Lstat env path)) (\<lambda>fi.
        if FileMode fi AND ModeSocket = 0 then Inl (Errorf ''not a socket'')
        else if mode_perm (FileMode fi) AND 2 \<noteq> 0 then Inl (Errorf ''world-writable'')
        else checkSocketOwner (Getuid env) fi))"

text \<open>A request dials: a socket transport keeps no connection, so it validates the socket every time.\<close>

definition http_do :: "http_env \<Rightarrow> http_client \<Rightarrow> http_request \<Rightarrow> err + http_response" where
  "http_do env h req =
     (case HttpTransport h of
        SocketAt socket \<Rightarrow> bindr (validateSocket env socket) (\<lambda>_. Exchange env (SocketAt socket) req)
      | Supplied \<Rightarrow> Exchange env Supplied req)"

section \<open>Calls\<close>

datatype client_error =
    RequestError err
  | APIError int error_response
  | UnexpectedError int bytes
  | OtherError err

definition doAndDecode :: "http_env \<Rightarrow> client \<Rightarrow> (bytes \<Rightarrow> err + 'a) \<Rightarrow> http_request \<Rightarrow> client_error + 'a" where
  "doAndDecode env c decode req =
     (case http_do env (HttpClient c) req of
        Inl e \<Rightarrow> Inl (RequestError e)
      | Inr resp \<Rightarrow>
          (if StatusCode resp < 200 \<or> 300 \<le> StatusCode resp then
             let body = take maxErrorBodyBytes (RespBody resp) in
             (case UnmarshalErrorResponse env body of
                Inr e \<Rightarrow> Inl (APIError (StatusCode resp) e)
              | Inl _ \<Rightarrow> Inl (UnexpectedError (StatusCode resp) body))
           else
             (case decode (take maxResponseBytes (RespBody resp)) of
                Inl e \<Rightarrow> Inl (OtherError e)
              | Inr out \<Rightarrow> Inr out)))"

definition getJSON :: "http_env \<Rightarrow> client \<Rightarrow> string \<Rightarrow> (bytes \<Rightarrow> err + 'a) \<Rightarrow> client_error + 'a" where
  "getJSON env c path decode =
     (case NewRequest env ''GET'' (BaseURL c @ path) of
        Inl e \<Rightarrow> Inl (OtherError e)
      | Inr _ \<Rightarrow> doAndDecode env c decode \<lparr>ReqMethod = ''GET'', ReqURL = BaseURL c @ path, ReqBody = []\<rparr>)"

definition postJSON ::
    "http_env \<Rightarrow> client \<Rightarrow> string \<Rightarrow> ('b \<Rightarrow> err + bytes) \<Rightarrow> 'b \<Rightarrow> (bytes \<Rightarrow> err + 'a) \<Rightarrow> client_error + 'a" where
  "postJSON env c path encode body decode =
     (case encode body of
        Inl e \<Rightarrow> Inl (OtherError (Wrap (Errorf ''marshal request'') e))
      | Inr data \<Rightarrow>
          (case NewRequest env ''POST'' (BaseURL c @ path) of
             Inl e \<Rightarrow> Inl (OtherError e)
           | Inr _ \<Rightarrow> doAndDecode env c decode \<lparr>ReqMethod = ''POST'', ReqURL = BaseURL c @ path, ReqBody = data\<rparr>))"

record attest_request =
  AttReportData :: bytes
  AttPlatform :: string

record attest_response =
  AttRespPlatform :: string
  AttRespEvidence :: bytes

record cache_stats =
  VcekEntries :: "64 word"
  ChainEntries :: "64 word"
  LastCrlRefresh :: "string option"

record health_response =
  HealthStatus :: string
  HealthPlatform :: "string option"
  HealthCache :: cache_stats
  HealthTokenIssuer :: bool

record client_json =
  DecodeHealth :: "bytes \<Rightarrow> err + health_response"
  EncodeAttest :: "attest_request \<Rightarrow> err + bytes"
  DecodeAttest :: "bytes \<Rightarrow> err + attest_response"
  EncodeVerify :: "verify_request \<Rightarrow> err + bytes"
  DecodeVerify :: "bytes \<Rightarrow> err + verify_response"

definition client_Health :: "client_json \<Rightarrow> http_env \<Rightarrow> client \<Rightarrow> client_error + health_response" where
  "client_Health js env c = getJSON env c ''/health'' (DecodeHealth js)"

definition client_Attest :: "client_json \<Rightarrow> http_env \<Rightarrow> client \<Rightarrow> attest_request \<Rightarrow> client_error + attest_response" where
  "client_Attest js env c req = postJSON env c ''/attest'' (EncodeAttest js) req (DecodeAttest js)"

definition client_Verify :: "client_json \<Rightarrow> http_env \<Rightarrow> client \<Rightarrow> verify_request \<Rightarrow> client_error + verify_response" where
  "client_Verify js env c req = postJSON env c ''/verify'' (EncodeVerify js) req (DecodeVerify js)"

text \<open>\<open>AttestResponse.Envelope\<close>.\<close>

definition attest_Envelope :: "attest_response \<Rightarrow> attestation_evidence" where
  "attest_Envelope r = \<lparr>EvPlatform = AttRespPlatform r, EvEvidence = AttRespEvidence r\<rparr>"

section \<open>Waiting for a healthy service\<close>

text \<open>
  One turn of the loop: what \<open>ctx.Err()\<close> says when it is asked, and what \<open>Health\<close> answers. The loop
  may run forever.
\<close>

record attempt =
  CtxErr :: "err option"
  HealthAnswer :: "client_error + health_response"

definition healthy :: "attempt \<Rightarrow> bool" where
  "healthy a \<longleftrightarrow> (case HealthAnswer a of Inl _ \<Rightarrow> False | Inr h \<Rightarrow> HealthStatus h = ''ok'')"

definition attempt_error :: "attempt \<Rightarrow> client_error" where
  "attempt_error a = (case HealthAnswer a of Inl e \<Rightarrow> e | Inr h \<Rightarrow> OtherError (Errorf (''health status '' @ HealthStatus h)))"

datatype wait_error = BadInterval | WaitFailed err "client_error option"

partial_function (option) wait_loop ::
    "(nat \<Rightarrow> attempt) \<Rightarrow> nat \<Rightarrow> client_error option \<Rightarrow> (wait_error + unit) option" where
  "wait_loop sched n lastErr =
     (case CtxErr (sched n) of
        Some e \<Rightarrow> Some (Inl (WaitFailed e lastErr))
      | None \<Rightarrow>
          (if healthy (sched n) then Some (Inr ())
           else wait_loop sched (Suc n) (Some (attempt_error (sched n)))))"

definition WaitHealthy :: "int \<Rightarrow> (nat \<Rightarrow> attempt) \<Rightarrow> (wait_error + unit) option" where
  "WaitHealthy interval sched =
     (if interval \<le> 0 then Some (Inl BadInterval) else wait_loop sched 0 None)"

section \<open>Lemmas\<close>

text \<open>The loop passes the turns that neither end nor succeed, and stops at the first that does.\<close>

definition passes :: "(nat \<Rightarrow> attempt) \<Rightarrow> nat \<Rightarrow> bool" where
  "passes sched i \<longleftrightarrow> CtxErr (sched i) = None \<and> \<not> healthy (sched i)"

lemma wait_loop_pass:
  "passes sched n \<Longrightarrow> wait_loop sched n e = wait_loop sched (Suc n) (Some (attempt_error (sched n)))"
  by (subst wait_loop.simps) (simp add: passes_def)

lemma wait_loop_passes:
  "(\<forall>i<k. passes sched (n + i)) \<Longrightarrow>
     \<exists>e'. wait_loop sched n e = wait_loop sched (n + k) e' \<and> (k = 0 \<longrightarrow> e' = e) \<and>
       (0 < k \<longrightarrow> e' = Some (attempt_error (sched (n + k - 1))))"
proof (induction k)
  case (Suc k)
  then obtain e' where "wait_loop sched n e = wait_loop sched (n + k) e'" by auto
  moreover have "passes sched (n + k)" using Suc.prems by auto
  ultimately show ?case using wait_loop_pass [of sched "n + k" e'] by auto
qed simp

lemma wait_loop_stop:
  "\<not> passes sched n \<Longrightarrow> wait_loop sched n e =
     (case CtxErr (sched n) of Some c \<Rightarrow> Some (Inl (WaitFailed c e)) | None \<Rightarrow> Some (Inr ()))"
  by (subst wait_loop.simps) (auto simp: passes_def split: option.splits)

lemma wait_loop_first:
  assumes "\<forall>i<k. passes sched i" and "\<not> passes sched k"
  shows "wait_loop sched 0 None =
    (case CtxErr (sched k) of
       Some c \<Rightarrow> Some (Inl (WaitFailed c (if k = 0 then None else Some (attempt_error (sched (k - 1))))))
     | None \<Rightarrow> Some (Inr ()))"
proof -
  obtain e' where "wait_loop sched 0 None = wait_loop sched k e'" "k = 0 \<longrightarrow> e' = None"
    "0 < k \<longrightarrow> e' = Some (attempt_error (sched (k - 1)))"
    using wait_loop_passes [of k sched 0 None] assms(1) by auto
  with wait_loop_stop [OF assms(2), of e'] show ?thesis by (auto split: option.splits)
qed

lemma wait_loop_returns: "wait_loop sched n e = Some r \<Longrightarrow> \<exists>k. \<not> passes sched k"
proof (rule wait_loop.raw_induct [of "\<lambda>sched n e r. \<exists>k. \<not> passes sched k"])
  fix f sched n e r
  assume IH: "\<And>s m x y. f s m x = Some y \<Longrightarrow> \<exists>k. \<not> passes s k"
    and run: "(case CtxErr (sched n) of Some c \<Rightarrow> Some (Inl (WaitFailed c e))
      | None \<Rightarrow> if healthy (sched n) then Some (Inr ()) else f sched (Suc n) (Some (attempt_error (sched n)))) = Some r"
  show "\<exists>k. \<not> passes sched k"
  proof (cases "passes sched n")
    case True
    with run have "f sched (Suc n) (Some (attempt_error (sched n))) = Some r" by (simp add: passes_def)
    then show ?thesis by (rule IH)
  qed blast
qed

lemma socket_mode: "FileMode fi AND ModeSocket = 0 \<longleftrightarrow> \<not> bit (FileMode fi) 24"
  "mode_perm (FileMode fi) AND 2 = 0 \<longleftrightarrow> \<not> bit (FileMode fi) 1"
proof -
  have "(0x1000000 :: 32 word) = 2 ^ 24" by simp
  then show "FileMode fi AND ModeSocket = 0 \<longleftrightarrow> \<not> bit (FileMode fi) 24"
    by (simp only: and_exp_eq_0_iff_not_bit)
  have "mode_perm (FileMode fi) AND 2 ^ 1 = 0 \<longleftrightarrow> \<not> bit (mode_perm (FileMode fi)) 1"
    by (rule and_exp_eq_0_iff_not_bit)
  moreover have "bit (0x1FF :: 32 word) 1" by simp
  ultimately show "mode_perm (FileMode fi) AND 2 = 0 \<longleftrightarrow> \<not> bit (FileMode fi) 1"
    by (simp add: mode_perm_def bit_and_iff)
qed

text \<open>The sockets a client trusts.\<close>

definition trusted_socket :: "http_env \<Rightarrow> string \<Rightarrow> bool" where
  "trusted_socket env path \<longleftrightarrow> has_prefix ''/'' path \<and>
     (\<exists>fi u. Lstat env path = Inr fi \<and> bit (FileMode fi) 24 \<and> \<not> bit (FileMode fi) 1 \<and>
        FileUid fi = Some u \<and> (u = 0 \<or> uint u = Getuid env))"

lemma validateSocket_Inr [simp]: "validateSocket env path = Inr r \<longleftrightarrow> trusted_socket env path"
  by (auto simp: validateSocket_def trusted_socket_def socket_mode checkSocketOwner_def split: option.splits)

lemma NewClient_socket:
  "NewClientWithHTTP (''unix://'' @ path) h = \<lparr>BaseURL = ''http://unix'', HttpClient = h\<lparr>HttpTransport := SocketAt path\<rparr>\<rparr>"
proof -
  have "cut_prefix ''unix://'' (''unix://'' @ path) = Some path" by (subst cut_prefix_eq_Some) simp
  then show ?thesis by (simp only: NewClientWithHTTP_def option.case)
qed

lemma doAndDecode_Inr:
  "doAndDecode env c decode req = Inr out \<longleftrightarrow>
     (\<exists>resp. http_do env (HttpClient c) req = Inr resp \<and> 200 \<le> StatusCode resp \<and> StatusCode resp < 300 \<and>
        decode (take maxResponseBytes (RespBody resp)) = Inr out)"
  by (auto simp: doAndDecode_def Let_def split: sum.splits)

lemma client_Verify_Inr:
  "client_Verify js env c req = Inr out \<longleftrightarrow>
     (\<exists>body resp. EncodeVerify js req = Inr body \<and> NewRequest env ''POST'' (BaseURL c @ ''/verify'') = Inr () \<and>
        http_do env (HttpClient c) \<lparr>ReqMethod = ''POST'', ReqURL = BaseURL c @ ''/verify'', ReqBody = body\<rparr> = Inr resp \<and>
        200 \<le> StatusCode resp \<and> StatusCode resp < 300 \<and> DecodeVerify js (take maxResponseBytes (RespBody resp)) = Inr out)"
  by (auto simp: client_Verify_def postJSON_def doAndDecode_Inr split: sum.splits)

text \<open>The client as the service of \<open>VerifyEvidence\<close>.\<close>

definition client_service :: "client_json \<Rightarrow> http_env \<Rightarrow> client \<Rightarrow> verify_request \<Rightarrow> err + verify_response" where
  "client_service js env c req =
     (case client_Verify js env c req of Inl e \<Rightarrow> Inl (Errorf ''attestation-api'') | Inr resp \<Rightarrow> Inr resp)"

lemma client_service_Inr: "client_service js env c req = Inr resp \<longleftrightarrow> client_Verify js env c req = Inr resp"
  by (cases "client_Verify js env c req") (simp_all add: client_service_def)

section \<open>Properties\<close>

text \<open>
  C24: waiting for the service. With a positive interval the wait ends at the first turn at which the
  context is done or the service answers \<open>ok\<close>, asked in this order: it succeeds in the second case,
  and otherwise fails with the context's error and the last health error seen. It never returns
  exactly when no such turn comes.
\<close>

theorem WaitHealthy_exact:
  "WaitHealthy interval sched =
     (if interval \<le> 0 then Some (Inl BadInterval)
      else if \<forall>k. passes sched k then None
      else
        let k = LEAST k. \<not> passes sched k in
        case CtxErr (sched k) of
          Some c \<Rightarrow> Some (Inl (WaitFailed c (if k = 0 then None else Some (attempt_error (sched (k - 1))))))
        | None \<Rightarrow> Some (Inr ()))"
proof (cases "\<forall>k. passes sched k")
  case True
  then have "wait_loop sched 0 None = None" using wait_loop_returns [of sched 0 None] by (cases "wait_loop sched 0 None") auto
  with True show ?thesis by (simp add: WaitHealthy_def)
next
  case False
  let ?k = "LEAST k. \<not> passes sched k"
  from False have "\<exists>k. \<not> passes sched k" by blast
  then have "\<not> passes sched ?k" by (rule LeastI_ex)
  moreover have "\<forall>i<?k. passes sched i" by (blast dest: not_less_Least)
  ultimately have "wait_loop sched 0 None =
    (case CtxErr (sched ?k) of
       Some c \<Rightarrow> Some (Inl (WaitFailed c (if ?k = 0 then None else Some (attempt_error (sched (?k - 1))))))
     | None \<Rightarrow> Some (Inr ()))" by (intro wait_loop_first)
  then show ?thesis unfolding WaitHealthy_def Let_def if_not_P [OF False] by (rule arg_cong)
qed

text \<open>
  C23: a verdict over a socket comes from a trusted one. When \<open>VerifyEvidence\<close> accepts through a client
  built for a unix:// address, with whatever HTTP client, then at that request the path was absolute
  and named a socket itself (not a link to one) that is not world-writable and belongs to root or to
  this process; the reply was a success received over that socket, and its verdict is the one
  returned, with a valid signature.
\<close>

theorem socket_verdict_trusted:
  assumes "VerifyEvidenceWithRuntimeLog quote_of (client_service js env (NewClientWithHTTP (''unix://'' @ path) h)) ev pol claimed
    = Inr resp"
  shows "trusted_socket env path \<and> SignatureValid (RespResult resp) \<and>
    (\<exists>req reply. Exchange env (SocketAt path) req = Inr reply \<and> 200 \<le> StatusCode reply \<and> StatusCode reply < 300 \<and>
       DecodeVerify js (take maxResponseBytes (RespBody reply)) = Inr resp)"
proof -
  let ?c = "NewClientWithHTTP (''unix://'' @ path) h"
  from assms have s: "client_service js env ?c (NewVerifyRequestNoToken ev (Some (policy_params pol))) = Inr resp"
    and sig: "SignatureValid (RespResult resp)" unfolding VerifyEvidenceWithRuntimeLog_Inr by blast+
  from s have "client_Verify js env ?c (NewVerifyRequestNoToken ev (Some (policy_params pol))) = Inr resp"
    unfolding client_service_Inr .
  then obtain body reply where r: "http_do env (HttpClient ?c) \<lparr>ReqMethod = ''POST'', ReqURL = BaseURL ?c @ ''/verify'', ReqBody = body\<rparr>
      = Inr reply" and ok: "200 \<le> StatusCode reply" "StatusCode reply < 300"
    "DecodeVerify js (take maxResponseBytes (RespBody reply)) = Inr resp"
    unfolding client_Verify_Inr by (elim exE conjE) (rule that; assumption)
  from r obtain req where "trusted_socket env path" "Exchange env (SocketAt path) req = Inr reply"
    unfolding NewClient_socket by (auto simp: http_do_def)
  with sig ok show ?thesis by (intro conjI exI) assumption+
qed

definition sample_http_env :: http_env where
  "sample_http_env = \<lparr>Lstat = (\<lambda>p. Inr \<lparr>FileMode = 0x10001B0, FileUid = Some 0\<rparr>), Getuid = 1000,
     NewRequest = (\<lambda>m u. Inr ()), Exchange = (\<lambda>t r. Inr \<lparr>StatusCode = 200, RespBody = [1]\<rparr>),
     UnmarshalErrorResponse = (\<lambda>b. Inl (Errorf ''no error''))\<rparr>"

definition sample_client_json :: client_json where
  "sample_client_json = \<lparr>DecodeHealth = (\<lambda>b. Inl (Errorf ''no health'')), EncodeAttest = (\<lambda>r. Inr []),
     DecodeAttest = (\<lambda>b. Inl (Errorf ''no evidence'')), EncodeVerify = (\<lambda>r. Inr [2]),
     DecodeVerify = (\<lambda>b. Inr \<lparr>RespResult = zero_result\<lparr>SignatureValid := True\<rparr>, RespToken = None\<rparr>)\<rparr>"

theorem socket_verdict_trusted_witness:
  "trusted_socket sample_http_env ''/run/attest.sock'' \<and>
   VerifyEvidenceWithRuntimeLog (\<lambda>_. Inr None)
     (client_service sample_client_json sample_http_env (NewClientWithHTTP (''unix://'' @ ''/run/attest.sock'')
        \<lparr>HttpTimeout = 5, HttpTransport = Supplied\<rparr>)) \<lparr>EvPlatform = PlatformTDX, EvEvidence = [9]\<rparr>
     \<lparr>PolReportData = [], PolAllowDebug = False, PolMinTcb = None, PolImages = [], PolMeasurements = [],
      PolRegisters = [], PolPCRs = [], PolInitDataHash = []\<rparr> [] =
   Inr \<lparr>RespResult = zero_result\<lparr>SignatureValid := True\<rparr>, RespToken = None\<rparr>"
proof -
  let ?pol = "\<lparr>PolReportData = [], PolAllowDebug = False, PolMinTcb = None, PolImages = [], PolMeasurements = [],
      PolRegisters = [], PolPCRs = [], PolInitDataHash = []\<rparr>" and ?ev = "\<lparr>EvPlatform = PlatformTDX, EvEvidence = [9]\<rparr>"
  let ?resp = "\<lparr>RespResult = zero_result\<lparr>SignatureValid := True\<rparr>, RespToken = None\<rparr>"
  let ?c = "NewClientWithHTTP (''unix://'' @ ''/run/attest.sock'') \<lparr>HttpTimeout = 5, HttpTransport = Supplied\<rparr>"
  have t: "trusted_socket sample_http_env ''/run/attest.sock''"
    by (simp add: trusted_socket_def sample_http_env_def has_prefix_def)
  have "http_do sample_http_env (HttpClient ?c) r = Inr \<lparr>StatusCode = 200, RespBody = [1]\<rparr>" for r
    unfolding NewClient_socket using t by (simp add: http_do_def) (simp add: sample_http_env_def)
  then have "client_Verify sample_client_json sample_http_env ?c r = Inr ?resp" for r
    unfolding client_Verify_Inr by (simp add: sample_client_json_def) (simp add: sample_http_env_def)
  then have s: "client_service sample_client_json sample_http_env ?c r = Inr ?resp" for r
    unfolding client_service_Inr .
  have fam: "Family PlatformTDX = FamilyTDX" by (simp add: Family_def)
  have v: "VerifyEvidenceWithRuntimeLog (\<lambda>_. Inr None) (client_service sample_client_json sample_http_env ?c) ?ev ?pol [] = Inr ?resp"
    by (simp only: VerifyEvidenceWithRuntimeLog_Inr s)
      (simp add: EnforcePinsWithRuntimeLog_Inr verdict_ok_def policy_params_def fam
        platform_agrees_def pcr_pins_hold_def flat_pins_hold_def EnforceLaunchMeasurement_def)
  from socket_verdict_trusted [OF v] v show ?thesis by blast
qed

end
