(* ===== verification/Gce.thy ===== *)
theory Gce
  imports HwCommon
begin

text \<open>
  The attestations of Google Compute Engine: \<open>attestation/attestation.go\<close> (producer),
  \<open>attestation/verify.go\<close>, \<open>verify_sev.go\<close> and \<open>verify_tdx.go\<close> (verifier).

  The protobuf codecs, \<open>go-tpm-tools\<close>, \<open>go-sev-guest\<close>, \<open>go-tdx-guest\<close>, the TPM device and the metadata
  server are the fields of \<open>gce_lib\<close> and \<open>attest_env\<close>.
\<close>

section \<open>Verification\<close>

text \<open>\<open>'t\<close> is a TDX quote, \<open>'s\<close> a SEV-SNP report with its certificates; \<open>UnknownTee\<close> is any later alternative.\<close>

datatype ('t, 's) tee_attestation = NoTee | TdxAttestation 't | SevSnpAttestation 's | UnknownTee

datatype gce_technology = TechNone | TechSev | TechSevEs | TechSevSnp | TechIntelTdx | TechOther

record ('t, 's, 'x) gce_attestation =
  AkPub :: bytes
  TeeAttestation :: "('t, 's) tee_attestation"
  GceRest :: 'x

record ('t, 's, 'm) machine_state =
  MsTechnology :: gce_technology
  MsTee :: "('t, 's) tee_attestation"
  MsRest :: 'm

text \<open>The part of \<open>validate.Options\<close> set for a report.\<close>

record snp_guest_policy =
  PolSMT :: bool
  PolMigrateMA :: bool
  PolDebug :: bool

record gce_snp_validation =
  GsGuestPolicy :: snp_guest_policy
  GsReportData :: bytes

text \<open>
  The options of \<open>go-sev-guest/verify\<close> that the repository sets anywhere, of which this verifier takes the
  zero value: no revocation check, certificates fetched when they are missing, no roots, getter or
  product of its own. \<open>GceTdxVerify\<close> is the verification with \<open>DefaultOptions\<close> and the given roots.
\<close>

record gce_snp_verification =
  GvCheckRevocations :: bool
  GvDisableCertFetching :: bool
  GvOwnRoots :: bool
  GvOwnGetter :: bool
  GvOwnProduct :: bool

record ('t, 's, 'x, 'm, 'p, 'k, 'r) gce_lib =
  UnmarshalBinary :: "bytes \<Rightarrow> err + ('t, 's, 'x) gce_attestation"
  UnmarshalText :: "bytes \<Rightarrow> err + ('t, 's, 'x) gce_attestation"
  DecodePublic :: "bytes \<Rightarrow> err + 'p"
  PublicKeyOf :: "'p \<Rightarrow> err + 'k"
  ServerVerifyAttestation :: "('t, 's, 'x) gce_attestation \<Rightarrow> bytes \<Rightarrow> 'k list \<Rightarrow> err + ('t, 's, 'm) machine_state"
  GceIntelRoots :: "err + 'r"
  GceTdxVerify :: "'r \<Rightarrow> 't \<Rightarrow> err + unit"
  GceTdxValidate :: "bytes \<Rightarrow> 't \<Rightarrow> err + unit"
  GceSnpVerify :: "gce_snp_verification \<Rightarrow> 's \<Rightarrow> err + 's"
  GceSnpValidate :: "gce_snp_validation \<Rightarrow> 's \<Rightarrow> err + unit"

text \<open>
  The report data a nonce stands for: \<open>copy\<close> into 64 zero bytes. The guest policy allows SMT and a
  migration agent; every bit not named, debugging among them, stays off.
\<close>

definition defaultSevSnpGuestPolicy :: snp_guest_policy where
  "defaultSevSnpGuestPolicy = \<lparr>PolSMT = True, PolMigrateMA = True, PolDebug = False\<rparr>"

definition sevSnpDefaultValidateOpts :: "bytes \<Rightarrow> gce_snp_validation" where
  "sevSnpDefaultValidateOpts tpmNonce = \<lparr>GsGuestPolicy = defaultSevSnpGuestPolicy, GsReportData = pad tpmNonce 64\<rparr>"

definition tdxDefaultValidateOpts :: "bytes \<Rightarrow> bytes" where
  "tdxDefaultValidateOpts tdxNonce = pad tdxNonce 64"

definition verifyTdxAttestation ::
    "('t, 's, 'x, 'm, 'p, 'k, 'r) gce_lib \<Rightarrow> 't \<Rightarrow> bytes \<Rightarrow> 'r \<Rightarrow> err + unit" where
  "verifyTdxAttestation lib quote validation roots =
     bindr (GceTdxVerify lib roots quote) (\<lambda>_. GceTdxValidate lib validation quote)"

text \<open>The verification of a report fills in its certificates.\<close>

definition verifySevSnpAttestation ::
    "('t, 's, 'x, 'm, 'p, 'k, 'r) gce_lib \<Rightarrow> 's \<Rightarrow> gce_snp_validation \<Rightarrow> gce_snp_verification \<Rightarrow> err + 's" where
  "verifySevSnpAttestation lib att validation verification =
     bindr (GceSnpVerify lib verification att) (\<lambda>att'. bindr (GceSnpValidate lib validation att') (\<lambda>_. Inr att'))"

definition tee_nonce :: "bytes \<Rightarrow> bytes \<Rightarrow> bytes" where
  "tee_nonce nonce teeNonce = (if length teeNonce \<noteq> 0 then teeNonce else nonce)"

text \<open>It returns the attestation, whose report may have got its certificates.\<close>

definition verifyGceTechnology ::
    "('t, 's, 'x, 'm, 'p, 'k, 'r) gce_lib \<Rightarrow> ('t, 's, 'x) gce_attestation \<Rightarrow> bytes \<Rightarrow> bytes \<Rightarrow>
     err + ('t, 's, 'x) gce_attestation" where
  "verifyGceTechnology lib a nonce teeNonce =
     (case TeeAttestation a of
        NoTee \<Rightarrow> Inr a
      | TdxAttestation q \<Rightarrow>
          bindr (wrap_err (Errorf ''initialize Intel TDX trust root'') (GceIntelRoots lib)) (\<lambda>roots.
          bindr (verifyTdxAttestation lib q (tdxDefaultValidateOpts (tee_nonce nonce teeNonce)) roots) (\<lambda>_. Inr a))
      | SevSnpAttestation s \<Rightarrow>
          bindr (verifySevSnpAttestation lib s (sevSnpDefaultValidateOpts (tee_nonce nonce teeNonce))
            \<lparr>GvCheckRevocations = False, GvDisableCertFetching = False, GvOwnRoots = False, GvOwnGetter = False, GvOwnProduct = False\<rparr>) (\<lambda>s'.
          Inr (a\<lparr>TeeAttestation := SevSnpAttestation s'\<rparr>))
      | UnknownTee \<Rightarrow> Inl (Errorf ''unknown attestation type''))"

definition parseTEEAttestation ::
    "('t, 's, 'x) gce_attestation \<Rightarrow> gce_technology \<Rightarrow> err + ('t, 's) tee_attestation" where
  "parseTEEAttestation a tech =
     (case tech of
        TechSevSnp \<Rightarrow>
          (case TeeAttestation a of SevSnpAttestation s \<Rightarrow> Inr (SevSnpAttestation s) | _ \<Rightarrow> Inl (Errorf ''expected a SevSnpAttestation''))
      | TechIntelTdx \<Rightarrow>
          (case TeeAttestation a of TdxAttestation q \<Rightarrow> Inr (TdxAttestation q) | _ \<Rightarrow> Inl (Errorf ''expected a TdxAttestation''))
      | _ \<Rightarrow> Inr NoTee)"

definition VerifyAttestation ::
    "('t, 's, 'x, 'm, 'p, 'k, 'r) gce_lib \<Rightarrow> bytes \<Rightarrow> string \<Rightarrow> bytes \<Rightarrow> bytes \<Rightarrow> err + ('t, 's, 'm) machine_state" where
  "VerifyAttestation lib attestationBytes fmt nonce teeNonce =
     bindr
       (if fmt = ''binarypb'' then wrap_err (Errorf ''fail to unmarshal'') (UnmarshalBinary lib attestationBytes)
        else if fmt = ''textproto'' then wrap_err (Errorf ''fail to unmarshal'') (UnmarshalText lib attestationBytes)
        else Inl (Errorf ''format should be either binarypb or textproto'')) (\<lambda>a.
     bindr (DecodePublic lib (AkPub a)) (\<lambda>p.
     bindr (PublicKeyOf lib p) (\<lambda>cryptoPub.
     bindr (wrap_err (Errorf ''verifying TPM attestation'') (ServerVerifyAttestation lib a nonce [cryptoPub])) (\<lambda>ms.
     bindr (wrap_err (Errorf ''verifying TEE attestation'') (verifyGceTechnology lib a nonce teeNonce)) (\<lambda>a'.
     bindr (wrap_err (Errorf ''parse machineState'') (parseTEEAttestation a' (MsTechnology ms))) (\<lambda>tee.
     Inr (ms\<lparr>MsTee := tee\<rparr>)))))))"

section \<open>Production\<close>

datatype key_algo = AlgRSA | AlgECC | AlgOther

record attest_options =
  AoKey :: string
  AoKeyAlgo :: key_algo
  AoNonce :: bytes
  AoTeeTechnology :: string
  AoTeeNonce :: bytes
  AoFormat :: string

definition DefaultAttestOptions :: attest_options where
  "DefaultAttestOptions = \<lparr>AoKey = ''AK'', AoKeyAlgo = AlgRSA, AoNonce = [], AoTeeTechnology = [], AoTeeNonce = [],
     AoFormat = ''binarypb''\<rparr>"

record 'd client_attest_opts =
  CaNonce :: bytes
  CaTEEDevice :: "'d option"
  CaTEENonce :: bytes
  CaEventLog :: bytes

record instance_info =
  IiProjectId :: string
  IiProjectNumber :: "64 word"
  IiZone :: string
  IiInstanceId :: "64 word"
  IiInstanceName :: string

record metadata_server =
  MdProjectID :: "err + string"
  MdNumericProjectID :: "err + string"
  MdZone :: "err + string"
  MdInstanceID :: "err + string"
  MdInstanceName :: "err + string"

record ('key, 'd, 'a) attest_env =
  EnvOpenTPM :: "err + unit"
  EnvCloseTPM :: "err option"
  EnvCreateKey :: "string \<Rightarrow> key_algo \<Rightarrow> err + 'key"
  EnvSnpProvider :: "err + 'd"
  EnvTdxProvider :: "err + 'd"
  EnvEventLog :: "err + bytes"
  EnvKeyAttest :: "'key \<Rightarrow> 'd client_attest_opts \<Rightarrow> err + 'a"
  EnvMetadata :: metadata_server
  EnvSetInstance :: "'a \<Rightarrow> instance_info \<Rightarrow> 'a"
  EnvMarshalBinary :: "'a \<Rightarrow> err + bytes"
  EnvMarshalText :: "'a \<Rightarrow> bytes"

text \<open>\<open>strconv.ParseUint(s, 10, 64)\<close>.\<close>

definition parse_uint64 :: "string \<Rightarrow> err + 64 word" where
  "parse_uint64 s =
     (if s = [] \<or> \<not> list_all (\<lambda>c. c \<in> set ''0123456789'') s then Inl (Errorf ''invalid syntax'')
      else if 2 ^ 64 \<le> value_of_digits s then Inl (Errorf ''value out of range'')
      else Inr (word_of_nat (value_of_digits s)))"

definition getInstanceInfoFromMetadata :: "metadata_server \<Rightarrow> err + instance_info" where
  "getInstanceInfoFromMetadata md =
     bindr (MdProjectID md) (\<lambda>project.
     bindr (MdNumericProjectID md) (\<lambda>number.
     bindr (parse_uint64 number) (\<lambda>projectNumber.
     bindr (MdZone md) (\<lambda>zone.
     bindr (MdInstanceID md) (\<lambda>instanceID.
     bindr (parse_uint64 instanceID) (\<lambda>instanceId.
     bindr (MdInstanceName md) (\<lambda>name.
     Inr \<lparr>IiProjectId = project, IiProjectNumber = projectNumber, IiZone = zone, IiInstanceId = instanceId,
       IiInstanceName = name\<rparr>)))))))"

text \<open>
  \<open>attestationKeys[key][algo]\<close>: a missing entry of the inner map is the nil function, whose call
  panics.
\<close>

definition create_attestation_key :: "('key, 'd, 'a) attest_env \<Rightarrow> string \<Rightarrow> key_algo \<Rightarrow> err + 'key" where
  "create_attestation_key env key algo =
     (if key \<noteq> ''AK'' \<and> key \<noteq> ''gceAK'' then Inl (Errorf ''key should be either AK or gceAK'')
      else if algo = AlgOther then Inl Panic
      else wrap_err (Errorf ''failed to create attestation key'') (EnvCreateKey env key algo))"

definition tee_device :: "('key, 'd, 'a) attest_env \<Rightarrow> attest_options \<Rightarrow> err + ('d option \<times> bytes)" where
  "tee_device env opts =
     (if AoTeeTechnology opts = ''sev-snp'' then
        bindr (wrap_err (Errorf ''failed to open sev-snp device'') (EnvSnpProvider env)) (\<lambda>d. Inr (Some d, AoTeeNonce opts))
      else if AoTeeTechnology opts = ''tdx'' then
        bindr (wrap_err (Errorf ''failed to create tdx quote provider'') (EnvTdxProvider env)) (\<lambda>d. Inr (Some d, AoTeeNonce opts))
      else if AoTeeTechnology opts = [] then
        (if length (AoTeeNonce opts) \<noteq> 0 then Inl (Errorf ''use of TeeNonce requires specifying TEE hardware'')
         else Inr (None, []))
      else Inl (Errorf ''tee-technology''))"

text \<open>The body of \<open>Attest\<close> after the device is open.\<close>

definition attest_body :: "('key, 'd, 'a) attest_env \<Rightarrow> attest_options \<Rightarrow> err + bytes" where
  "attest_body env opts =
     (if AoFormat opts \<noteq> ''binarypb'' \<and> AoFormat opts \<noteq> ''textproto'' then Inl (Errorf ''format'')
      else
        bindr (create_attestation_key env (AoKey opts) (AoKeyAlgo opts)) (\<lambda>key.
        bindr (tee_device env opts) (\<lambda>(device, teeNonce).
        bindr (wrap_err (Errorf ''failed to retrieve TCG Event Log'') (EnvEventLog env)) (\<lambda>log.
        bindr (wrap_err (Errorf ''failed to collect attestation report'')
          (EnvKeyAttest env key \<lparr>CaNonce = AoNonce opts, CaTEEDevice = device, CaTEENonce = teeNonce, CaEventLog = log\<rparr>)) (\<lambda>a.
        bindr
          (if AoKey opts = ''gceAK'' then
             bindr (getInstanceInfoFromMetadata (EnvMetadata env)) (\<lambda>info. Inr (EnvSetInstance env a info))
           else Inr a) (\<lambda>a'.
        if AoFormat opts = ''binarypb'' then wrap_err (Errorf ''failed to marshal'') (EnvMarshalBinary env a')
        else Inr (EnvMarshalText env a')))))))"

text \<open>
  \<open>Attest\<close> returns the output and an error; the deferred function joins the error of closing the TPM, so
  that output may come with an error. A panic passes through the deferred close.
\<close>

definition Attest :: "('key, 'd, 'a) attest_env \<Rightarrow> attest_options \<Rightarrow> bytes option \<times> err option" where
  "Attest env opts =
     (case EnvOpenTPM env of
        Inl e \<Rightarrow> (None, Some (Errorf ''failed to open TPM''))
      | Inr _ \<Rightarrow>
          (case attest_body env opts of
             Inl e \<Rightarrow>
               (None, Some (case EnvCloseTPM env of None \<Rightarrow> e | Some c \<Rightarrow> Wrap e c))
           | Inr out \<Rightarrow> (Some out, EnvCloseTPM env)))"

definition GetAttestation ::
    "('key, 'd, 'a) attest_env \<Rightarrow> (bytes \<Rightarrow> err + 'a) \<Rightarrow> (bytes \<Rightarrow> err + 'a) \<Rightarrow> attest_options \<Rightarrow> err + 'a" where
  "GetAttestation env parse_binary parse_text opts =
     (case Attest env opts of
        (_, Some e) \<Rightarrow> Inl e
      | (None, None) \<Rightarrow> Inl (Errorf ''no output'')
      | (Some b, None) \<Rightarrow>
          wrap_err (Errorf ''failed to unmarshal attestation proto'')
            (if AoFormat opts = ''binarypb'' then parse_binary b else parse_text b))"

section \<open>Properties\<close>

text \<open>What the hardware evidence of an accepted attestation satisfied, for its alternative.\<close>

definition tee_checked ::
    "('t, 's, 'x, 'm, 'p, 'k, 'r) gce_lib \<Rightarrow> bytes \<Rightarrow> ('t, 's) tee_attestation \<Rightarrow> ('t, 's) tee_attestation \<Rightarrow> bool" where
  "tee_checked lib nonce t t' \<longleftrightarrow>
     (case t of
        NoTee \<Rightarrow> t' = NoTee
      | TdxAttestation q \<Rightarrow> t' = t \<and> (\<exists>roots. GceIntelRoots lib = Inr roots \<and> GceTdxVerify lib roots q = Inr ()) \<and>
          GceTdxValidate lib (pad nonce 64) q = Inr ()
      | SevSnpAttestation s \<Rightarrow>
          (\<exists>s'. t' = SevSnpAttestation s' \<and>
             GceSnpVerify lib \<lparr>GvCheckRevocations = False, GvDisableCertFetching = False, GvOwnRoots = False,
               GvOwnGetter = False, GvOwnProduct = False\<rparr> s = Inr s' \<and>
             GceSnpValidate lib \<lparr>GsGuestPolicy = \<lparr>PolSMT = True, PolMigrateMA = True, PolDebug = False\<rparr>,
               GsReportData = pad nonce 64\<rparr> s' = Inr ())
      | UnknownTee \<Rightarrow> False)"

lemma verifyGceTechnology_Inr:
  "verifyGceTechnology lib a nonce teeNonce = Inr a' \<longleftrightarrow>
     (\<exists>t'. tee_checked lib (tee_nonce nonce teeNonce) (TeeAttestation a) t' \<and> a' = a\<lparr>TeeAttestation := t'\<rparr>)"
proof -
  have "a\<lparr>TeeAttestation := TeeAttestation a\<rparr> = a" by simp
  then show ?thesis
    by (cases "TeeAttestation a")
      (auto simp: verifyGceTechnology_def tee_checked_def verifyTdxAttestation_def verifySevSnpAttestation_def
        tdxDefaultValidateOpts_def sevSnpDefaultValidateOpts_def defaultSevSnpGuestPolicy_def)
qed

text \<open>The reported evidence is the checked one, and is there when the platform is a confidential one.\<close>

lemma parseTEEAttestation_Inr:
  "parseTEEAttestation a tech = Inr t \<longleftrightarrow>
     (case tech of
        TechSevSnp \<Rightarrow> (\<exists>s. TeeAttestation a = SevSnpAttestation s \<and> t = SevSnpAttestation s)
      | TechIntelTdx \<Rightarrow> (\<exists>q. TeeAttestation a = TdxAttestation q \<and> t = TdxAttestation q)
      | _ \<Rightarrow> t = NoTee)"
  by (auto simp: parseTEEAttestation_def split: gce_technology.splits tee_attestation.splits)

text \<open>
  C25: what an accepted GCE attestation went through. It decodes in the named format; the TPM check
  passed with the given nonce, trusting the key the attestation itself carries and no other; its
  hardware evidence, if any, verified against the pinned roots with the nonce as report data, and
  evidence of an unknown kind is refused; a platform reported as SEV-SNP or TDX has evidence of that
  kind, and the machine state reports exactly the evidence checked.
\<close>

theorem gce_verified:
  assumes "VerifyAttestation lib b fmt nonce teeNonce = Inr ms"
  shows "\<exists>a p key ms0 t.
    (if fmt = ''binarypb'' then UnmarshalBinary lib b = Inr a else fmt = ''textproto'' \<and> UnmarshalText lib b = Inr a) \<and>
    DecodePublic lib (AkPub a) = Inr p \<and> PublicKeyOf lib p = Inr key \<and>
    ServerVerifyAttestation lib a nonce [key] = Inr ms0 \<and>
    tee_checked lib (tee_nonce nonce teeNonce) (TeeAttestation a) t \<and>
    ms = ms0\<lparr>MsTee := MsTee ms\<rparr> \<and>
    (case MsTechnology ms0 of
       TechSevSnp \<Rightarrow> (\<exists>s. t = SevSnpAttestation s) \<and> MsTee ms = t
     | TechIntelTdx \<Rightarrow> (\<exists>q. t = TdxAttestation q) \<and> MsTee ms = t
     | _ \<Rightarrow> MsTee ms = NoTee)"
proof -
  from assms obtain a p key ms0 a' tee where
    d: "(if fmt = ''binarypb'' then wrap_err (Errorf ''fail to unmarshal'') (UnmarshalBinary lib b)
        else if fmt = ''textproto'' then wrap_err (Errorf ''fail to unmarshal'') (UnmarshalText lib b)
        else Inl (Errorf ''format should be either binarypb or textproto'')) = Inr a"
    and k: "DecodePublic lib (AkPub a) = Inr p" "PublicKeyOf lib p = Inr key"
    and s: "ServerVerifyAttestation lib a nonce [key] = Inr ms0" and g: "verifyGceTechnology lib a nonce teeNonce = Inr a'"
    and tee: "parseTEEAttestation a' (MsTechnology ms0) = Inr tee" and ms: "Inr (ms0\<lparr>MsTee := tee\<rparr>) = (Inr ms :: err + _)"
    unfolding VerifyAttestation_def bindr_eq_Inr wrap_err_eq_Inr by (elim exE conjE) (rule that; assumption)
  from g obtain t where t: "tee_checked lib (tee_nonce nonce teeNonce) (TeeAttestation a) t" "a' = a\<lparr>TeeAttestation := t\<rparr>"
    by (auto simp: verifyGceTechnology_Inr)
  have "if fmt = ''binarypb'' then UnmarshalBinary lib b = Inr a else fmt = ''textproto'' \<and> UnmarshalText lib b = Inr a"
    using d by (simp split: if_splits)
  moreover have "ms = ms0\<lparr>MsTee := MsTee ms\<rparr>" "MsTee ms = tee" using ms by auto
  moreover have "case MsTechnology ms0 of
       TechSevSnp \<Rightarrow> (\<exists>s. t = SevSnpAttestation s) \<and> tee = t
     | TechIntelTdx \<Rightarrow> (\<exists>q. t = TdxAttestation q) \<and> tee = t
     | _ \<Rightarrow> tee = NoTee"
    using tee t(2) by (auto simp: parseTEEAttestation_Inr split: gce_technology.splits)
  ultimately show ?thesis using k s t(1) by blast
qed

text \<open>
  C40: only 64 bytes of a nonce bind. Two TEE nonces that agree in their first 64 bytes are verified
  alike, whatever follows: the verifier cuts them silently to the size of the report data.
\<close>

theorem gce_nonce_truncated:
  assumes "length x = 64"
  shows "VerifyAttestation lib b fmt nonce (x @ y) = VerifyAttestation lib b fmt nonce (x @ z)"
proof -
  have "pad (tee_nonce nonce (x @ y)) 64 = x" for y using assms by (auto simp: tee_nonce_def pad_def)
  then have "verifyGceTechnology lib a nonce (x @ y) = verifyGceTechnology lib a nonce (x @ z)" for a
    unfolding verifyGceTechnology_def tdxDefaultValidateOpts_def sevSnpDefaultValidateOpts_def by (simp only:)
  then show ?thesis by (simp add: VerifyAttestation_def)
qed

text \<open>
  Producing an attestation panics when the TPM opens, the format and the key name are valid and the key
  algorithm is neither RSA nor ECC: the function looked up for it is nil.
\<close>

lemma Attest_unknown_algorithm_panics:
  assumes "EnvOpenTPM env = Inr ()" and "AoFormat opts \<in> {''binarypb'', ''textproto''}"
    and "AoKey opts \<in> {''AK'', ''gceAK''}" and "AoKeyAlgo opts = AlgOther"
  shows "\<exists>e. Attest env opts = (None, Some e) \<and> panics e"
  using assms by (auto simp: Attest_def attest_body_def create_attestation_key_def split: option.splits)

text \<open>Bytes without an error come only from a whole run, with a TEE device whenever there is a TEE nonce.\<close>

lemma Attest_output:
  assumes "Attest env opts = (Some out, None)"
  shows "EnvCloseTPM env = None \<and> (\<exists>key d teeNonce log a a'.
    create_attestation_key env (AoKey opts) (AoKeyAlgo opts) = Inr key \<and> tee_device env opts = Inr (d, teeNonce) \<and>
    EnvEventLog env = Inr log \<and>
    EnvKeyAttest env key \<lparr>CaNonce = AoNonce opts, CaTEEDevice = d, CaTEENonce = teeNonce, CaEventLog = log\<rparr> = Inr a \<and>
    (AoTeeNonce opts \<noteq> [] \<longrightarrow> d \<noteq> None \<and> teeNonce = AoTeeNonce opts) \<and>
    (if AoFormat opts = ''binarypb'' then EnvMarshalBinary env a' = Inr out else EnvMarshalText env a' = out))"
proof -
  from assms have c: "EnvCloseTPM env = None" and b: "attest_body env opts = Inr out"
    by (auto simp: Attest_def split: sum.splits)
  have "AoTeeNonce opts \<noteq> [] \<longrightarrow> d \<noteq> None \<and> teeNonce = AoTeeNonce opts" if "tee_device env opts = Inr (d, teeNonce)" for d teeNonce
    using that by (auto simp: tee_device_def split: if_splits)
  with b c show ?thesis by (fastforce simp: attest_body_def split: if_splits)
qed

definition sample_gce_lib :: "(bytes, bytes, unit, unit, bytes, bytes, nat) gce_lib" where
  "sample_gce_lib = \<lparr>
     UnmarshalBinary = (\<lambda>b. Inr \<lparr>AkPub = [1], TeeAttestation = SevSnpAttestation b, GceRest = ()\<rparr>),
     UnmarshalText = (\<lambda>b. Inl (Errorf ''text'')), DecodePublic = Inr, PublicKeyOf = Inr,
     ServerVerifyAttestation = (\<lambda>a n ks. Inr \<lparr>MsTechnology = TechSevSnp, MsTee = NoTee, MsRest = ()\<rparr>),
     GceIntelRoots = Inr 1, GceTdxVerify = (\<lambda>r q. Inr ()), GceTdxValidate = (\<lambda>d q. Inr ()),
     GceSnpVerify = (\<lambda>v. Inr), GceSnpValidate = (\<lambda>d s. if GsReportData d = s then Inr () else Inl (Errorf ''report data''))\<rparr>"

lemma sample_gce_run:
  "VerifyAttestation sample_gce_lib (replicate 64 7) ''binarypb'' [] (replicate 64 7 @ y) =
     Inr \<lparr>MsTechnology = TechSevSnp, MsTee = SevSnpAttestation (replicate 64 7), MsRest = ()\<rparr>"
  by (simp add: VerifyAttestation_def verifyGceTechnology_def verifySevSnpAttestation_def sevSnpDefaultValidateOpts_def
      tee_nonce_def pad_def parseTEEAttestation_def sample_gce_lib_def)

theorem gce_verified_witness:
  "\<exists>a. UnmarshalBinary sample_gce_lib (replicate 64 7) = Inr a \<and>
     tee_checked sample_gce_lib (replicate 64 7) (TeeAttestation a) (SevSnpAttestation (replicate 64 7))"
  using gce_verified [OF sample_gce_run [of "[]"]] by (auto simp: tee_nonce_def sample_gce_lib_def)

theorem gce_nonce_truncated_witness:
  "VerifyAttestation sample_gce_lib (replicate 64 7) ''binarypb'' [] (replicate 64 7 @ [1]) =
   VerifyAttestation sample_gce_lib (replicate 64 7) ''binarypb'' [] (replicate 64 7 @ [2])"
  by (rule gce_nonce_truncated) simp

end
