(* ===== verification/Mock.thy ===== *)
theory Mock
  imports Client ArmTls
begin

text \<open>
  The stub of the service in \<open>remote/mockapi/mockapi.go\<close>: its state under the mutex, the three handlers
  behind the request multiplexer, and the SNP report every fake is made of.

  One step is one call of a setter or one request; the handlers hold the mutex while they read or write
  the state, so that an interleaving is a sequence of steps. The listener, the test cleanup and the
  getters that copy the recorded requests are left out: the requests are read off the state.
  \<open>encoding/json\<close> is the record \<open>mock_json\<close>; an encoding that fails writes nothing.
\<close>

section \<open>State\<close>

record verdict =
  VdSignatureValid :: bool
  VdReportDataMatch :: "bool option"
  VdInitDataMatch :: "bool option"
  VdClaims :: claims

definition PassingVerdict :: "string \<Rightarrow> verdict" where
  "PassingVerdict ld =
     \<lparr>VdSignatureValid = True, VdReportDataMatch = Some True, VdInitDataMatch = Some True,
      VdClaims = zero_claims\<lparr>LaunchDigest := ld\<rparr>\<rparr>"

record error_reply =
  ErStatus :: int
  ErCode :: string
  ErText :: string

abbreviation (input) ErrorCodeVerificationFailed :: string where
  "ErrorCodeVerificationFailed \<equiv> ''verification_failed''"

definition VerificationFailed :: "string \<Rightarrow> error_reply" where
  "VerificationFailed msg = \<lparr>ErStatus = 422, ErCode = ErrorCodeVerificationFailed, ErText = msg\<rparr>"

record stub =
  StVerdict :: verdict
  StVerifyErr :: error_reply
  StPlatform :: string
  StAttest :: "attest_request list"
  StVerify :: "verify_request list"

definition newStub :: stub where
  "newStub = \<lparr>StVerdict = PassingVerdict [], StVerifyErr = \<lparr>ErStatus = 0, ErCode = [], ErText = []\<rparr>,
     StPlatform = PlatformSNP, StAttest = [], StVerify = []\<rparr>"

definition SetVerdict :: "verdict \<Rightarrow> stub \<Rightarrow> stub" where
  "SetVerdict v s = s\<lparr>StVerdict := v\<rparr>"

definition SetVerifyError :: "error_reply \<Rightarrow> stub \<Rightarrow> stub" where
  "SetVerifyError r s = s\<lparr>StVerifyErr := r\<rparr>"

definition SetPlatform :: "string \<Rightarrow> stub \<Rightarrow> stub" where
  "SetPlatform p s = s\<lparr>StPlatform := p\<rparr>"

section \<open>Replies\<close>

text \<open>Why a body does not decode: \<open>errors.As\<close> finds a type error, or not; with the text of the error.\<close>

datatype decode_error = UnmarshalTypeError string | OtherDecodeError string

record mock_json =
  DecodeAttestRequest :: "bytes \<Rightarrow> decode_error + attest_request"
  DecodeVerifyRequest :: "bytes \<Rightarrow> decode_error + verify_request"
  EncodeHealthResponse :: "health_response \<Rightarrow> err + bytes"
  EncodeAttestResponse :: "attest_response \<Rightarrow> err + bytes"
  EncodeVerifyResponse :: "verify_response \<Rightarrow> err + bytes"
  EncodeErrorResponse :: "error_response \<Rightarrow> err + bytes"
  MarshalSnpEvidence :: "snp_evidence \<Rightarrow> err + bytes"

record mock_reply =
  MrStatus :: int
  MrContentType :: string
  MrBody :: bytes

text \<open>
  \<open>net/http\<close>: \<open>WriteHeader\<close> panics on a code that is not three digits; an informational code is sent at
  once and the reply goes on with 200; some codes have no body.
\<close>

definition WriteHeader :: "int \<Rightarrow> err + int" where
  "WriteHeader code =
     (if code < 100 \<or> 999 < code then Inl Panic
      else if code \<le> 199 \<and> code \<noteq> 101 then Inr 200
      else Inr code)"

definition write_body :: "int \<Rightarrow> bytes \<Rightarrow> bytes" where
  "write_body status b = (if status = 101 \<or> status = 204 \<or> status = 304 then [] else b)"

definition written :: "err + bytes \<Rightarrow> bytes" where
  "written r = (case r of Inl _ \<Rightarrow> [] | Inr b \<Rightarrow> b)"

definition writeJSON :: "err + bytes \<Rightarrow> err + mock_reply" where
  "writeJSON v = Inr \<lparr>MrStatus = 200, MrContentType = ''application/json'', MrBody = written v\<rparr>"

definition writeError :: "mock_json \<Rightarrow> error_reply \<Rightarrow> err + mock_reply" where
  "writeError mj reply =
     (if ErCode reply = [] then
        bindr (WriteHeader (ErStatus reply)) (\<lambda>status.
        Inr \<lparr>MrStatus = status, MrContentType = ''text/plain; charset=utf-8'',
             MrBody = write_body status (bytes_of_string (ErText reply))\<rparr>)
      else
        bindr (WriteHeader (ErStatus reply)) (\<lambda>status.
        Inr \<lparr>MrStatus = status, MrContentType = ''application/json'',
             MrBody = write_body status (written (EncodeErrorResponse mj \<lparr>ErrError = ErCode reply, ErrMessage = ErText reply\<rparr>))\<rparr>))"

definition undecodableBody :: "decode_error \<Rightarrow> error_reply" where
  "undecodableBody e =
     (case e of
        UnmarshalTypeError m \<Rightarrow>
          \<lparr>ErStatus = 422, ErCode = [], ErText = ''Failed to deserialize the JSON body into the target type: '' @ m\<rparr>
      | OtherDecodeError m \<Rightarrow>
          \<lparr>ErStatus = 400, ErCode = [], ErText = ''Failed to parse the request body as JSON: '' @ m\<rparr>)"

section \<open>The fake report\<close>

text \<open>Version 2 and a policy that allows SMT, with the report data copied over zeros.\<close>

definition FakeSNPReport :: "bytes \<Rightarrow> bytes" where
  "FakeSNPReport reportData =
     (let report = (replicate SNPReportSize 0)[0 := 2, 10 := 3] in
      take ReportDataOffset report @ take 64 reportData @ drop (ReportDataOffset + min 64 (length reportData)) report)"

definition FakeSNPEvidence :: "mock_json \<Rightarrow> bytes \<Rightarrow> err + bytes" where
  "FakeSNPEvidence mj reportData =
     (case MarshalSnpEvidence mj \<lparr>AttestationReport = std_encode (FakeSNPReport reportData), CertChain = None\<rparr> of
        Inl e \<Rightarrow> Inl Panic
      | Inr b \<Rightarrow> Inr b)"

section \<open>Handlers\<close>

definition handleHealth :: "mock_json \<Rightarrow> stub \<Rightarrow> err + mock_reply" where
  "handleHealth mj s =
     writeJSON (EncodeHealthResponse mj
       \<lparr>HealthStatus = ''ok'', HealthPlatform = Some (StPlatform s),
        HealthCache = \<lparr>VcekEntries = 0, ChainEntries = 0, LastCrlRefresh = None\<rparr>, HealthTokenIssuer = False\<rparr>)"

abbreviation (input) PlatformAuto :: string where "PlatformAuto \<equiv> ''auto''"

definition handleAttest :: "mock_json \<Rightarrow> bytes \<Rightarrow> stub \<Rightarrow> (err + mock_reply) \<times> stub" where
  "handleAttest mj body s =
     (case DecodeAttestRequest mj body of
        Inl e \<Rightarrow> (writeError mj (undecodableBody e), s)
      | Inr req \<Rightarrow>
          (let platform = (if AttPlatform req \<noteq> [] \<and> AttPlatform req \<noteq> PlatformAuto then AttPlatform req else StPlatform s) in
           (bindr (FakeSNPEvidence mj (AttReportData req)) (\<lambda>evidence.
            writeJSON (EncodeAttestResponse mj \<lparr>AttRespPlatform = platform, AttRespEvidence = evidence\<rparr>)),
            s\<lparr>StAttest := StAttest s @ [req]\<rparr>)))"

definition stub_response :: "verdict \<Rightarrow> verify_request \<Rightarrow> verify_response" where
  "stub_response v req =
     \<lparr>RespResult = zero_result\<lparr>ResPlatform := ReqPlatform req, SignatureValid := VdSignatureValid v,
        ReportDataMatch := VdReportDataMatch v, InitDataMatch := VdInitDataMatch v, Claims := VdClaims v\<rparr>,
      RespToken = None\<rparr>"

definition handleVerify :: "mock_json \<Rightarrow> bytes \<Rightarrow> stub \<Rightarrow> (err + mock_reply) \<times> stub" where
  "handleVerify mj body s =
     (case DecodeVerifyRequest mj body of
        Inl e \<Rightarrow> (writeError mj (undecodableBody e), s)
      | Inr req \<Rightarrow>
          (if ErStatus (StVerifyErr s) \<noteq> 0 then writeError mj (StVerifyErr s)
           else writeJSON (EncodeVerifyResponse mj (stub_response (StVerdict s) req)),
           s\<lparr>StVerify := StVerify s @ [req]\<rparr>))"

text \<open>
  The multiplexer: a GET pattern also takes HEAD, whose reply has no body; another method on a known path
  is 405, another path 404. Paths are as the multiplexer cleans them.
\<close>

definition not_served :: "int \<Rightarrow> string \<Rightarrow> err + mock_reply" where
  "not_served status msg =
     Inr \<lparr>MrStatus = status, MrContentType = ''text/plain; charset=utf-8'', MrBody = bytes_of_string (msg @ [CHR 0x0A])\<rparr>"

definition drop_body :: "err + mock_reply \<Rightarrow> err + mock_reply" where
  "drop_body r = bindr r (\<lambda>m. Inr (m\<lparr>MrBody := []\<rparr>))"

definition mock_handler :: "mock_json \<Rightarrow> string \<Rightarrow> string \<Rightarrow> bytes \<Rightarrow> stub \<Rightarrow> (err + mock_reply) \<times> stub" where
  "mock_handler mj meth path body s =
     (if path = ''/health'' then
        (if meth = ''GET'' then handleHealth mj s
         else if meth = ''HEAD'' then drop_body (handleHealth mj s)
         else not_served 405 ''Method Not Allowed'', s)
      else if path = ''/attest'' then
        (if meth = ''POST'' then handleAttest mj body s else (not_served 405 ''Method Not Allowed'', s))
      else if path = ''/verify'' then
        (if meth = ''POST'' then handleVerify mj body s else (not_served 405 ''Method Not Allowed'', s))
      else (not_served 404 ''404 page not found'', s))"

text \<open>Everything that happens to a stub, and the state after a sequence of it.\<close>

datatype mock_op =
    MockSetVerdict verdict
  | MockSetVerifyError error_reply
  | MockSetPlatform string
  | MockRequest string string bytes

fun mock_step :: "mock_json \<Rightarrow> mock_op \<Rightarrow> stub \<Rightarrow> stub" where
  "mock_step mj (MockSetVerdict v) s = SetVerdict v s"
| "mock_step mj (MockSetVerifyError r) s = SetVerifyError r s"
| "mock_step mj (MockSetPlatform p) s = SetPlatform p s"
| "mock_step mj (MockRequest meth path body) s = snd (mock_handler mj meth path body s)"

definition mock_run :: "mock_json \<Rightarrow> mock_op list \<Rightarrow> stub" where
  "mock_run mj ops = fold (mock_step mj) ops newStub"

section \<open>Lemmas\<close>

definition verify_recorded :: "mock_json \<Rightarrow> mock_op \<Rightarrow> verify_request list" where
  "verify_recorded mj op =
     (case op of
        MockRequest meth path body \<Rightarrow>
          (if meth = ''POST'' \<and> path = ''/verify'' then
             (case DecodeVerifyRequest mj body of Inl _ \<Rightarrow> [] | Inr req \<Rightarrow> [req])
           else [])
      | _ \<Rightarrow> [])"

definition attest_recorded :: "mock_json \<Rightarrow> mock_op \<Rightarrow> attest_request list" where
  "attest_recorded mj op =
     (case op of
        MockRequest meth path body \<Rightarrow>
          (if meth = ''POST'' \<and> path = ''/attest'' then
             (case DecodeAttestRequest mj body of Inl _ \<Rightarrow> [] | Inr req \<Rightarrow> [req])
           else [])
      | _ \<Rightarrow> [])"

definition last_set :: "('op \<Rightarrow> 'a option) \<Rightarrow> 'a \<Rightarrow> 'op list \<Rightarrow> 'a" where
  "last_set f d ops = last (d # List.map_filter f ops)"

lemma last_set_simps [simp]:
  "last_set f d [] = d"
  "last_set f d (op # ops) = last_set f (case f op of Some x \<Rightarrow> x | None \<Rightarrow> d) ops"
  by (auto simp: last_set_def List.map_filter_simps split: option.splits)

text \<open>No request changes what the setters set.\<close>

lemma mock_handler_config [simp]:
  "StVerdict (snd (mock_handler mj meth path body s)) = StVerdict s"
  "StVerifyErr (snd (mock_handler mj meth path body s)) = StVerifyErr s"
  "StPlatform (snd (mock_handler mj meth path body s)) = StPlatform s"
  by (auto simp: mock_handler_def handleVerify_def handleAttest_def Let_def split: sum.splits)

lemma mock_step_recorded:
  "StVerify (mock_step mj op s) = StVerify s @ verify_recorded mj op"
  "StAttest (mock_step mj op s) = StAttest s @ attest_recorded mj op"
  by (cases op; auto simp: mock_handler_def handleVerify_def handleAttest_def Let_def verify_recorded_def
      attest_recorded_def SetVerdict_def SetVerifyError_def SetPlatform_def split: sum.splits)+

definition set_verdict_op :: "mock_op \<Rightarrow> verdict option" where
  "set_verdict_op op = (case op of MockSetVerdict v \<Rightarrow> Some v | _ \<Rightarrow> None)"

definition set_error_op :: "mock_op \<Rightarrow> error_reply option" where
  "set_error_op op = (case op of MockSetVerifyError r \<Rightarrow> Some r | _ \<Rightarrow> None)"

definition set_platform_op :: "mock_op \<Rightarrow> string option" where
  "set_platform_op op = (case op of MockSetPlatform p \<Rightarrow> Some p | _ \<Rightarrow> None)"

lemma mock_step_config:
  "StVerdict (mock_step mj op s) = (case set_verdict_op op of Some v \<Rightarrow> v | None \<Rightarrow> StVerdict s)"
  "StVerifyErr (mock_step mj op s) = (case set_error_op op of Some r \<Rightarrow> r | None \<Rightarrow> StVerifyErr s)"
  "StPlatform (mock_step mj op s) = (case set_platform_op op of Some p \<Rightarrow> p | None \<Rightarrow> StPlatform s)"
  by (cases op; simp add: SetVerdict_def SetVerifyError_def SetPlatform_def set_verdict_op_def set_error_op_def
      set_platform_op_def)+

lemma mock_run_from:
  "fold (mock_step mj) ops s = \<lparr>StVerdict = last_set set_verdict_op (StVerdict s) ops,
     StVerifyErr = last_set set_error_op (StVerifyErr s) ops, StPlatform = last_set set_platform_op (StPlatform s) ops,
     StAttest = StAttest s @ concat (map (attest_recorded mj) ops),
     StVerify = StVerify s @ concat (map (verify_recorded mj) ops)\<rparr>"
  by (induction ops arbitrary: s) (simp_all add: mock_step_recorded mock_step_config)

lemma FakeSNPReport_prefix: "take 80 ((replicate SNPReportSize 0)[0 := 2, 10 := 3]) = (replicate 80 (0 :: byte))[0 := 2, 10 := 3]"
  by (simp add: take_update_swap)

lemma FakeSNPReport_parts:
  "FakeSNPReport rd = (replicate 80 0)[0 := 2, 10 := 3] @ pad rd 64 @ replicate 1040 0"
proof -
  let ?r = "(replicate SNPReportSize 0)[0 := 2, 10 := 3] :: bytes"
  have "drop (ReportDataOffset + min 64 (length rd)) ?r = replicate (SNPReportSize - (ReportDataOffset + min 64 (length rd))) 0"
    by (simp add: drop_update_cancel)
  also have "\<dots> = replicate (64 - length rd) 0 @ replicate 1040 0"
    by (simp add: replicate_add [symmetric])
  finally show ?thesis using FakeSNPReport_prefix by (simp add: FakeSNPReport_def Let_def pad_def)
qed

lemma length_FakeSNPReport [simp]: "length (FakeSNPReport rd) = SNPReportSize"
  by (simp add: FakeSNPReport_parts)

lemma FakeSNPReport_data: "take 64 (drop ReportDataOffset (FakeSNPReport rd)) = pad rd 64"
  by (simp add: FakeSNPReport_parts)

lemma FakeSNPReport_normal: "NormalizeSEVSNPReport (FakeSNPReport rd) = Inr (FakeSNPReport rd)"
  by (simp add: NormalizeSEVSNPReport_def)

text \<open>The evidence of the stub holds the fake report with the caller's report data in its field.\<close>

lemma fake_evidence_extracts:
  assumes "FakeSNPEvidence mj rd = Inr b"
    and "UnmarshalSnpFields js b = Inr (\<lparr>AttestationReport = std_encode (FakeSNPReport rd), CertChain = None\<rparr>, [])"
  shows "ExtractSNPReport js \<lparr>EvPlatform = p, EvEvidence = b\<rparr> = Inr (FakeSNPReport rd) \<and>
    take 64 (drop ReportDataOffset (FakeSNPReport rd)) = pad rd 64"
proof -
  have "std_encode (FakeSNPReport rd) \<noteq> []"
  proof
    assume "std_encode (FakeSNPReport rd) = []"
    then have "std_decode [] = Inr (FakeSNPReport rd)" using std_decode_encode [of "FakeSNPReport rd"] by simp
    moreover have "std_decode [] = Inr []" by (simp add: std_decode_def strip_trailing_def)
    ultimately have "length (FakeSNPReport rd) = 0" by simp
    then show False by simp
  qed
  with assms(2) show ?thesis by (simp add: ExtractSNPReport_def std_decode_encode FakeSNPReport_data)
qed

section \<open>A client of the stub\<close>

text \<open>The exchange of a client whose requests reach a stub at \<open>base\<close>; a handler that panics closes the connection.\<close>

definition mock_exchange :: "mock_json \<Rightarrow> string \<Rightarrow> stub \<Rightarrow> http_request \<Rightarrow> err + http_response" where
  "mock_exchange mj base s req =
     (case cut_prefix base (ReqURL req) of
        None \<Rightarrow> Inl (Errorf ''no such host'')
      | Some path \<Rightarrow>
          (case fst (mock_handler mj (ReqMethod req) path (ReqBody req) s) of
             Inl e \<Rightarrow> Inl (Errorf ''EOF'')
           | Inr r \<Rightarrow> Inr \<lparr>StatusCode = MrStatus r, RespBody = MrBody r\<rparr>))"

definition reaches :: "mock_json \<Rightarrow> stub \<Rightarrow> http_env \<Rightarrow> client \<Rightarrow> bool" where
  "reaches mj s env c \<longleftrightarrow> HttpTransport (HttpClient c) = Supplied \<and> Exchange env Supplied = mock_exchange mj (BaseURL c) s \<and>
     (\<forall>meth url. NewRequest env meth url = Inr ())"

text \<open>What the two ends agree on for one call: the request survives its encoding, and so does a reply.\<close>

definition request_survives :: "client_json \<Rightarrow> mock_json \<Rightarrow> verify_request \<Rightarrow> bool" where
  "request_survives js mj req \<longleftrightarrow> (\<exists>b. EncodeVerify js req = Inr b \<and> DecodeVerifyRequest mj b = Inr req)"

definition response_survives :: "client_json \<Rightarrow> mock_json \<Rightarrow> verify_response \<Rightarrow> bool" where
  "response_survives js mj resp \<longleftrightarrow>
     (\<exists>b. EncodeVerifyResponse mj resp = Inr b \<and> length b \<le> maxResponseBytes \<and> DecodeVerify js b = Inr resp)"

definition error_survives :: "http_env \<Rightarrow> mock_json \<Rightarrow> error_response \<Rightarrow> bool" where
  "error_survives env mj e \<longleftrightarrow>
     (\<exists>b. EncodeErrorResponse mj e = Inr b \<and> length b \<le> maxErrorBodyBytes \<and> UnmarshalErrorResponse env b = Inr e)"

text \<open>An error status that reaches the caller with its body.\<close>

definition error_status :: "int \<Rightarrow> bool" where
  "error_status st \<longleftrightarrow> 300 \<le> st \<and> st \<le> 999 \<and> st \<noteq> 304"

lemma cut_prefix_append [simp]: "cut_prefix p (p @ r) = Some r"
  by (subst cut_prefix_eq_Some) (rule refl)

lemma client_Verify_stub:
  assumes "reaches mj s env c" and "EncodeVerify js req = Inr b" and "DecodeVerifyRequest mj b = Inr req"
  shows "client_Verify js env c req =
    (case fst (handleVerify mj b s) of
       Inl e \<Rightarrow> Inl (RequestError (Errorf ''EOF''))
     | Inr r \<Rightarrow>
         (if MrStatus r < 200 \<or> 300 \<le> MrStatus r then
            (case UnmarshalErrorResponse env (take maxErrorBodyBytes (MrBody r)) of
               Inr e \<Rightarrow> Inl (APIError (MrStatus r) e)
             | Inl _ \<Rightarrow> Inl (UnexpectedError (MrStatus r) (take maxErrorBodyBytes (MrBody r))))
          else (case DecodeVerify js (take maxResponseBytes (MrBody r)) of Inl e \<Rightarrow> Inl (OtherError e) | Inr out \<Rightarrow> Inr out)))"
  using assms
  by (simp add: client_Verify_def postJSON_def doAndDecode_def http_do_def reaches_def mock_exchange_def
      mock_handler_def Let_def split: sum.split)

lemma handleVerify_recorded:
  "DecodeVerifyRequest mj b = Inr req \<Longrightarrow> StVerify (snd (handleVerify mj b s)) = StVerify s @ [req]"
  by (simp add: handleVerify_def)

lemma WriteHeader_error [simp]: "error_status st \<Longrightarrow> WriteHeader st = Inr st \<and> write_body st b = b"
  by (auto simp: error_status_def WriteHeader_def write_body_def)

lemma stub_verdict_call:
  assumes "reaches mj s env c" and "request_survives js mj req" and "ErStatus (StVerifyErr s) = 0"
    and "response_survives js mj (stub_response (StVerdict s) req)"
  shows "client_Verify js env c req = Inr (stub_response (StVerdict s) req)"
  using assms
  by (auto simp: request_survives_def response_survives_def client_Verify_stub handleVerify_def writeJSON_def written_def)

lemma stub_error_call:
  assumes "reaches mj s env c" and "request_survives js mj req" and "error_status (ErStatus (StVerifyErr s))"
    and "ErCode (StVerifyErr s) \<noteq> []"
    and "error_survives env mj \<lparr>ErrError = ErCode (StVerifyErr s), ErrMessage = ErText (StVerifyErr s)\<rparr>"
  shows "client_Verify js env c req =
    Inl (APIError (ErStatus (StVerifyErr s)) \<lparr>ErrError = ErCode (StVerifyErr s), ErrMessage = ErText (StVerifyErr s)\<rparr>)"
proof -
  from assms(3) have "300 \<le> ErStatus (StVerifyErr s)" by (simp add: error_status_def)
  with assms show ?thesis
    by (auto simp: request_survives_def error_survives_def client_Verify_stub handleVerify_def writeError_def written_def)
qed

text \<open>
  A plain-text refusal is an \<open>UnexpectedError\<close> only when its message is not JSON that decodes as an error
  response: the caller does not look at the content type.
\<close>

lemma stub_text_call:
  assumes "reaches mj s env c" and "request_survives js mj req" and "error_status (ErStatus (StVerifyErr s))"
    and "ErCode (StVerifyErr s) = []"
  shows "client_Verify js env c req =
    Inl (let text = take maxErrorBodyBytes (bytes_of_string (ErText (StVerifyErr s))) in
         case UnmarshalErrorResponse env text of
           Inr e \<Rightarrow> APIError (ErStatus (StVerifyErr s)) e
         | Inl _ \<Rightarrow> UnexpectedError (ErStatus (StVerifyErr s)) text)"
proof -
  from assms(3) have "300 \<le> ErStatus (StVerifyErr s)" by (simp add: error_status_def)
  with assms show ?thesis
    by (auto simp: request_survives_def client_Verify_stub handleVerify_def writeError_def Let_def split: sum.split)
qed

section \<open>Properties\<close>

text \<open>What any stub answers, spelled out.\<close>

lemma mock_answers:
  "fst (mock_handler mj ''GET'' ''/health'' body s) = Inr \<lparr>MrStatus = 200, MrContentType = ''application/json'', MrBody = written (EncodeHealthResponse mj
       \<lparr>HealthStatus = ''ok'', HealthPlatform = Some (StPlatform s),
        HealthCache = \<lparr>VcekEntries = 0, ChainEntries = 0, LastCrlRefresh = None\<rparr>, HealthTokenIssuer = False\<rparr>)\<rparr>"
  "(\<forall>req ev. DecodeAttestRequest mj body = Inr req \<longrightarrow>
     MarshalSnpEvidence mj \<lparr>AttestationReport = std_encode
       ((replicate 80 0)[0 := 2, 10 := 3] @ pad (AttReportData req) 64 @ replicate 1040 0), CertChain = None\<rparr> = Inr ev \<longrightarrow>
     fst (mock_handler mj ''POST'' ''/attest'' body s) =
       Inr \<lparr>MrStatus = 200, MrContentType = ''application/json'', MrBody = written (EncodeAttestResponse mj
         \<lparr>AttRespPlatform = (if AttPlatform req = [] \<or> AttPlatform req = ''auto'' then (StPlatform s) else AttPlatform req),
          AttRespEvidence = ev\<rparr>)\<rparr>)"
  "(\<forall>req. DecodeVerifyRequest mj body = Inr req \<longrightarrow> ErStatus (StVerifyErr s) = 0 \<longrightarrow>
     fst (mock_handler mj ''POST'' ''/verify'' body s) =
       Inr \<lparr>MrStatus = 200, MrContentType = ''application/json'', MrBody = written (EncodeVerifyResponse mj
         \<lparr>RespResult = zero_result\<lparr>ResPlatform := ReqPlatform req, SignatureValid := VdSignatureValid (StVerdict s),
            ReportDataMatch := VdReportDataMatch (StVerdict s), InitDataMatch := VdInitDataMatch (StVerdict s), Claims := VdClaims (StVerdict s)\<rparr>,
          RespToken = None\<rparr>)\<rparr>)"
  "(\<forall>req. DecodeVerifyRequest mj body = Inr req \<longrightarrow> 200 \<le> ErStatus (StVerifyErr s) \<and> ErStatus (StVerifyErr s) \<le> 999 \<longrightarrow>
     fst (mock_handler mj ''POST'' ''/verify'' body s) =
       Inr \<lparr>MrStatus = ErStatus (StVerifyErr s),
         MrContentType = (if ErCode (StVerifyErr s) = [] then ''text/plain; charset=utf-8'' else ''application/json''),
         MrBody = (if ErStatus (StVerifyErr s) = 204 \<or> ErStatus (StVerifyErr s) = 304 then []
           else if ErCode (StVerifyErr s) = [] then bytes_of_string (ErText (StVerifyErr s))
           else written (EncodeErrorResponse mj \<lparr>ErrError = ErCode (StVerifyErr s), ErrMessage = ErText (StVerifyErr s)\<rparr>))\<rparr>)"
  "(\<forall>de. DecodeVerifyRequest mj body = Inl de \<longrightarrow>
     (\<exists>text. fst (mock_handler mj ''POST'' ''/verify'' body s) =
       Inr \<lparr>MrStatus = (case de of UnmarshalTypeError _ \<Rightarrow> 422 | OtherDecodeError _ \<Rightarrow> 400),
         MrContentType = ''text/plain; charset=utf-8'', MrBody = text\<rparr>))"
proof -
  show "(\<forall>req ev. DecodeAttestRequest mj body = Inr req \<longrightarrow>
     MarshalSnpEvidence mj \<lparr>AttestationReport = std_encode
       ((replicate 80 0)[0 := 2, 10 := 3] @ pad (AttReportData req) 64 @ replicate 1040 0), CertChain = None\<rparr> = Inr ev \<longrightarrow>
     fst (mock_handler mj ''POST'' ''/attest'' body s) =
       Inr \<lparr>MrStatus = 200, MrContentType = ''application/json'', MrBody = written (EncodeAttestResponse mj
         \<lparr>AttRespPlatform = (if AttPlatform req = [] \<or> AttPlatform req = ''auto'' then (StPlatform s) else AttPlatform req),
          AttRespEvidence = ev\<rparr>)\<rparr>)"
    by (auto simp: mock_handler_def handleAttest_def FakeSNPEvidence_def FakeSNPReport_parts writeJSON_def Let_def)
qed (auto simp: mock_handler_def handleHealth_def handleVerify_def writeJSON_def writeError_def stub_response_def
    undecodableBody_def WriteHeader_def write_body_def split: decode_error.split)

text \<open>
  C29: a stub is its history. After any sequence of setter calls and requests it has recorded, in order and
  once each, exactly the POST bodies that decoded, those of \<open>/verify\<close> also when it was told to refuse
  them, and it answers with what was set last, or what it started with: \<open>/health\<close> with the platform;
  \<open>/attest\<close> with the platform the request names, or this one when it names none or asks for any, and the
  encoding of the fake report with the request's data; \<open>/verify\<close> with the verdict for the platform of
  the request, or with the status, the code and the message of the error when one is set whose status
  is between 200 and 999; a body of \<open>/verify\<close> that does not decode is refused with 422 or 400 whatever was set.
\<close>

theorem mock_run_exact:
  fixes ops :: "mock_op list"
  defines "v \<equiv> last (PassingVerdict [] # List.map_filter set_verdict_op ops)"
    and "e \<equiv> last (\<lparr>ErStatus = 0, ErCode = [], ErText = []\<rparr> # List.map_filter set_error_op ops)"
    and "p \<equiv> last (PlatformSNP # List.map_filter set_platform_op ops)"
  shows "mock_run mj ops =
     \<lparr>StVerdict = v, StVerifyErr = e, StPlatform = p,
      StAttest = concat (map (attest_recorded mj) ops), StVerify = concat (map (verify_recorded mj) ops)\<rparr> \<and>
   fst (mock_handler mj ''GET'' ''/health'' body (mock_run mj ops)) = Inr \<lparr>MrStatus = 200, MrContentType = ''application/json'', MrBody = written (EncodeHealthResponse mj
       \<lparr>HealthStatus = ''ok'', HealthPlatform = Some p,
        HealthCache = \<lparr>VcekEntries = 0, ChainEntries = 0, LastCrlRefresh = None\<rparr>, HealthTokenIssuer = False\<rparr>)\<rparr> \<and>
   (\<forall>req ev. DecodeAttestRequest mj body = Inr req \<longrightarrow>
     MarshalSnpEvidence mj \<lparr>AttestationReport = std_encode
       ((replicate 80 0)[0 := 2, 10 := 3] @ pad (AttReportData req) 64 @ replicate 1040 0), CertChain = None\<rparr> = Inr ev \<longrightarrow>
     fst (mock_handler mj ''POST'' ''/attest'' body (mock_run mj ops)) =
       Inr \<lparr>MrStatus = 200, MrContentType = ''application/json'', MrBody = written (EncodeAttestResponse mj
         \<lparr>AttRespPlatform = (if AttPlatform req = [] \<or> AttPlatform req = ''auto'' then p else AttPlatform req),
          AttRespEvidence = ev\<rparr>)\<rparr>) \<and>
   (\<forall>req. DecodeVerifyRequest mj body = Inr req \<longrightarrow> ErStatus e = 0 \<longrightarrow>
     fst (mock_handler mj ''POST'' ''/verify'' body (mock_run mj ops)) =
       Inr \<lparr>MrStatus = 200, MrContentType = ''application/json'', MrBody = written (EncodeVerifyResponse mj
         \<lparr>RespResult = zero_result\<lparr>ResPlatform := ReqPlatform req, SignatureValid := VdSignatureValid v,
            ReportDataMatch := VdReportDataMatch v, InitDataMatch := VdInitDataMatch v, Claims := VdClaims v\<rparr>,
          RespToken = None\<rparr>)\<rparr>) \<and>
   (\<forall>req. DecodeVerifyRequest mj body = Inr req \<longrightarrow> 200 \<le> ErStatus e \<and> ErStatus e \<le> 999 \<longrightarrow>
     fst (mock_handler mj ''POST'' ''/verify'' body (mock_run mj ops)) =
       Inr \<lparr>MrStatus = ErStatus e,
         MrContentType = (if ErCode e = [] then ''text/plain; charset=utf-8'' else ''application/json''),
         MrBody = (if ErStatus e = 204 \<or> ErStatus e = 304 then []
           else if ErCode e = [] then bytes_of_string (ErText e)
           else written (EncodeErrorResponse mj \<lparr>ErrError = ErCode e, ErrMessage = ErText e\<rparr>))\<rparr>) \<and>
   (\<forall>de. DecodeVerifyRequest mj body = Inl de \<longrightarrow>
     (\<exists>text. fst (mock_handler mj ''POST'' ''/verify'' body (mock_run mj ops)) =
       Inr \<lparr>MrStatus = (case de of UnmarshalTypeError _ \<Rightarrow> 422 | OtherDecodeError _ \<Rightarrow> 400),
         MrContentType = ''text/plain; charset=utf-8'', MrBody = text\<rparr>))"
proof -
  have s: "mock_run mj ops = \<lparr>StVerdict = v, StVerifyErr = e, StPlatform = p,
      StAttest = concat (map (attest_recorded mj) ops), StVerify = concat (map (verify_recorded mj) ops)\<rparr>"
    unfolding mock_run_def mock_run_from v_def e_def p_def last_set_def by (simp add: newStub_def)
  then have "StVerdict (mock_run mj ops) = v" "StVerifyErr (mock_run mj ops) = e" "StPlatform (mock_run mj ops) = p"
    by simp_all
  note a = mock_answers [of mj body "mock_run mj ops", unfolded this]
  show ?thesis by (intro conjI s a)
qed

text \<open>
  C28: a program under test sees through the stub what it would see of the service. When the two ends agree
  on the encoding of the request and of the passing reply, \<open>VerifyEvidence\<close> over a client of a stub with a
  passing verdict decides by the pins alone: it accepts exactly when the platform is known, a minimum
  TCB is asked of SEV-SNP only, and the pins hold of claims that carry the launch digest and nothing
  else; what it returns is the stub's verdict for the platform it asked about.
\<close>

theorem stub_passing_decides:
  assumes "reaches mj s env c" and "ErStatus (StVerifyErr s) = 0" and "StVerdict s = PassingVerdict ld"
    and "request_survives js mj (NewVerifyRequestNoToken ev (Some (policy_params pol)))"
    and "response_survives js mj (stub_response (PassingVerdict ld) (NewVerifyRequestNoToken ev (Some (policy_params pol))))"
  shows "VerifyEvidence quote_of (client_service js env c) ev pol = Inr resp \<longleftrightarrow>
      Family (EvPlatform ev) \<noteq> FamilyUnknown \<and> (PolMinTcb pol = None \<or> Family (EvPlatform ev) = FamilySNP) \<and>
      resp = \<lparr>RespResult = zero_result\<lparr>ResPlatform := EvPlatform ev, SignatureValid := True, ReportDataMatch := Some True,
          InitDataMatch := Some True, Claims := zero_claims\<lparr>LaunchDigest := ld\<rparr>\<rparr>, RespToken = None\<rparr> \<and>
      EnforcePinsWithRuntimeLog quote_of resp pol ev [] = Inr ()"
proof -
  let ?req = "NewVerifyRequestNoToken ev (Some (policy_params pol))"
  let ?resp = "stub_response (PassingVerdict ld) ?req"
  have "client_service js env c ?req = Inr ?resp"
    using stub_verdict_call [OF assms(1,4,2)] assms(3,5) by (simp add: client_service_Inr)
  moreover have "?resp = \<lparr>RespResult = zero_result\<lparr>ResPlatform := EvPlatform ev, SignatureValid := True,
      ReportDataMatch := Some True, InitDataMatch := Some True, Claims := zero_claims\<lparr>LaunchDigest := ld\<rparr>\<rparr>, RespToken = None\<rparr>"
    by (simp add: stub_response_def PassingVerdict_def NewVerifyRequestNoToken_def)
  ultimately show ?thesis
    unfolding VerifyEvidence_def VerifyEvidenceWithRuntimeLog_Inr
    by (auto simp: verdict_ok_def)
qed

definition sample_mock_ev :: attestation_evidence where
  "sample_mock_ev = \<lparr>EvPlatform = PlatformSNP, EvEvidence = [9]\<rparr>"

definition sample_mock_pol :: policy where
  "sample_mock_pol = \<lparr>PolReportData = [3], PolAllowDebug = False, PolMinTcb = None, PolImages = [], PolMeasurements = [],
      PolRegisters = [], PolPCRs = [], PolInitDataHash = []\<rparr>"

definition sample_mock_reply :: verify_response where
  "sample_mock_reply = \<lparr>RespResult = zero_result\<lparr>ResPlatform := PlatformSNP, SignatureValid := True,
     ReportDataMatch := Some True, InitDataMatch := Some True, Claims := zero_claims\<lparr>LaunchDigest := []\<rparr>\<rparr>, RespToken = None\<rparr>"

definition sample_mock_json :: mock_json where
  "sample_mock_json = \<lparr>DecodeAttestRequest = (\<lambda>b. Inl (OtherDecodeError [])),
     DecodeVerifyRequest = (\<lambda>b. if b = [2] then Inr (NewVerifyRequestNoToken sample_mock_ev (Some (policy_params sample_mock_pol)))
       else Inl (OtherDecodeError [])),
     EncodeHealthResponse = (\<lambda>h. Inr []), EncodeAttestResponse = (\<lambda>a. Inr []), EncodeVerifyResponse = (\<lambda>r. Inr [1]),
     EncodeErrorResponse = (\<lambda>e. Inr []), MarshalSnpEvidence = (\<lambda>e. Inr [])\<rparr>"

text \<open>A request under a verdict, then one under an error that replaces it.\<close>

definition sample_echo_json :: mock_json where
  "sample_echo_json = sample_mock_json\<lparr>
     EncodeVerifyResponse := (\<lambda>r. Inr (bytes_of_string (LaunchDigest (Claims (RespResult r))))),
     EncodeErrorResponse := (\<lambda>e. Inr (bytes_of_string (ErrMessage e)))\<rparr>"

theorem mock_run_exact_witness:
  "fst (mock_handler sample_echo_json ''POST'' ''/verify'' [2]
      (mock_run sample_echo_json [MockSetVerdict (PassingVerdict ''ab'')])) =
    Inr \<lparr>MrStatus = 200, MrContentType = ''application/json'', MrBody = bytes_of_string ''ab''\<rparr> \<and>
   fst (mock_handler sample_echo_json ''POST'' ''/verify'' [2]
      (mock_run sample_echo_json [MockSetVerdict (PassingVerdict ''ab''), MockRequest ''POST'' ''/verify'' [2],
         MockSetVerifyError (VerificationFailed ''no'')])) =
    Inr \<lparr>MrStatus = 422, MrContentType = ''application/json'', MrBody = bytes_of_string ''no''\<rparr> \<and>
   StVerify (mock_run sample_echo_json [MockSetVerdict (PassingVerdict ''ab''), MockRequest ''POST'' ''/verify'' [2],
         MockSetVerifyError (VerificationFailed ''no'')]) =
     [NewVerifyRequestNoToken sample_mock_ev (Some (policy_params sample_mock_pol))]"
proof -
  have d: "DecodeVerifyRequest sample_echo_json [2] = Inr (NewVerifyRequestNoToken sample_mock_ev (Some (policy_params sample_mock_pol)))"
    by (simp add: sample_echo_json_def sample_mock_json_def)
  have j: "EncodeVerifyResponse sample_echo_json r = Inr (bytes_of_string (LaunchDigest (Claims (RespResult r))))"
    "EncodeErrorResponse sample_echo_json x = Inr (bytes_of_string (ErrMessage x))" for r x
    by (simp_all add: sample_echo_json_def)
  note runs = mock_run_exact [of sample_echo_json "[MockSetVerdict (PassingVerdict ''ab'')]" "[2]"]
    mock_run_exact [of sample_echo_json "[MockSetVerdict (PassingVerdict ''ab''), MockRequest ''POST'' ''/verify'' [2],
         MockSetVerifyError (VerificationFailed ''no'')]" "[2]"]
  note eval = d j List.map_filter_simps set_verdict_op_def set_error_op_def set_platform_op_def verify_recorded_def
    attest_recorded_def written_def PassingVerdict_def VerificationFailed_def
  show ?thesis
  proof (intro conjI)
    show "fst (mock_handler sample_echo_json ''POST'' ''/verify'' [2]
        (mock_run sample_echo_json [MockSetVerdict (PassingVerdict ''ab'')])) =
      Inr \<lparr>MrStatus = 200, MrContentType = ''application/json'', MrBody = bytes_of_string ''ab''\<rparr>"
      using runs(1) [THEN conjunct2, THEN conjunct2, THEN conjunct2, THEN conjunct1, rule_format, OF d]
      by (simp add: eval)
    show "fst (mock_handler sample_echo_json ''POST'' ''/verify'' [2]
        (mock_run sample_echo_json [MockSetVerdict (PassingVerdict ''ab''), MockRequest ''POST'' ''/verify'' [2],
           MockSetVerifyError (VerificationFailed ''no'')])) =
      Inr \<lparr>MrStatus = 422, MrContentType = ''application/json'', MrBody = bytes_of_string ''no''\<rparr>"
      using runs(2) [THEN conjunct2, THEN conjunct2, THEN conjunct2, THEN conjunct2, THEN conjunct1, rule_format, OF d]
      by (simp add: eval)
  qed (subst runs(2) [THEN conjunct1], simp add: eval)
qed

definition sample_mock_client_json :: client_json where
  "sample_mock_client_json = sample_client_json\<lparr>DecodeVerify := (\<lambda>b. if b = [1] then Inr sample_mock_reply else Inl (Errorf ''json''))\<rparr>"

definition sample_mock_client :: client where
  "sample_mock_client = NewClient ''http://127.0.0.1:8080/''"

definition sample_mock_env :: http_env where
  "sample_mock_env = sample_http_env\<lparr>Exchange := (\<lambda>t. mock_exchange sample_mock_json ''http://127.0.0.1:8080'' newStub)\<rparr>"

lemma sample_mock_client_eq: "sample_mock_client = \<lparr>BaseURL = ''http://127.0.0.1:8080'',
    HttpClient = \<lparr>HttpTimeout = requestTimeout, HttpTransport = Supplied\<rparr>\<rparr>"
  by (simp add: sample_mock_client_def NewClient_def NewClientWithHTTP_def cut_prefix_def has_prefix_def strip_trailing_def)

theorem stub_passing_decides_witness:
  "VerifyEvidence (\<lambda>_. Inr None) (client_service sample_mock_client_json sample_mock_env sample_mock_client) sample_mock_ev
     sample_mock_pol = Inr sample_mock_reply"
proof (subst stub_passing_decides [where mj = sample_mock_json and s = newStub and ld = "[]"])
  show "reaches sample_mock_json newStub sample_mock_env sample_mock_client"
    by (simp add: reaches_def sample_mock_client_eq sample_mock_env_def sample_http_env_def)
  show "request_survives sample_mock_client_json sample_mock_json
      (NewVerifyRequestNoToken sample_mock_ev (Some (policy_params sample_mock_pol)))"
    by (simp add: request_survives_def sample_mock_client_json_def sample_client_json_def sample_mock_json_def)
  show "response_survives sample_mock_client_json sample_mock_json (stub_response (PassingVerdict [])
      (NewVerifyRequestNoToken sample_mock_ev (Some (policy_params sample_mock_pol))))"
    by (simp add: response_survives_def sample_mock_client_json_def sample_client_json_def sample_mock_json_def
        stub_response_def PassingVerdict_def NewVerifyRequestNoToken_def sample_mock_reply_def sample_mock_ev_def)
qed (simp_all add: newStub_def sample_mock_ev_def sample_mock_pol_def sample_mock_reply_def EnforcePinsWithRuntimeLog_Inr
    flat_pins_hold_def pcr_pins_hold_def platform_agrees_def EnforceLaunchMeasurement_def)

end
