(* ===== verification/Trust.thy ===== *)
theory Trust
  imports RefConfig HwCommon
begin

text \<open>
  The keys and roots the library parses itself: approver keys (\<open>runtimemeasure/publickey.go\<close>), the pinned
  Intel root (\<open>attestation/internal/tdxtrust/roots.go\<close>), and the one-call TDX launch measurement
  (\<open>launchmeasure/tdx/tdx.go\<close>). With the key parser in place of the reference configuration's parameter,
  the theory states what every loaded configuration satisfies.

  \<open>encoding/pem\<close>, \<open>crypto/x509\<close> and gce-tcb-verifier are the record \<open>pki_lib\<close>; a certificate is what the
  code reads of it. A certificate pool is the list of its certificates, a value, so a clone is the pool.
\<close>

section \<open>The library\<close>

record pem_block =
  PemType :: string
  PemHeaders :: "(string \<times> string) list"
  PemBytes :: bytes

record x509_cert =
  CertCommonName :: string
  CertIsCA :: bool
  CertRaw :: bytes

datatype curve = P256 | OtherCurve

datatype 'k pkix_key = EcdsaKey curve 'k | OtherKey

record 'k pki_lib =
  PemDecode :: "bytes \<Rightarrow> (pem_block \<times> bytes) option"
  ParsePKIXPublicKey :: "bytes \<Rightarrow> err + 'k pkix_key"
  ParseCertificate :: "bytes \<Rightarrow> err + x509_cert"
  CheckSignatureFrom :: "x509_cert \<Rightarrow> x509_cert \<Rightarrow> err + unit"
  GceTdxMRTD :: "bytes \<Rightarrow> err + bytes"

section \<open>Approver keys\<close>

definition ParsePublicKeyPEM :: "'k pki_lib \<Rightarrow> bytes \<Rightarrow> err + 'k" where
  "ParsePublicKeyPEM lib key =
     (case PemDecode lib key of
        None \<Rightarrow> Inl (Errorf ''want one PEM PUBLIC KEY'')
      | Some (block, rest) \<Rightarrow>
          (if PemType block \<noteq> ''PUBLIC KEY'' \<or> length (PemHeaders block) \<noteq> 0 \<or>
              length (trim_space (string_of_bytes rest)) \<noteq> 0
           then Inl (Errorf ''want one PEM PUBLIC KEY'')
           else
             bindr (ParsePKIXPublicKey lib (PemBytes block)) (\<lambda>pub.
             case pub of
               EcdsaKey P256 ec \<Rightarrow> Inr ec
             | _ \<Rightarrow> Inl (Errorf ''want an ECDSA P-256 key''))))"

definition p256_pem :: "'k pki_lib \<Rightarrow> bytes \<Rightarrow> bool" where
  "p256_pem lib key \<longleftrightarrow> (case ParsePublicKeyPEM lib key of Inl _ \<Rightarrow> False | Inr _ \<Rightarrow> True)"

section \<open>The Intel root\<close>

definition IntelSGXRootCAFingerprintSHA256 :: string where
  "IntelSGXRootCAFingerprintSHA256 = ''44a0196b2b99f889b8e149e95b807a350e7424964399e885a7cbb8ccfab674d3''"

definition parseIntelSGXRootCA :: "'k pki_lib \<Rightarrow> bytes \<Rightarrow> err + x509_cert list" where
  "parseIntelSGXRootCA lib certPEM =
     (case PemDecode lib certPEM of
        None \<Rightarrow> Inl (Errorf ''not a PEM CERTIFICATE'')
      | Some (block, rest) \<Rightarrow>
          (if PemType block \<noteq> ''CERTIFICATE'' then Inl (Errorf ''not a PEM CERTIFICATE'')
           else if length (trim_space (string_of_bytes rest)) \<noteq> 0 then Inl (Errorf ''trailing PEM data'')
           else
             bindr (wrap_err (Errorf ''parse embedded Intel SGX root'') (ParseCertificate lib (PemBytes block))) (\<lambda>cert.
             if CertCommonName cert \<noteq> ''Intel SGX Root CA'' \<or> \<not> CertIsCA cert then Inl (Errorf ''unexpected identity'')
             else
               bindr (wrap_err (Errorf ''not self-signed'') (CheckSignatureFrom lib cert cert)) (\<lambda>_.
               if hex_encode (sha256 (CertRaw cert)) \<noteq> IntelSGXRootCAFingerprintSHA256 then Inl (Errorf ''fingerprint'')
               else Inr [cert]))))"

text \<open>The package parses its embedded file once and hands out clones of the pool, or its error.\<close>

definition pinned_root_pool :: "'k pki_lib \<Rightarrow> bytes \<Rightarrow> err + x509_cert list" where
  "pinned_root_pool lib intelSGXRootCAPEM = parseIntelSGXRootCA lib intelSGXRootCAPEM"

section \<open>The TDX launch measurement\<close>

definition MRTD :: "'k pki_lib \<Rightarrow> bytes \<Rightarrow> err + bytes" where
  "MRTD lib firmware = wrap_err (Errorf ''compute MRTD'') (GceTdxMRTD lib firmware)"

section \<open>Lemmas\<close>

lemma ParsePublicKeyPEM_Inr:
  "ParsePublicKeyPEM lib key = Inr ec \<longleftrightarrow>
     (\<exists>block rest. PemDecode lib key = Some (block, rest) \<and> PemType block = ''PUBLIC KEY'' \<and> PemHeaders block = [] \<and>
        trim_space (string_of_bytes rest) = [] \<and> ParsePKIXPublicKey lib (PemBytes block) = Inr (EcdsaKey P256 ec))"
proof -
  have "(case pub of EcdsaKey P256 ec \<Rightarrow> Inr ec | _ \<Rightarrow> Inl e) = Inr ec \<longleftrightarrow> pub = EcdsaKey P256 ec"
    for pub :: "'a pkix_key" and e :: err
    by (auto split: pkix_key.splits curve.splits)
  then show ?thesis by (auto simp: ParsePublicKeyPEM_def split: option.splits if_splits)
qed

lemma p256_pem_iff: "p256_pem lib key \<longleftrightarrow> (\<exists>ec. ParsePublicKeyPEM lib key = Inr ec)"
  by (auto simp: p256_pem_def split: sum.splits)

lemma parseIntelSGXRootCA_Inr:
  "parseIntelSGXRootCA lib pem = Inr pool \<longleftrightarrow>
     (\<exists>block rest cert. PemDecode lib pem = Some (block, rest) \<and> PemType block = ''CERTIFICATE'' \<and>
        trim_space (string_of_bytes rest) = [] \<and> ParseCertificate lib (PemBytes block) = Inr cert \<and>
        CertCommonName cert = ''Intel SGX Root CA'' \<and> CertIsCA cert \<and> CheckSignatureFrom lib cert cert = Inr () \<and>
        hex_encode (sha256 (CertRaw cert)) = IntelSGXRootCAFingerprintSHA256 \<and> pool = [cert])"
  by (auto simp: parseIntelSGXRootCA_def split: option.splits if_splits)

text \<open>Two files that load hold the same certificate, byte for byte, or a SHA-256 collision.\<close>

lemma pinned_root_unique:
  assumes "pinned_root_pool lib pem = Inr pool" and "pinned_root_pool lib' pem' = Inr pool'"
  shows "(\<exists>cert cert'. pool = [cert] \<and> pool' = [cert'] \<and> CertRaw cert = CertRaw cert') \<or>
    (\<exists>cert cert'. pool = [cert] \<and> pool' = [cert'] \<and> collision_in sha256 [CertRaw cert, CertRaw cert'])"
proof -
  from assms obtain cert cert' where c: "pool = [cert]" "pool' = [cert']"
    "hex_encode (sha256 (CertRaw cert)) = IntelSGXRootCAFingerprintSHA256"
    "hex_encode (sha256 (CertRaw cert')) = IntelSGXRootCAFingerprintSHA256"
    unfolding pinned_root_pool_def parseIntelSGXRootCA_Inr by blast
  then have "sha256 (CertRaw cert) = sha256 (CertRaw cert')" by (metis hex_encode_inj)
  with c(1,2)
  show ?thesis
    using collision_inI [of "CertRaw cert" "[CertRaw cert, CertRaw cert']" "CertRaw cert'" sha256] by auto
qed

section \<open>What loads from a reference configuration\<close>

text \<open>A pin as validation leaves it: one launch measurement, registers of TDX only, at most one launch binding.\<close>

definition registers_ok :: "family \<Rightarrow> pins \<Rightarrow> bool" where
  "registers_ok fam regs \<longleftrightarrow>
     distinct (map fst regs) \<and>
     list_all (\<lambda>(i, d). fam = FamilyTDX \<and> 1 \<le> i \<and> i < int maxRTMRs \<and> length d = DigestSize) regs"

definition binding_ok :: "'k pki_lib \<Rightarrow> family \<Rightarrow> image_pin \<Rightarrow> bool" where
  "binding_ok lib fam img \<longleftrightarrow>
     (case (ImgAnchor img, ImgLaunchFile img, ImgLaunchFileDigest img) of
        (None, None, None) \<Rightarrow> True
      | (Some key, None, None) \<Rightarrow> (\<exists>ec. ParsePublicKeyPEM lib key = Inr ec)
      | (None, Some content, None) \<Rightarrow> content \<noteq> []
      | (None, None, Some d) \<Rightarrow> launch_digest_ok fam d
      | _ \<Rightarrow> False)"

definition loaded_image_ok :: "'k pki_lib \<Rightarrow> family \<Rightarrow> image_pin \<Rightarrow> bool" where
  "loaded_image_ok lib fam img \<longleftrightarrow>
     trim_space (ImgName img) \<noteq> [] \<and> length (ImgDigest img) = DigestSize \<and> registers_ok fam (ImgRegisters img) \<and>
     binding_ok lib fam img \<and> ImgAccept img = None"

lemma rtmr_entries_ok:
  "rtmr_entries idx es out = Inr regs \<Longrightarrow> registers_ok FamilyTDX out \<Longrightarrow> list_all (\<lambda>(i, _). i < int idx) out \<Longrightarrow>
     idx + length es \<le> maxRTMRs \<Longrightarrow> registers_ok FamilyTDX regs"
proof (induction idx es out rule: rtmr_entries.induct)
  case (2 idx rest out)
  moreover have "list_all (\<lambda>(i, _). i < int (Suc idx)) out" using "2.prems"(3) by (auto simp: list_all_iff)
  ultimately show ?case by simp
next
  case (3 idx v rest out)
  have fresh: "int idx \<notin> fst ` set out" and below: "list_all (\<lambda>(i, _). i < int (Suc idx)) ((int idx, d) # out)" for d :: bytes
    using "3.prems"(3) by (auto simp: list_all_iff)
  have idx: "idx \<noteq> 0" using "3.prems"(1) by (simp split: if_splits)
  have ok: "registers_ok FamilyTDX ((int idx, d) # out)" if "length d = DigestSize" for d
    using that fresh idx "3.prems"(2,4) by (auto simp: registers_ok_def)
  show ?case
  proof (cases "v = []")
    case True
    with "3.prems"(1,4) idx show ?thesis by (intro "3.IH"(1) ok below) auto
  next
    case False
    with "3.prems"(1) idx obtain d where d: "cfg_decodeRegister v = Inr d"
      "rtmr_entries (Suc idx) rest ((int idx, d) # out) = Inr regs" by auto
    from False idx "3.prems"(4) d show ?thesis
      by (intro "3.IH"(2) [of d] ok below) (auto simp: cfg_decodeRegister_Inr)
  qed
qed simp

lemma decodeRTMRs_ok: "decodeRTMRs raw = Inr regs \<Longrightarrow> registers_ok FamilyTDX regs"
  using rtmr_entries_ok [of 0 "case raw of None \<Rightarrow> [] | Some es \<Rightarrow> es" "[]" regs]
  by (auto simp: decodeRTMRs_def Let_def registers_ok_def split: if_splits)

lemma bytes_of_string_Nil [simp]: "bytes_of_string s = [] \<longleftrightarrow> s = []"
  by (simp add: bytes_of_string_def)

lemma wire_image_loaded:
  assumes "wire_image_validate (p256_pem lib) fam we = Inr img"
  shows "loaded_image_ok lib fam img"
proof -
  from assms obtain d regs where pin: "pinLaunchBinding (p256_pem lib) we (new_image (WName we) d regs) fam = Inr img"
    and len: "length d = Size"
    and shape: "fam = FamilySNP \<and> WMeasurement we = Some (hex_encode d) \<and> regs = [] \<or>
       fam = FamilyTDX \<and> WMRTD we = Some (hex_encode d) \<and> decodeRTMRs (WRTMR we) = Inr regs"
    by (rule wire_image_validate_Inr)
  have name: "trim_space (WName we) \<noteq> []" using assms by (simp add: wire_image_validate_def split: if_splits)
  have regs: "registers_ok fam regs" using shape decodeRTMRs_ok by (auto simp: registers_ok_def)
  have "binding_ok lib fam img"
    using pin by (cases rule: pinLaunchBinding_cases)
      (auto simp: binding_ok_def p256_pem_iff launchBytes_def ParseLaunchFileDigest_def split: if_splits)
  with pinLaunchBinding_keeps [OF pin] name len regs show ?thesis by (simp add: loaded_image_ok_def)
qed

section \<open>Properties\<close>

text \<open>
  C26: what a configuration that loads holds. Its family is known, it names at least one image, no two
  images share a name or pin the same tuple, and each image has a name, one 48-byte launch measurement,
  registers only on TDX and only of index 1 to 3, each once and 48 bytes, and at most one launch
  binding: an approver key that is one headerless PEM block of a P-256 key with nothing but white space
  after it, a launch file that is not empty, or a launch-file digest valid for the family. It accepts
  no runtime extension.
\<close>

theorem loaded_config_wf:
  assumes "cfg_Parse J (p256_pem lib) data = Inr rv"
  shows "RvFamily rv \<noteq> FamilyUnknown \<and> RvImages rv \<noteq> [] \<and> distinct (map ImgName (RvImages rv)) \<and>
    distinct (map tupleKey (RvImages rv)) \<and> list_all (loaded_image_ok lib (RvFamily rv)) (RvImages rv)"
proof -
  from assms obtain f where v: "wire_validate (p256_pem lib) f False = Inr rv"
    by (auto simp: cfg_Parse_def cfg_parse_def split: if_splits)
  note w = wire_validate_Inr [OF v]
  have all: "list_all (loaded_image_ok lib (RvFamily rv)) (RvImages rv)"
    using w(2) by (auto simp: list_all_length list_all2_conv_all_nth intro!: wire_image_loaded)
  moreover have "RvFamily rv \<noteq> FamilyUnknown"
  proof
    assume "RvFamily rv = FamilyUnknown"
    moreover from w(2,5) obtain we img where "wire_image_validate (p256_pem lib) (RvFamily rv) we = Inr img"
      by (cases "RvImages rv") (auto simp: list_all2_Cons2)
    ultimately show False by (auto simp: wire_image_validate_def split: if_splits)
  qed
  ultimately show ?thesis using w(3,4,5) by simp
qed

text \<open>A document with one image that pins an approver key.\<close>

definition sample_pki :: "nat pki_lib" where
  "sample_pki = \<lparr>PemDecode = (\<lambda>b. Some (\<lparr>PemType = ''PUBLIC KEY'', PemHeaders = [], PemBytes = [1]\<rparr>, [10])),
     ParsePKIXPublicKey = (\<lambda>b. Inr (EcdsaKey P256 7)), ParseCertificate = (\<lambda>b. Inl (Errorf ''no certificate'')),
     CheckSignatureFrom = (\<lambda>c d. Inl (Errorf ''no signature'')), GceTdxMRTD = (\<lambda>f. Inl (Errorf ''no firmware''))\<rparr>"

definition keyed_wire :: wire where
  "keyed_wire = \<lparr>WSchemaVersion = schemaVersion1, WTEE = ''sev-snp'', WMeasurements =
     [\<lparr>WName = ''a'', WMeasurement = Some (hex_encode (replicate 48 1)), WMRTD = None, WRTMR = None,
        WApproverKey = Some (JString ''key''), WLaunchFile = None, WLaunchFileDigest = None\<rparr>]\<rparr>"

definition keyed_image :: image_pin where
  "keyed_image = (new_image ''a'' (replicate 48 1) [])\<lparr>ImgAnchor := Some (bytes_of_string ''key'')\<rparr>"

lemma keyed_parses: "cfg_Parse (one_doc keyed_wire) (p256_pem sample_pki) [] = Inr \<lparr>RvFamily = FamilySNP, RvImages = [keyed_image]\<rparr>"
proof -
  have t: "trim_space ''a'' \<noteq> []" "trim_space (string_of_bytes [10]) = []" "utf8_valid ''a''" "utf8_valid ''key''" "utf8_valid ''sev-snp''" by code_simp+
  have "p256_pem sample_pki key" for key
    using t(2) by (simp add: p256_pem_def ParsePublicKeyPEM_def sample_pki_def)
  then have i: "wire_image_validate (p256_pem sample_pki) FamilySNP \<lparr>WName = ''a'', WMeasurement = Some (hex_encode (replicate 48 1)),
      WMRTD = None, WRTMR = None, WApproverKey = Some (JString ''key''), WLaunchFile = None, WLaunchFileDigest = None\<rparr> = Inr keyed_image"
    using t(1) by (simp add: wire_image_validate_def cfg_decodeRegister_hex pinLaunchBinding_def isJSONNull_def launchBytes_def
        unmarshal_text_def keyed_image_def)
  have r: "json_round keyed_wire = keyed_wire"
    using t by (simp add: json_round_def keyed_wire_def round_image_def coerce_valid round_raw_def)
  have "wire_validate (p256_pem sample_pki) keyed_wire False = Inr \<lparr>RvFamily = FamilySNP, RvImages = [keyed_image]\<rparr>"
    using i by (simp add: wire_validate_def keyed_wire_def ParseFamily_SNP Let_def checkLaunchFileSchema_def
        pinsLaunchFile_def) (simp add: keyed_image_def)
  then show ?thesis
    using one_doc_faithful [of keyed_wire]
    by (simp add: cfg_Parse_def cfg_parse_def json_faithful_def one_doc_def r)
qed

theorem loaded_config_wf_witness:
  "loaded_image_ok sample_pki FamilySNP keyed_image"
  using loaded_config_wf [OF keyed_parses] by simp

end
