(* ===== verification/Ffi.thy ===== *)
theory Ffi
  imports Gce
begin

text \<open>
  The C entry point of \<open>cmd/ffi/main.go\<close>: buffers from C, the verification of \<open>Gce\<close>, and a text with a
  length or -1 back.

  A C pointer is the bytes from it to the end of its allocation (of the null pointer none); reading past the end, which C leaves
  undefined, is the error \<open>Panic\<close> here. The length parameters and the returned length are a 32-bit
  \<open>int\<close>. The encoders are the record \<open>ffi_json\<close>: the error object always encodes, and its text is a
  function of the message. Freeing the returned text is the caller's.
\<close>

record 'm ffi_json =
  ErrorText :: "err \<Rightarrow> string"
  MarshalError :: "string \<Rightarrow> bytes"
  ProtoMarshal :: "'m \<Rightarrow> err + bytes"
  StdMarshal :: "'m \<Rightarrow> err + bytes"
  MarshalTexts :: "err \<Rightarrow> err \<Rightarrow> string"

text \<open>
  \<open>C.GoBytes\<close> panics on a negative length; \<open>C.GoString\<close> reads up to the first zero byte, and nothing from
  the null pointer, which is \<open>None\<close>.
\<close>

definition GoBytes :: "bytes \<Rightarrow> 32 word \<Rightarrow> err + bytes" where
  "GoBytes p n =
     (if sint n < 0 then Inl Panic
      else if length p < nat (sint n) then Inl Panic
      else Inr (take (nat (sint n)) p))"

definition GoString :: "bytes option \<Rightarrow> err + string" where
  "GoString ptr =
     (case ptr of
        None \<Rightarrow> Inr []
      | Some p \<Rightarrow> if 0 \<in> set p then Inr (string_of_bytes (takeWhile (\<lambda>b. b \<noteq> 0) p)) else Inl Panic)"

text \<open>The text without the zero byte \<open>C.CString\<close> appends, and the number returned with it.\<close>

definition VerifyAttestationFFI ::
    "('t, 's, 'x, 'm, 'p, 'k, 'r) gce_lib \<Rightarrow> ('t, 's, 'm) machine_state ffi_json \<Rightarrow>
     bytes \<Rightarrow> 32 word \<Rightarrow> bytes option \<Rightarrow> bytes \<Rightarrow> 32 word \<Rightarrow> bytes \<Rightarrow> 32 word \<Rightarrow> err + (bytes \<times> 32 word)" where
  "VerifyAttestationFFI lib js attestationData attestationLen formatStr nonce nonceLen teeNonce teeNonceLen =
     bindr (GoBytes attestationData attestationLen) (\<lambda>attestationBytes.
     bindr (GoString formatStr) (\<lambda>fmt.
     bindr (GoBytes nonce nonceLen) (\<lambda>nonceBytes.
     bindr (GoBytes teeNonce teeNonceLen) (\<lambda>teeNonceBytes.
     case VerifyAttestation lib attestationBytes fmt nonceBytes teeNonceBytes of
       Inl e \<Rightarrow> Inr (MarshalError js (ErrorText js e), - 1)
     | Inr machineState \<Rightarrow>
         (case ProtoMarshal js machineState of
            Inr jsonBytes \<Rightarrow> Inr (jsonBytes, word_of_nat (length jsonBytes))
          | Inl e \<Rightarrow>
              (case StdMarshal js machineState of
                 Inr jsonBytes2 \<Rightarrow> Inr (jsonBytes2, word_of_nat (length jsonBytes2))
               | Inl e2 \<Rightarrow> Inr (MarshalError js (MarshalTexts js e e2), - 1)))))))"

section \<open>Lemmas\<close>

lemma GoBytes_Inr: "GoBytes p n = Inr b \<longleftrightarrow> 0 \<le> sint n \<and> sint n \<le> int (length p) \<and> b = take (nat (sint n)) p"
  by (auto simp: GoBytes_def)

lemma GoString_terminated:
  assumes "CHR 0x00 \<notin> set s"
  shows "GoString (Some (bytes_of_string s @ 0 # rest)) = Inr s"
proof -
  have "b \<noteq> 0" if "b \<in> set (bytes_of_string s)" for b
  proof
    assume "b = 0"
    with that have "char_of (unat (0 :: byte)) \<in> set (string_of_bytes (bytes_of_string s))"
      unfolding string_of_bytes_def by (auto intro!: image_eqI [of _ _ 0])
    moreover have "char_of (unat (0 :: byte)) = CHR 0x00" by code_simp
    ultimately show False using assms by simp
  qed
  then have "takeWhile (\<lambda>b. b \<noteq> 0) (bytes_of_string s @ 0 # rest) = bytes_of_string s"
    by (simp add: takeWhile_append2)
  then show ?thesis by (simp add: GoString_def)
qed

lemma sint_small: "n < 2 ^ 31 \<Longrightarrow> sint (word_of_nat n :: 32 word) = int n"
  by (simp add: signed_of_nat signed_take_bit_int_eq_self)

lemma sint_code: "sint (- 1 :: 32 word) = - 1"
  by simp

text \<open>The text of a serialised state.\<close>

definition state_text :: "'m ffi_json \<Rightarrow> 'm \<Rightarrow> bytes \<Rightarrow> bool" where
  "state_text js ms text \<longleftrightarrow>
     ProtoMarshal js ms = Inr text \<or> (\<exists>e. ProtoMarshal js ms = Inl e \<and> StdMarshal js ms = Inr text)"

lemma VerifyAttestationFFI_Inr:
  assumes "VerifyAttestationFFI lib js att attLen fs n nLen t tLen = Inr (text, code)"
  obtains b fmt nb tb where "GoBytes att attLen = Inr b" "GoString fs = Inr fmt" "GoBytes n nLen = Inr nb" "GoBytes t tLen = Inr tb"
    and "(\<exists>ms. VerifyAttestation lib b fmt nb tb = Inr ms \<and> state_text js ms text \<and> code = word_of_nat (length text)) \<or>
      code = - 1 \<and> ((\<exists>e. VerifyAttestation lib b fmt nb tb = Inl e \<and> text = MarshalError js (ErrorText js e)) \<or>
        (\<exists>ms. VerifyAttestation lib b fmt nb tb = Inr ms \<and> (\<forall>text. \<not> state_text js ms text)))"
proof -
  from assms obtain b fmt nb tb where g: "GoBytes att attLen = Inr b" "GoString fs = Inr fmt" "GoBytes n nLen = Inr nb"
      "GoBytes t tLen = Inr tb"
    and r: "(case VerifyAttestation lib b fmt nb tb of
       Inl e \<Rightarrow> Inr (MarshalError js (ErrorText js e), - 1)
     | Inr machineState \<Rightarrow>
         (case ProtoMarshal js machineState of
            Inr jsonBytes \<Rightarrow> Inr (jsonBytes, word_of_nat (length jsonBytes))
          | Inl e \<Rightarrow>
              (case StdMarshal js machineState of
                 Inr jsonBytes2 \<Rightarrow> Inr (jsonBytes2, word_of_nat (length jsonBytes2))
               | Inl e2 \<Rightarrow> Inr (MarshalError js (MarshalTexts js e e2), - 1)))) = (Inr (text, code) :: err + _)"
    unfolding VerifyAttestationFFI_def bindr_eq_Inr by (elim exE conjE) (rule that; assumption)
  from r show ?thesis
    by (intro that [OF g]) (auto simp: state_text_def split: sum.splits)
qed

section \<open>Properties\<close>

text \<open>
  C27: what the C caller may conclude from the number. A call that returns read its buffers within
  their lengths, none of them negative. A number other than -1 means that this very attestation was
  verified for these nonces and that the text is the JSON of its machine state. If that JSON is shorter than
  2 GiB, the number is its length, so that the number is negative exactly when the attestation was
  refused or its state had no JSON.
\<close>

theorem ffi_code:
  assumes "VerifyAttestationFFI lib js att attLen fs n nLen t tLen = Inr (text, code)"
  shows "0 \<le> sint attLen \<and> 0 \<le> sint nLen \<and> 0 \<le> sint tLen \<and>
    (\<exists>fmt. GoString fs = Inr fmt \<and>
      (let verdict = VerifyAttestation lib (take (nat (sint attLen)) att) fmt (take (nat (sint nLen)) n) (take (nat (sint tLen)) t) in
       (code \<noteq> - 1 \<longrightarrow> (\<exists>ms. verdict = Inr ms \<and> state_text js ms text)) \<and>
       (length text < 2 ^ 31 \<longrightarrow>
         (if sint code < 0 then \<not> (\<exists>ms text. verdict = Inr ms \<and> state_text js ms text)
          else sint code = int (length text)))))"
proof -
  from assms obtain b fmt nb tb where g: "GoBytes att attLen = Inr b" "GoString fs = Inr fmt" "GoBytes n nLen = Inr nb"
      "GoBytes t tLen = Inr tb"
    and r: "(\<exists>ms. VerifyAttestation lib b fmt nb tb = Inr ms \<and> state_text js ms text \<and> code = word_of_nat (length text)) \<or>
      code = - 1 \<and> ((\<exists>e. VerifyAttestation lib b fmt nb tb = Inl e \<and> text = MarshalError js (ErrorText js e)) \<or>
        (\<exists>ms. VerifyAttestation lib b fmt nb tb = Inr ms \<and> (\<forall>text. \<not> state_text js ms text)))"
    by (rule VerifyAttestationFFI_Inr)
  from g have b: "b = take (nat (sint attLen)) att" "nb = take (nat (sint nLen)) n" "tb = take (nat (sint tLen)) t"
    and nn: "0 \<le> sint attLen" "0 \<le> sint nLen" "0 \<le> sint tLen" by (simp_all add: GoBytes_Inr)
  from r have "(code \<noteq> - 1 \<longrightarrow> (\<exists>ms. VerifyAttestation lib b fmt nb tb = Inr ms \<and> state_text js ms text)) \<and>
       (length text < 2 ^ 31 \<longrightarrow>
         (if sint code < 0 then \<not> (\<exists>ms text. VerifyAttestation lib b fmt nb tb = Inr ms \<and> state_text js ms text)
          else sint code = int (length text)))"
  proof (elim disjE exE conjE)
    fix ms assume "VerifyAttestation lib b fmt nb tb = Inr ms" "state_text js ms text" "code = word_of_nat (length text)"
    then show ?thesis using sint_small [of "length text"] by auto
  qed (auto simp: sint_code)
  with g(2) nn show ?thesis unfolding b Let_def by blast
qed

text \<open>Without the bound the number tells nothing: a verified state of 4 GiB - 1 bytes of JSON is reported as -1.\<close>

lemma ffi_code_wraps:
  assumes "VerifyAttestation lib b fmt nb tb = Inr ms" and "ProtoMarshal js ms = Inr text" and "length text = 2 ^ 32 - 1"
    and "GoBytes att attLen = Inr b" "GoString fs = Inr fmt" "GoBytes n nLen = Inr nb" "GoBytes t tLen = Inr tb"
  shows "VerifyAttestationFFI lib js att attLen fs n nLen t tLen = Inr (text, - 1)"
proof -
  have "(word_of_nat (length text) :: 32 word) = - 1" unfolding assms(3) by simp
  with assms show ?thesis by (simp add: VerifyAttestationFFI_def)
qed

definition sample_ffi_json :: "(bytes, bytes, unit) machine_state ffi_json" where
  "sample_ffi_json = \<lparr>ErrorText = (\<lambda>e. ''refused''), MarshalError = bytes_of_string, ProtoMarshal = (\<lambda>ms. Inr [0x7B, 0x7D]),
     StdMarshal = (\<lambda>ms. Inr [0x7B, 0x7D]), MarshalTexts = (\<lambda>e f. ''no JSON'')\<rparr>"

lemma sample_ffi_format: "GoString (Some (bytes_of_string ''binarypb'' @ [0])) = Inr ''binarypb''"
  by (rule GoString_terminated) simp

lemma sample_ffi_run:
  "VerifyAttestationFFI sample_gce_lib sample_ffi_json (replicate 64 7) 64 (Some (bytes_of_string ''binarypb'' @ [0])) [] 0
     (replicate 64 7) 64 = Inr ([0x7B, 0x7D], 2)"
  using sample_gce_run [of "[]"] sample_ffi_format
  by (simp add: VerifyAttestationFFI_def GoBytes_def sample_ffi_json_def)

theorem ffi_code_witness:
  "\<exists>ms. VerifyAttestation sample_gce_lib (replicate 64 7) ''binarypb'' [] (replicate 64 7) = Inr ms \<and>
     state_text sample_ffi_json ms [0x7B, 0x7D]"
  using ffi_code [OF sample_ffi_run] sample_ffi_format by (simp add: Let_def)

end
