(* ===== verification/HexBytes.thy ===== *)
theory HexBytes
  imports GoStrings
begin

text \<open>
  \<open>HexBytes\<close> of \<open>attestation/teetypes/teetypes.go\<close>: bytes that travel in JSON as a hex string.

  The text of a hex string needs no escape, so that its encoding is the text in quotes; decoding a JSON
  string is the parameter \<open>unmarshal\<close>, with \<open>plain_strings\<close> what is relied on.
\<close>

definition json_quote :: "string \<Rightarrow> bytes" where
  "json_quote s = bytes_of_string ([CHR 0x22] @ s @ [CHR 0x22])"

definition HexBytes_MarshalJSON :: "bytes \<Rightarrow> err + bytes" where
  "HexBytes_MarshalJSON h = Inr (json_quote (hex_encode h))"

definition HexBytes_UnmarshalJSON :: "(bytes \<Rightarrow> err + string) \<Rightarrow> bytes \<Rightarrow> err + bytes" where
  "HexBytes_UnmarshalJSON unmarshal data =
     bindr (unmarshal data) (\<lambda>s. wrap_err (Errorf ''hex decode'') (hex_decode s))"

text \<open>A quoted text of hex digits is read as the text.\<close>

definition plain_strings :: "(bytes \<Rightarrow> err + string) \<Rightarrow> bool" where
  "plain_strings unmarshal \<longleftrightarrow> (\<forall>s. set s \<subseteq> set hex_digits \<longrightarrow> unmarshal (json_quote s) = Inr s)"

lemma HexBytes_round_trip:
  assumes "plain_strings unmarshal" and "HexBytes_MarshalJSON h = Inr data"
  shows "HexBytes_UnmarshalJSON unmarshal data = Inr h"
  using assms hex_encode_digits
  by (auto simp: plain_strings_def HexBytes_MarshalJSON_def HexBytes_UnmarshalJSON_def)

end
