(* ===== verification/Spec2Isabelle.thy ===== *)
theory Spec2Isabelle
  imports Prelude GoStrings Sha2 TeeTypes Measure Binding Journal Tpm Remote Ccel TcbStatus StrictJson Identity
    RefFlags RefConfig HwCommon SnpVerify TdxVerify VtpmSample Azure TeeVerify KdsCache Utf8 EqualFold Base64 Der ArmTls LaunchSnp Manifest Client Gce
    Mock Trust Ffi HexBytes
begin

text \<open>
  A model of the Go module \<open>attestation-go\<close>, which produces and verifies attestation evidence of
  confidential guests on AMD SEV-SNP and Intel TDX, on bare metal, Azure and Google Cloud. Paths below
  are relative to the root of the repository.

  \<^bold>\<open>The program.\<close> A guest extends a register with the digests of what it runs and keeps a journal of
  them (\<open>runtimemeasure\<close>); the register starts from an anchor given at launch. A verifier gets an
  evidence envelope: a platform tag and a JSON payload. \<open>attestation/teeverify\<close> routes it on the tag to
  the verifier of the hardware (\<open>attestation/snp\<close>, \<open>attestation/tdx\<close>), on Azure under a vTPM layer
  (\<open>attestation/tpmcommon\<close>, \<open>azsnp\<close>, \<open>aztdx\<close>), and the result is claims and match flags
  (\<open>attestation/teetypes\<close>). Instead of verifying itself a program may ask a service (\<open>remote\<close>), whose
  verdict it never takes on trust: the flags, the launch measurement, registers and image pins are
  checked again. The pins come from configuration, flags or build manifests (\<open>refvalues\<close>,
  \<open>runtimemeasure\<close>); \<open>runtimemeasure/binding.go\<close> replays a journal against the claims. \<open>armtls\<close> carries
  the evidence in a certificate and binds it to the key; \<open>launchmeasure\<close> computes the expected launch
  digest of a guest; \<open>attestation\<close> and \<open>cmd/ffi\<close> are the older entry points over go-tpm-tools.

  \<^bold>\<open>Conventions.\<close> A function returning a value and an error is a function into \<open>err + 'a\<close>; \<open>err\<close> keeps
  the sentinels and the wrapping, not the texts, and \<open>Panic\<close> is a run-time panic. A Go string and a
  \<open>[]byte\<close> are lists of bytes, a struct is a record of its fields, a pointer that the code compares
  with nil is an option, a map is an association list whose newest entry is first. State is passed and
  returned. A loop is a function on the data it consumes, or has an argument that shrinks; only the wait
  for a healthy service may not end and is a \<open>partial_function\<close>. Fuel occurs once, in the duplicate-key walk
  of \<open>StrictJson\<close>: two units per token and two more, which \<open>walk_fuel\<close> shows is never used up.
  Definitions compute; samples evaluate them.

  \<^bold>\<open>Theories and sources.\<close>

  \<^item> \<open>Prelude\<close>, \<open>GoStrings\<close>, \<open>Utf8\<close>, \<open>Base64\<close>, \<open>Sha2\<close>, \<open>HwCommon\<close>: the error monad, slices, byte orders; the
    string, hex, base64 and UTF-8 functions of the standard library the code calls; SHA-256 and SHA-384.
  \<^item> \<open>TeeTypes\<close>, \<open>HexBytes\<close>: \<open>attestation/teetypes\<close>: platform tags, families, digests, claims, results.
  \<^item> \<open>Measure\<close>: \<open>runtimemeasure/runtimemeasure.go\<close>, \<open>register.go\<close>: the hash chain and the register device.
    The locale \<open>register\<close> is what the journal relies on; the TDX device interprets it.
  \<^item> \<open>Binding\<close>: \<open>runtimemeasure/binding.go\<close>, \<open>launchfile.go\<close>, \<open>anchor.go\<close>: what a claim is bound to.
  \<^item> \<open>Journal\<close>: \<open>runtimemeasure/journal.go\<close>: open, reconcile, measure, roll back, with a fault at any system
    call and a crash at any point; the relation \<open>jstep\<close>, in which the file may change at any time, its
    abstract log \<open>log_step\<close>, and the part \<open>durable_step\<close> of it where the storage keeps its word.
  \<^item> \<open>Tpm\<close>, \<open>VtpmSample\<close>: \<open>attestation/tpmcommon/tpmcommon.go\<close>: HCL report, key, quote, PCRs, nonce.
  \<^item> \<open>SnpVerify\<close>, \<open>KdsCache\<close>: \<open>attestation/snp/snp.go\<close>, \<open>kdscache.go\<close>.
  \<^item> \<open>Ccel\<close>, \<open>TcbStatus\<close>, \<open>TdxVerify\<close>: \<open>attestation/tdx/ccel.go\<close>, \<open>tcbstatus.go\<close>, \<open>tdx.go\<close>.
  \<^item> \<open>Azure\<close>: \<open>attestation/azsnp/azsnp.go\<close>, \<open>attestation/aztdx/aztdx.go\<close>.
  \<^item> \<open>TeeVerify\<close>: \<open>attestation/teeverify/teeverify.go\<close>. The locale \<open>hardware_layer\<close> is what the dispatch and
    the vTPM arms rely on; the SEV-SNP and the TDX verifier interpret it.
  \<^item> \<open>Remote\<close>, \<open>Client\<close>, \<open>Mock\<close>: \<open>remote/wire.go\<close>, \<open>verify.go\<close>, \<open>images.go\<close>; \<open>client.go\<close>, \<open>health.go\<close>,
    \<open>socketowner_unix.go\<close>; the stub service \<open>mockapi/mockapi.go\<close>, a state machine over its requests.
  \<^item> \<open>EqualFold\<close>, \<open>StrictJson\<close>: Unicode case folding of \<open>strings.EqualFold\<close>; \<open>internal/strictjson/strictjson.go\<close>.
  \<^item> \<open>Identity\<close>, \<open>Manifest\<close>: \<open>runtimemeasure/identity.go\<close>, \<open>result.go\<close>, \<open>manifest.go\<close>, \<open>manifest_snp.go\<close>,
    \<open>manifest_platform.go\<close>, \<open>refvalues/manifest.go\<close>. The locale \<open>image_identity\<close> is the Go interface
    \<open>ImageIdentity\<close>, interpreted by the TDX tuple and the SNP digest set.
  \<^item> \<open>RefFlags\<close>, \<open>RefConfig\<close>, \<open>Trust\<close>: \<open>refvalues/refvalues.go\<close>, \<open>flags.go\<close>, \<open>config.go\<close>, \<open>render.go\<close>;
    \<open>runtimemeasure/publickey.go\<close>, \<open>attestation/internal/tdxtrust/roots.go\<close>, \<open>launchmeasure/tdx/tdx.go\<close>.
  \<^item> \<open>Der\<close>, \<open>ArmTls\<close>: \<open>armtls/extension.go\<close>, \<open>evidence.go\<close>, \<open>snpreport.go\<close>, \<open>verify.go\<close>, with the DER codec
    of \<open>encoding/asn1\<close> for their one type.
  \<^item> \<open>LaunchSnp\<close>: \<open>launchmeasure/snp/snp.go\<close>, \<open>hashes.go\<close>, \<open>vcpu.go\<close>.
  \<^item> \<open>Gce\<close>, \<open>Ffi\<close>: \<open>attestation/attestation.go\<close>, \<open>verify.go\<close>, \<open>verify_sev.go\<close>, \<open>verify_tdx.go\<close>; \<open>cmd/ffi/main.go\<close>.

  \<^bold>\<open>What the lemmas show.\<close> For every checker, a lemma \<open>f_Inr\<close> says exactly when it accepts and what it
  returns, and the properties are stated over these. The parsers are inverse to a layout written as an
  image function (\<open>quote_image\<close>, \<open>hcl_image\<close>, \<open>ccel_image\<close>, the DER encoder, the journal text) and never
  panic. What rests on a hash is a reduction: the conclusion, or a collision among strings that the
  code hashes, or a preimage of the register's start among them (\<open>fold_break\<close>, \<open>hash_break\<close>); a run of the
  journal carries the strings it hashes for this. The launch digest is compared with a plan of updates that is
  written without the code's helpers. This theory composes the two ends: a guest's run of the journal,
  faults and crashes included, and the verifier's replay of it.

  \<^bold>\<open>Parameters.\<close> Code outside the repository is an argument: go-sev-guest, go-tdx-guest and their
  collateral (\<open>sev_lib\<close>, \<open>tdx_lib\<close>, with the documented effect of their policy validation as
  \<open>sev_contract\<close> and \<open>tdx_contract\<close>), go-tpm-tools, protobuf and the metadata server (\<open>gce_lib\<close>,
  \<open>attest_env\<close>), sev-snp-measure-go and gce-tcb-verifier (\<open>launch_lib\<close>, \<open>pki_lib\<close>; \<open>vmsa_contract\<close> is
  the documented shape of the vCPU pages). Of the standard
  library, \<open>encoding/json\<close>, \<open>encoding/pem\<close>, \<open>crypto/x509\<close>, elliptic curves, the file system and the exchange of
  HTTP requests are arguments too; a theorem that needs a law of one of them names it, and its witness
  has an instance.

  \<^bold>\<open>Not modelled.\<close> Texts of errors and log lines; contexts and timeouts except as outcomes of a call; the
  mutexes of the journal and the stub (a call is a step); the TCP and Unix listeners of the stub;
  copies made against aliasing (values are not shared here); \<open>FreeString\<close>; documentation files.
\<close>

section \<open>From the guest's register to a verified binding\<close>

text \<open>What a signature-verified TDX result with the register of a measuring run is bound to.\<close>

lemma run_bound_to:
  assumes "jreach TDXRegister DevValue (Extend Zero d) (None, w0) hs (Some j, w)"
    and "dev_ok (JReg w0)" and "DevValue (JReg w0) = Extend Zero d"
    and "launch_digest_ok FamilyTDX d"
    and "SignatureValid v" and "Family (ResPlatform v) = FamilyTDX" and "RTMR (Claims v) 3 = Inr (DevValue (JReg w))"
  shows "bound_to v d (Digests j) \<and> journal_order (Digests j) \<or> fold_break (Extend Zero d) hs"
  using any_run [OF assms(1-3)] assms(4-7) by (auto simp: bound_to_def)

text \<open>
  C3: the guest and the verifier agree. A TDX guest is launched with a file of digest \<open>d\<close> and measures
  its workloads through any run of a fail-closed measurer: opens, measurements, failed system calls,
  crashes and changes of the journal file in any sequence. A verifier that holds a
  signature-verified result with the guest's register, replaying the list the running journal
  reports against the launch digest, matches. Whatever launch digest and list it replays, a match
  means that the digest is the guest's and the matched entries are exactly the guest's log, or the
  strings hashed for the two replays hold a SHA-384 collision or a preimage of the zero register.
  All of this, or the strings the guest hashed hold a collision or a preimage of its seed.
\<close>

theorem measured_guest_matches:
  assumes "jreach TDXRegister DevValue (Extend Zero d) (None, w0) hs (Some j, w)"
    and "dev_ok (JReg w0)" and "DevValue (JReg w0) = Extend Zero d"
    and "launch_digest_ok FamilyTDX d"
    and "SignatureValid v" and "Family (ResPlatform v) = FamilyTDX" and "RTMR (Claims v) 3 = Inr (DevValue (JReg w))"
  shows "((\<exists>k. MatchLaunchFileDigestPrefix (Some v) d (Digests j) = Inr k) \<and>
    (\<forall>d' claimed k. MatchLaunchFileDigestPrefix (Some v) d' claimed = Inr k \<longrightarrow>
       d' = d \<and> take k claimed = Digests j \<or>
       hash_break (binding_inputs d' (take k claimed) @ binding_inputs d (Digests j)))) \<or>
    fold_break (Extend Zero d) hs"
proof (cases "fold_break (Extend Zero d) hs")
  case False
  with run_bound_to [OF assms] have b: "bound_to v d (Digests j)" and o: "journal_order (Digests j)" by simp_all
  let ?P = "\<lambda>k. k \<le> length (Digests j) \<and> bound_to v d (take k (Digests j))"
  have "?P (length (Digests j))" using b by simp
  then have "?P (LEAST k. ?P k)" by (rule LeastI)
  moreover have "\<forall>i<(LEAST k. ?P k). \<not> ?P i" by (blast dest: not_less_Least)
  ultimately have "MatchLaunchFileDigestPrefix (Some v) d (Digests j) = Inr (LEAST k. ?P k)"
    using o by (auto simp: MatchLaunchFileDigestPrefix_Inr journal_order_def list_all_iff)
  moreover have "d' = d \<and> take k claimed = Digests j \<or>
      hash_break (binding_inputs d' (take k claimed) @ binding_inputs d (Digests j))"
    if "MatchLaunchFileDigestPrefix (Some v) d' claimed = Inr k" for d' claimed k
    using that bound_to_unique [OF _ b, of d' "take k claimed"] by (auto simp: MatchLaunchFileDigestPrefix_Inr)
  ultimately show ?thesis by blast
qed simp

lemma open_fresh:
  assumes "length seed = Size"
  shows "OpenJournalSeeded OpenOk (Some TDXRegister) seed \<lparr>JFile = None, JReg = tdx_ready seed\<rparr> =
    ((Some (fresh_journal seed []), None), \<lparr>JFile = None, JReg = tdx_ready seed\<rparr>)"
  using assms parse_join [of "[]"]
  by (simp add: OpenJournalSeeded_def reconcile_def fresh_journal_def file_content_def)

text \<open>A guest that measures one image after a measurement whose sync failed.\<close>

theorem measured_guest_matches_witness:
  "\<exists>d hs j w. jreach TDXRegister DevValue (Extend Zero d) (None, \<lparr>JFile = None, JReg = tdx_ready (Extend Zero d)\<rparr>) hs (Some j, w) \<and>
     Digests j = [sample_digest CHR ''b''] \<and>
     ((\<exists>v k. RTMR (Claims v) 3 = Inr (DevValue (JReg w)) \<and>
        MatchLaunchFileDigestPrefix (Some v) d [sample_digest CHR ''b''] = Inr k) \<or>
      fold_break (Extend Zero d) hs)"
proof -
  obtain d :: bytes where d: "launch_digest_ok FamilyTDX d"
  proof (cases "sha384 [] = replicate 48 1")
    case True
    have "replicate 48 (2 :: byte) \<noteq> replicate 48 0" "replicate 48 (2 :: byte) \<noteq> replicate 48 1" by code_simp+
    with True show ?thesis by (intro that [of "replicate 48 2"]) (simp add: launch_digest_ok_def)
  next
    case False
    have "replicate 48 (1 :: byte) \<noteq> replicate 48 0" by code_simp
    with False show ?thesis by (intro that [of "replicate 48 1"]) (simp add: launch_digest_ok_def)
  qed
  let ?s = "Extend Zero d" and ?a = "sample_digest CHR ''a''" and ?b = "sample_digest CHR ''b''"
  let ?j = "fresh_journal ?s []" and ?start = "\<lparr>JFile = None, JReg = tdx_ready ?s\<rparr>"
  let ?w1 = "?start\<lparr>JFile := Some (?a @ [newline])\<rparr>"
  let ?w = "?w1\<lparr>JFile := Some (?a @ newline # ?b @ [newline]), JReg := tdx_ready (Extend ?s (Event ?b))\<rparr>"
  have m1: "MeasureOnce TDXRegister RecSyncFails AtomicOk ?a ?j ?start =
      (Inl (Wrap (Errorf ''record before extending'') (Errorf ''sync'')), ?j, ?w1)"
    by (simp add: MeasureOnce_def journal_record_def Let_def file_content_def)
  have m2: "MeasureOnce TDXRegister RecOk AtomicOk ?b ?j ?w1 = (Inr True, fresh_journal ?s [?b], ?w)"
    using measure_ready [of ?b "[]" ?w1 ?s AtomicOk ?s] by (simp add: file_content_def)
  have l: "length ?s = Size" by (simp add: Extend_def)
  let ?hs = "(([] @ open_inputs ?s ?start) @ measure_inputs DevValue ?a ?j ?start) @ measure_inputs DevValue ?b ?j ?w1"
  have run: "jreach TDXRegister DevValue ?s (None, ?start) ?hs (Some (fresh_journal ?s [?b]), ?w)"
    by (rule jreach.step, rule jreach.step, rule jreach.step, rule jreach.refl, rule jstep.opened,
        rule open_fresh [OF l], rule jstep.measured, rule m1, rule jstep.measured, rule m2)
  define v where "v = zero_result\<lparr>SignatureValid := True, ResPlatform := PlatformTDX,
     Claims := zero_claims\<lparr>PlatformData := [(''rtmr_3'', AStr (hex_encode (DevValue (JReg ?w))))]\<rparr>\<rparr>"
  have r: "RTMR (Claims v) 3 = Inr (DevValue (JReg ?w))" by (simp add: v_def RTMR_Inr Extend_def show_int_def show_nat.simps)
  have "Family (ResPlatform v) = FamilyTDX" "SignatureValid v" by (simp_all add: v_def)
  from measured_guest_matches [OF run _ _ d this(2,1) r] l
  have "(\<exists>k. MatchLaunchFileDigestPrefix (Some v) d (Digests (fresh_journal ?s [?b])) = Inr k) \<or> fold_break ?s ?hs" by auto
  moreover have "Digests (fresh_journal ?s [?b]) = [?b]" by (simp add: Digests_def fresh_journal_def)
  ultimately show ?thesis using run r by metis
qed

section \<open>From the kernel a verifier expects to the kernel a guest booted\<close>

text \<open>
  C4: an accepted SEV-SNP envelope pins the boot artifacts. A verifier computes the launch digest of a
  configuration with the kernel, initrd and command line it expects and asks for that digest. If an
  envelope is accepted, and the launch measurement it reports is what launching the same
  configuration with some artifacts yields, then these are the expected ones, unless the strings
  hashed hold a SHA-256 collision or the digest context maps two different launch plans to one
  digest. The hash table has to fit in its page.
\<close>

theorem expected_digest_pins_kernel:
  assumes "sev_contract (TeeSev lib)" and "tdx_contract (TeeTdx lib)"
    and "guid_width (GuidBytes llib)" and "openFirmware llib (FirmwarePath cfg) = Inr fw"
    and "hashTableOffset llib fw = Inr off" and "off + 176 \<le> 4096"
    and "LaunchDigest llib (cfg\<lparr>KernelHashes := Some (NewKernelHashes k i c)\<rparr>) = Inr d"
    and "ExpectedLaunchDigest params = Some d" and "Family (EvPlatform env) = FamilySNP"
    and "VerifyEnvelope lib env params opts = Inr res"
    and "LaunchMeasurement (Claims res) = LaunchDigest llib (cfg\<lparr>KernelHashes := Some (NewKernelHashes k' i' c')\<rparr>)"
  shows "k' = k \<and> i' = i \<and> c' = c \<or>
    collision_in sha256 [k', i', bytes_of_string c' @ [0], k, i, bytes_of_string c @ [0]] \<or>
    (\<exists>p q. launch_plan llib fw (cfg\<lparr>KernelHashes := Some (NewKernelHashes k' i' c')\<rparr>) = Inr p \<and>
       launch_plan llib fw (cfg\<lparr>KernelHashes := Some (NewKernelHashes k i c)\<rparr>) = Inr q \<and> ld_collision llib p q)"
proof -
  from VerifyEnvelope_sound [OF assms(1,2,10)] assms(8) have "LaunchMeasurement (Claims res) = Inr d"
    by (simp add: answers_def)
  with assms(11) have "LaunchDigest llib (cfg\<lparr>KernelHashes := Some (NewKernelHashes k' i' c')\<rparr>) = Inr d" by simp
  from LaunchDigest_binds [OF assms(3-6) this assms(7)] show ?thesis .
qed

text \<open>A report of the sample guest's launch digest.\<close>

definition launched_lib :: "(nat, nat) tee_lib" where
  "launched_lib = sample_tee_lib\<lparr>
     TeeSev := sample_sev_lib\<lparr>ReportToProto := (\<lambda>b. Inr (sample_report\<lparr>RepMeasurement := replicate 48 3\<rparr>))\<rparr>,
     UnmarshalSnpEvidence := (\<lambda>_. Inr \<lparr>AttestationReport = std_encode [1],
       CertChain = Some \<lparr>Vcek = std_encode [2], Ask = [], Ark = []\<rparr>\<rparr>)\<rparr>"

definition launched_params :: verify_params where
  "launched_params = sample_snp_params\<lparr>ExpectedLaunchDigest := Some (replicate 48 3)\<rparr>"

lemma launched_report:
  "\<exists>res. VerifyReportContext (TeeSev launched_lib) [1] [2] launched_params PlatformSNP 3
     \<lparr>SnpCheckRevocations = False, SnpGetter = None\<rparr> = Inr res"
proof -
  have "(2::byte) \<le> 3" "(0::byte) \<le> 3" "(1::byte) \<le> 3" by code_simp+
  then show ?thesis
    by (simp add: VerifyReportContext_def launched_lib_def launched_params_def sample_sev_lib_def sample_report_def
        snp_validateOptions_def sample_snp_params_def cert_chain_def vcekProductRoots_def Let_def)
qed

lemma launched_envelope:
  "\<exists>res. VerifyEnvelope launched_lib \<lparr>EvPlatform = PlatformSNP, EvEvidence = []\<rparr> launched_params sample_tee_opts = Inr res"
proof -
  have v: "std_encode [2] \<noteq> []" by (simp add: std_encode_def Let_def)
  obtain res where "VerifyReportContext (TeeSev launched_lib) [1] [2] launched_params PlatformSNP 3
     \<lparr>SnpCheckRevocations = False, SnpGetter = None\<rparr> = Inr res" using launched_report ..
  then have "snp_VerifyEvidenceContext (TeeSev launched_lib) \<lparr>AttestationReport = std_encode [1],
       CertChain = Some \<lparr>Vcek = std_encode [2], Ask = [], Ark = []\<rparr>\<rparr> launched_params
       \<lparr>SnpCheckRevocations = False, SnpGetter = None\<rparr> = Inr res"
    using v by (simp add: snp_VerifyEvidenceContext_def std_decode_encode)
  moreover have "UnmarshalSnpEvidence launched_lib [] = Inr \<lparr>AttestationReport = std_encode [1],
       CertChain = Some \<lparr>Vcek = std_encode [2], Ask = [], Ark = []\<rparr>\<rparr>"
    by (simp add: launched_lib_def)
  ultimately show ?thesis
    by (simp add: VerifyEnvelope_def verifySNP_def sample_tee_opts_def launched_params_def sample_snp_params_def)
qed

theorem expected_digest_pins_kernel_witness:
  "\<exists>res. VerifyEnvelope launched_lib \<lparr>EvPlatform = PlatformSNP, EvEvidence = []\<rparr> launched_params sample_tee_opts = Inr res \<and>
     LaunchMeasurement (Claims res) = LaunchDigest (sample_launch_lib [16, 0, 1, 0])
       (sample_config\<lparr>KernelHashes := Some (NewKernelHashes [1] [] ''quiet'')\<rparr>) \<and>
     ([1] = [1 :: byte] \<and> [] = ([] :: bytes) \<and> ''quiet'' = ''quiet'' \<or>
      collision_in sha256 [[1], [], bytes_of_string ''quiet'' @ [0], [1], [], bytes_of_string ''quiet'' @ [0]] \<or>
      (\<exists>p q. ld_collision (sample_launch_lib [16, 0, 1, 0]) p q))"
proof -
  have i: "length [16, 0, 1, 0 :: byte] = 4" "le_nat [16, 0, 1, 0] \<noteq> 0" "le_nat [16, 0, 1, 0] mod 4096 + 176 \<le> 4096"
    by (simp_all add: le_nat_def be_nat_def)
  note d = sample_launch_digest [OF i(1,2), of "[1]" "[]" "''quiet''"]
  have c: "sev_contract (TeeSev launched_lib)" "tdx_contract (TeeTdx launched_lib)"
    using sample_sev_contract sample_tdx_contract by (simp_all add: launched_lib_def sample_tee_lib_def sev_contract_def)
  have f: "Family (EvPlatform \<lparr>EvPlatform = PlatformSNP, EvEvidence = []\<rparr>) = FamilySNP" by (simp add: Family_def)
  have e: "ExpectedLaunchDigest launched_params = Some (replicate 48 3)" by (simp add: launched_params_def)
  obtain res where res: "VerifyEnvelope launched_lib \<lparr>EvPlatform = PlatformSNP, EvEvidence = []\<rparr> launched_params sample_tee_opts = Inr res"
    using launched_envelope ..
  have m: "LaunchMeasurement (Claims res) = LaunchDigest (sample_launch_lib [16, 0, 1, 0])
       (sample_config\<lparr>KernelHashes := Some (NewKernelHashes [1] [] ''quiet'')\<rparr>)"
    using VerifyEnvelope_sound [OF c res] e d by (simp add: answers_def)
  from expected_digest_pins_kernel [OF c sample_launch_width sample_launch_fw sample_launch_offset [OF i(1,2)] i(3) d e f res m] res m
  show ?thesis by blast
qed

end
